(* ===== verification/Prelude.thy ===== *)
theory Prelude
  imports Complex_Main "HOL-Library.AList" "HOL-Library.Multiset" "HOL-Library.Sublist"
    "HOL-Library.Product_Lexorder" "HOL-Library.List_Lexorder" "HOL-Library.Char_ord"
begin

text \<open>
  Shared vocabulary of the development: the fragment of Python and of its standard library that
  telemetryd uses, and the generic lemmas about it.

  \<^item> A Python \<open>str\<close> is represented by its UTF-8 encoding, a HOL \<open>string\<close>; a Python \<open>bytes\<close> is a
    \<open>string\<close> as well.  ASCII text reads the same in both.  The character classes of the regular
    expressions (\<open>\d\<close>, \<open>\s\<close>, \<open>\w\<close>) and of \<open>strip\<close> are the ASCII ones.
  \<^item> A Python \<open>int\<close> is an \<open>int\<close> (a \<open>nat\<close> where the code only ever has sizes and offsets); a
    Python \<open>float\<close> is an exact rational, so rounding is not modelled.
  \<^item> A Python \<open>dict\<close> keeps insertion order and the code iterates over it, so it is an association
    list; \<open>d[k] = v\<close> is \<open>AList.update\<close>, which overwrites in place or appends at the end.
  \<^item> An exception is the left summand of a sum type.
\<close>

named_theorems text_simps \<open>evaluation of the text functions\<close>
named_theorems dict_simps \<open>dictionaries\<close>

type_synonym pystr = string
type_synonym pybytes = string
type_synonym pyfloat = rat
type_synonym ('k, 'v) dict = "('k \<times> 'v) list"

abbreviation nl :: char where "nl \<equiv> CHR 0x0A"

subsection \<open>Exceptions and dictionaries\<close>

text \<open>Sequencing of calls that may raise: the first exception ends the computation.\<close>

definition bindE :: "'e + 'a \<Rightarrow> ('a \<Rightarrow> 'e + 'b) \<Rightarrow> 'e + 'b" where
  "bindE m f = (case m of Inl e \<Rightarrow> Inl e | Inr x \<Rightarrow> f x)"

lemma bindE_simps [simp]: "bindE (Inl e) f = Inl e" "bindE (Inr x) f = f x"
  by (simp_all add: bindE_def)

lemma bindE_Inr: "bindE m f = Inr y \<longleftrightarrow> (\<exists>x. m = Inr x \<and> f x = Inr y)"
  by (simp add: bindE_def split: sum.split)

lemma bindE_cong [fundef_cong]:
  "\<lbrakk>m = m'; \<And>x. m' = Inr x \<Longrightarrow> f x = f' x\<rbrakk> \<Longrightarrow> bindE m f = bindE m' f'"
  by (cases m') auto

text \<open>A loop over a list whose body may raise, collecting the results.\<close>

fun mapE :: "('a \<Rightarrow> 'e + 'b) \<Rightarrow> 'a list \<Rightarrow> 'e + 'b list" where
  "mapE f [] = Inr []"
| "mapE f (x # xs) = bindE (f x) (\<lambda>y. bindE (mapE f xs) (\<lambda>ys. Inr (y # ys)))"

text \<open>\<open>d.get(k, default)\<close>\<close>

definition dict_get :: "('k, 'v) dict \<Rightarrow> 'k \<Rightarrow> 'v \<Rightarrow> 'v" where
  "dict_get d k x = (case map_of d k of None \<Rightarrow> x | Some v \<Rightarrow> v)"

lemma map_of_update [dict_simps]:
  "map_of (AList.update k v d) k' = (if k' = k then Some v else map_of d k')"
  by (simp add: update_conv')

lemma dict_get_update [dict_simps]:
  "dict_get (AList.update k v d) k' x = (if k' = k then v else dict_get d k' x)"
  by (simp add: dict_get_def map_of_update)

text \<open>A dictionary without duplicate keys.\<close>

definition dict_ok :: "('k, 'v) dict \<Rightarrow> bool" where
  "dict_ok d \<longleftrightarrow> distinct (map fst d)"

lemma dict_ok_update: "dict_ok d \<Longrightarrow> dict_ok (AList.update k v d)"
  by (simp add: dict_ok_def distinct_update)

lemma update_fresh: "k \<notin> fst ` set xs \<Longrightarrow> AList.update k v xs = xs @ [(k, v)]"
  by (induction xs) auto

lemma map_of_map_entry:
  "map_of (AList.map_entry k f xs) k' =
     map_option (\<lambda>v. if k' = k then f v else v) (map_of xs k')"
  by (induction xs) (auto simp: option.map_ident)

lemma keys_map_entry [simp]: "map fst (AList.map_entry k f xs) = map fst xs"
  by (induction xs) auto

subsection \<open>Slices and windows\<close>

text \<open>The slice \<open>xs[-n:]\<close>: the last \<open>n\<close> elements, and the whole list for \<open>n = 0\<close>.\<close>

definition last_n :: "nat \<Rightarrow> 'a list \<Rightarrow> 'a list" where
  "last_n n xs = (if n = 0 then xs else drop (length xs - n) xs)"

lemma length_last_n [simp]: "0 < n \<Longrightarrow> length (last_n n xs) = min n (length xs)"
  by (simp add: last_n_def)

lemma last_n_short: "length xs \<le> n \<Longrightarrow> last_n n xs = xs"
  by (simp add: last_n_def)

lemma set_last_n: "set (last_n n xs) \<subseteq> set xs"
  by (simp add: last_n_def set_drop_subset)

text \<open>Trimming after each append keeps the same window as trimming once at the end.\<close>

lemma last_n_append_trim:
  "0 < n \<Longrightarrow> last_n n (last_n n xs @ ys) = last_n n (xs @ ys)"
proof -
  assume n: "0 < n"
  show ?thesis
  proof (cases "n \<le> length xs")
    case True
    with n show ?thesis by (simp add: last_n_def add.commute [of "length ys"])
  next
    case False
    with n show ?thesis by (simp add: last_n_def)
  qed
qed

subsection \<open>Sorted lists\<close>

lemma distinct_sort_map: "distinct (map f (sort_key k xs)) = distinct (map f xs)"
proof -
  have "mset (map f (sort_key k xs)) = mset (map f xs)" by (simp add: mset_map)
  then show ?thesis by (metis distinct_count_atmost_1 set_mset_mset)
qed

lemma distinct_map_snoc: "distinct (map f (xs @ [y])) \<Longrightarrow> x \<in> set xs \<Longrightarrow> f x \<noteq> f y"
  by (auto simp: image_iff)

lemma distinct_map_last_n: "distinct (map f xs) \<Longrightarrow> distinct (map f (last_n n xs))"
  by (simp add: last_n_def drop_map [symmetric])

lemma sort_Nil_iff [simp]: "sort xs = [] \<longleftrightarrow> xs = []"
  by (metis length_0_conv length_sort)

lemma find_ex: "(\<exists>y. find P xs = Some y) \<longleftrightarrow> (\<exists>x \<in> set xs. P x)"
  by (induction xs) auto

lemma fold_invariant:
  assumes "\<And>x s. P s \<Longrightarrow> P (f x s)" "P s"
  shows "P (fold f xs s)"
  using assms(2) by (induction xs arbitrary: s) (simp_all add: assms(1))

end
