(* ===== verification/PyText.thy ===== *)
theory PyText
  imports Prelude
begin

text \<open>
  The text functions of Python's standard library that the log parsers use: character classes,
  \<open>str.strip\<close>, \<open>str.split\<close>, \<open>str.splitlines\<close>, \<open>int()\<close> and decimal/hexadecimal formatting, UTF-8
  decoding with \<open>errors="replace"\<close>, universal newlines, and a matcher for the anchored regular
  expressions of the readers.  The regular expressions of the source are written as token lists;
  in each of them every quantified class is followed by a character outside the class, so greedy
  matching never backtracks and the token matcher below is exact.
\<close>

subsection \<open>Character classes\<close>

abbreviation code :: "char \<Rightarrow> nat" where "code c \<equiv> of_char c"

definition is_digit :: "char \<Rightarrow> bool" where
  "is_digit c \<longleftrightarrow> 48 \<le> code c \<and> code c \<le> 57"

definition is_space :: "char \<Rightarrow> bool" where
  "is_space c \<longleftrightarrow> code c = 32 \<or> 9 \<le> code c \<and> code c \<le> 13 \<or> 28 \<le> code c \<and> code c \<le> 31"

definition is_word :: "char \<Rightarrow> bool" where
  "is_word c \<longleftrightarrow> is_digit c \<or> 65 \<le> code c \<and> code c \<le> 90 \<or> 97 \<le> code c \<and> code c \<le> 122 \<or> code c = 95"

lemmas char_classes = is_digit_def is_space_def is_word_def

subsection \<open>Stripping and splitting\<close>

text \<open>\<open>s.strip()\<close>\<close>

definition strip :: "pystr \<Rightarrow> pystr" where
  "strip s = rev (dropWhile is_space (rev (dropWhile is_space s)))"

text \<open>\<open>s.split(sep)\<close> for a one-character separator.\<close>

fun split_on :: "char \<Rightarrow> pystr \<Rightarrow> pystr list" where
  "split_on c [] = [[]]"
| "split_on c (x # xs) =
     (if x = c then [] # split_on c xs
      else (case split_on c xs of [] \<Rightarrow> [[x]] | y # ys \<Rightarrow> (x # y) # ys))"

lemma split_on_not_Nil [simp]: "split_on c s \<noteq> []"
  by (cases s) (auto split: list.splits)

lemma split_on_append: "split_on c (xs @ c # ys) = split_on c xs @ split_on c ys"
proof (induction xs)
  case Nil
  show ?case by simp
next
  case (Cons x xs)
  then show ?case by (cases "split_on c xs") auto
qed

lemma split_on_free: "c \<notin> set s \<Longrightarrow> split_on c s = [s]"
  by (induction s) auto

lemma split_on_pieces_free: "l \<in> set (split_on c s) \<Longrightarrow> c \<notin> set l"
proof (induction s arbitrary: l)
  case Nil
  then show ?case by simp
next
  case (Cons x s)
  obtain y ys where "split_on c s = y # ys"
    by (cases "split_on c s") auto
  with Cons show ?case by (auto split: if_splits)
qed

text \<open>\<open>s.split(sep)\<close> for a longer separator, scanning from the left.\<close>

function split_str :: "pystr \<Rightarrow> pystr \<Rightarrow> pystr list" where
  "split_str sep [] = [[]]"
| "split_str sep (x # xs) =
     (if sep \<noteq> [] \<and> prefix sep (x # xs) then [] # split_str sep (drop (length sep) (x # xs))
      else (case split_str sep xs of [] \<Rightarrow> [[x]] | y # ys \<Rightarrow> (x # y) # ys))"
  by pat_completeness auto
termination
  by (relation "measure (\<lambda>(sep, s). length s)") (auto simp: neq_Nil_conv)

lemma split_str_not_Nil [simp]: "split_str sep s \<noteq> []"
  by (cases s) (auto split: list.splits)

text \<open>\<open>s.splitlines()\<close>: the ASCII line boundaries of Python and the two-character \<open>\r\n\<close>.\<close>

definition is_linebreak :: "char \<Rightarrow> bool" where
  "is_linebreak c \<longleftrightarrow> 10 \<le> code c \<and> code c \<le> 13 \<or> 28 \<le> code c \<and> code c \<le> 30"

fun splitlines_acc :: "pystr \<Rightarrow> pystr \<Rightarrow> pystr list" where
  "splitlines_acc acc [] = (if acc = [] then [] else [rev acc])"
| "splitlines_acc acc (x # xs) =
     (if x = CHR 0x0D then
        rev acc # (case xs of [] \<Rightarrow> splitlines_acc [] xs
                   | y # ys \<Rightarrow> if y = nl then splitlines_acc [] ys else splitlines_acc [] xs)
      else if is_linebreak x then rev acc # splitlines_acc [] xs
      else splitlines_acc (x # acc) xs)"

definition splitlines :: "pystr \<Rightarrow> pystr list" where
  "splitlines s = splitlines_acc [] s"

text \<open>Text-mode reading translates \<open>\r\n\<close> and \<open>\r\<close> to \<open>\n\<close>.\<close>

fun universal_newlines :: "pystr \<Rightarrow> pystr" where
  "universal_newlines [] = []"
| "universal_newlines (x # xs) =
     (if x = CHR 0x0D then
        nl # (case xs of [] \<Rightarrow> [] | y # ys \<Rightarrow>
                if y = nl then universal_newlines ys else universal_newlines xs)
      else x # universal_newlines xs)"

subsection \<open>Decimal and hexadecimal numbers\<close>

definition digit :: "nat \<Rightarrow> char" where
  "digit d = char_of (48 + d)"

definition hexdigit :: "nat \<Rightarrow> char" where
  "hexdigit d = (if d < 10 then char_of (48 + d) else char_of (87 + d))"

definition digit_val :: "char \<Rightarrow> nat" where
  "digit_val c = code c - 48"

text \<open>\<open>str(n)\<close> and \<open>int(s)\<close>.\<close>

fun nat_dec :: "nat \<Rightarrow> pystr" where
  "nat_dec n = (if n < 10 then [digit n] else nat_dec (n div 10) @ [digit (n mod 10)])"

declare nat_dec.simps [simp del]

definition int_dec :: "int \<Rightarrow> pystr" where
  "int_dec i = (if i < 0 then CHR ''-'' # nat_dec (nat (- i)) else nat_dec (nat i))"

definition dec_val :: "pystr \<Rightarrow> nat" where
  "dec_val s = foldl (\<lambda>n c. 10 * n + digit_val c) 0 s"

fun nat_hex :: "nat \<Rightarrow> pystr" where
  "nat_hex n = (if n < 16 then [hexdigit n] else nat_hex (n div 16) @ [hexdigit (n mod 16)])"

declare nat_hex.simps [simp del]

text \<open>The format \<open>{i:0<w>x}\<close>: sign-aware zero padding to width \<open>w\<close>.\<close>

definition fmt_hex :: "nat \<Rightarrow> int \<Rightarrow> pystr" where
  "fmt_hex w i =
     (let sign = (if i < 0 then ''-'' else []); s = nat_hex (nat \<bar>i\<bar>)
      in sign @ replicate (w - (length sign + length s)) CHR ''0'' @ s)"

text \<open>\<open>hex(i)\<close>\<close>

definition py_hex :: "int \<Rightarrow> pystr" where
  "py_hex i = (if i < 0 then ''-0x'' @ nat_hex (nat (- i)) else ''0x'' @ nat_hex (nat i))"

lemma code_digit [simp]: "d < 10 \<Longrightarrow> code (digit d) = 48 + d"
  by (simp add: digit_def of_char_of take_bit_nat_def)

lemma is_digit_digit [simp]: "d < 10 \<Longrightarrow> is_digit (digit d)"
  by (simp add: is_digit_def)

lemma digit_val_digit [simp]: "d < 10 \<Longrightarrow> digit_val (digit d) = d"
  by (simp add: digit_val_def)

lemma nat_dec_not_Nil [simp]: "nat_dec n \<noteq> []"
  by (subst nat_dec.simps) simp

lemma nat_dec_digits: "c \<in> set (nat_dec n) \<Longrightarrow> is_digit c"
proof (induction n rule: nat_dec.induct)
  case (1 n)
  then show ?case
    by (cases "n < 10") (auto simp: nat_dec.simps [of n])
qed

lemma dec_val_nat_dec [simp]: "dec_val (nat_dec n) = n"
proof (induction n rule: nat_dec.induct)
  case (1 n)
  show ?case
  proof (cases "n < 10")
    case True
    then show ?thesis by (simp add: nat_dec.simps [of n] dec_val_def)
  next
    case False
    with 1 have "dec_val (nat_dec (n div 10)) = n div 10" by simp
    with False show ?thesis
      by (simp add: nat_dec.simps [of n] dec_val_def)
  qed
qed

lemma nat_dec_inject [simp]: "nat_dec m = nat_dec n \<longleftrightarrow> m = n"
  by (metis dec_val_nat_dec)

subsection \<open>Anchored patterns\<close>

text \<open>
  The tokens of the readers' regular expressions.  \<open>Lit s\<close> is literal text, \<open>Dec\<close> the group
  \<open>(\d+)\<close>, \<open>SDec\<close> the group \<open>(-?\d+)\<close>, \<open>Name\<close> the group \<open>(\w+)\<close>, \<open>Bound\<close> the group
  \<open>([0-9.]+[KMG]?)\<close> of a histogram boundary, \<open>Ws0\<close> and \<open>Ws1\<close> are \<open>\s*\<close> and \<open>\s+\<close>.
\<close>

datatype tok = Lit pystr | Dec | SDec | Name | Bound | Ws0 | Ws1

datatype capture = CInt int | CStr pystr

definition is_boundc :: "char \<Rightarrow> bool" where
  "is_boundc c \<longleftrightarrow> is_digit c \<or> c = CHR ''.''"

definition take_dec :: "pystr \<Rightarrow> (int \<times> pystr) option" where
  "take_dec s = (let ds = takeWhile is_digit s
                 in if ds = [] then None else Some (int (dec_val ds), dropWhile is_digit s))"

definition take_sdec :: "pystr \<Rightarrow> (int \<times> pystr) option" where
  "take_sdec s =
     (case s of [] \<Rightarrow> None
      | c # cs \<Rightarrow> if c = CHR ''-'' then map_option (\<lambda>(i, r). (- i, r)) (take_dec cs)
                  else take_dec s)"

definition take_bound :: "pystr \<Rightarrow> (pystr \<times> pystr) option" where
  "take_bound s =
     (let ds = takeWhile is_boundc s; r = dropWhile is_boundc s
      in if ds = [] then None
         else (case r of [] \<Rightarrow> Some (ds, r)
               | c # cs \<Rightarrow> if c \<in> {CHR ''K'', CHR ''M'', CHR ''G''} then Some (ds @ [c], cs)
                           else Some (ds, r)))"

fun match_toks :: "tok list \<Rightarrow> pystr \<Rightarrow> (capture list \<times> pystr) option" where
  "match_toks [] s = Some ([], s)"
| "match_toks (Lit l # ts) s =
     (if prefix l s then match_toks ts (drop (length l) s) else None)"
| "match_toks (Dec # ts) s =
     (case take_dec s of None \<Rightarrow> None
      | Some (i, r) \<Rightarrow> map_option (\<lambda>(cs, r'). (CInt i # cs, r')) (match_toks ts r))"
| "match_toks (SDec # ts) s =
     (case take_sdec s of None \<Rightarrow> None
      | Some (i, r) \<Rightarrow> map_option (\<lambda>(cs, r'). (CInt i # cs, r')) (match_toks ts r))"
| "match_toks (Name # ts) s =
     (let w = takeWhile is_word s
      in if w = [] then None
         else map_option (\<lambda>(cs, r'). (CStr w # cs, r')) (match_toks ts (dropWhile is_word s)))"
| "match_toks (Bound # ts) s =
     (case take_bound s of None \<Rightarrow> None
      | Some (w, r) \<Rightarrow> map_option (\<lambda>(cs, r'). (CStr w # cs, r')) (match_toks ts r))"
| "match_toks (Ws0 # ts) s = match_toks ts (dropWhile is_space s)"
| "match_toks (Ws1 # ts) s =
     (if s \<noteq> [] \<and> is_space (hd s) then match_toks ts (dropWhile is_space s) else None)"

text \<open>\<open>re.match\<close> of a pattern that ends in \<open>$\<close>, on text without a trailing newline.\<close>

definition re_full :: "tok list \<Rightarrow> pystr \<Rightarrow> capture list option" where
  "re_full ts s = (case match_toks ts s of Some (cs, []) \<Rightarrow> Some cs | _ \<Rightarrow> None)"

text \<open>The same for text that may end in a newline, before which \<open>$\<close> matches as well.\<close>

definition re_dollar :: "tok list \<Rightarrow> pystr \<Rightarrow> capture list option" where
  "re_dollar ts s =
     (case match_toks ts s of Some (cs, r) \<Rightarrow> if r = [] \<or> r = [nl] then Some cs else None | None \<Rightarrow> None)"

text \<open>
  A format string is a token list as well: \<open>Dec\<close> and \<open>SDec\<close> print a number.  \<open>wf_fmt\<close> is the side
  condition under which printing and matching are inverse: a number is never followed by a digit.
\<close>

fun print_toks :: "tok list \<Rightarrow> int list \<Rightarrow> pystr" where
  "print_toks (Lit l # ts) vs = l @ print_toks ts vs"
| "print_toks (Dec # ts) (v # vs) = int_dec v @ print_toks ts vs"
| "print_toks (SDec # ts) (v # vs) = int_dec v @ print_toks ts vs"
| "print_toks _ _ = []"

fun nondigit_start :: "tok list \<Rightarrow> bool" where
  "nondigit_start [] = True"
| "nondigit_start [Ws0] = True"
| "nondigit_start (Lit (c # cs) # ts) = (\<not> is_digit c)"
| "nondigit_start _ = False"

fun wf_fmt :: "tok list \<Rightarrow> bool" where
  "wf_fmt [] = True"
| "wf_fmt [Ws0] = True"
| "wf_fmt (Lit l # ts) = wf_fmt ts"
| "wf_fmt (Dec # ts) = (nondigit_start ts \<and> wf_fmt ts)"
| "wf_fmt (SDec # ts) = (nondigit_start ts \<and> wf_fmt ts)"
| "wf_fmt _ = False"

text \<open>The values a format takes: one number per \<open>Dec\<close> (not negative) or \<open>SDec\<close>.\<close>

fun fmt_args :: "tok list \<Rightarrow> int list \<Rightarrow> bool" where
  "fmt_args (Lit l # ts) vs = fmt_args ts vs"
| "fmt_args (Dec # ts) (v # vs) = (0 \<le> v \<and> fmt_args ts vs)"
| "fmt_args (SDec # ts) (v # vs) = fmt_args ts vs"
| "fmt_args [] vs = (vs = [])"
| "fmt_args [Ws0] vs = (vs = [])"
| "fmt_args _ _ = False"

lemma int_dec_not_Nil [simp]: "int_dec i \<noteq> []"
  by (simp add: int_dec_def)

lemma take_dec_nat_dec:
  assumes "s = [] \<or> \<not> is_digit (hd s)"
  shows "take_dec (nat_dec n @ s) = Some (int n, s)"
proof -
  have all: "\<forall>c \<in> set (nat_dec n). is_digit c"
    using nat_dec_digits by blast
  have "takeWhile is_digit (nat_dec n @ s) = nat_dec n \<and> dropWhile is_digit (nat_dec n @ s) = s"
    using all assms by (cases s) (auto simp: takeWhile_append dropWhile_append)
  then show ?thesis by (simp add: take_dec_def)
qed

lemma take_dec_int_dec:
  assumes "0 \<le> i" and "s = [] \<or> \<not> is_digit (hd s)"
  shows "take_dec (int_dec i @ s) = Some (i, s)"
  using take_dec_nat_dec [OF assms(2)] assms(1) by (simp add: int_dec_def)

lemma take_sdec_int_dec:
  assumes "s = [] \<or> \<not> is_digit (hd s)"
  shows "take_sdec (int_dec i @ s) = Some (i, s)"
proof (cases "i < 0")
  case True
  then show ?thesis
    by (simp add: int_dec_def take_sdec_def take_dec_nat_dec [OF assms])
next
  case False
  obtain d ds where d: "nat_dec (nat i) = d # ds"
    by (cases "nat_dec (nat i)") auto
  then have "is_digit d"
    using nat_dec_digits [of d "nat i"] by simp
  then have "d \<noteq> CHR ''-''"
    by (auto simp: is_digit_def)
  with False d show ?thesis
    using take_dec_nat_dec [OF assms, of "nat i"] by (simp add: int_dec_def take_sdec_def)
qed

lemma print_toks_nondigit:
  "nondigit_start ts \<Longrightarrow> print_toks ts vs = [] \<or> \<not> is_digit (hd (print_toks ts vs))"
  by (induction ts rule: nondigit_start.induct) auto

theorem match_print_toks:
  "wf_fmt ts \<Longrightarrow> fmt_args ts vs \<Longrightarrow> match_toks ts (print_toks ts vs) = Some (map CInt vs, [])"
proof (induction ts arbitrary: vs rule: wf_fmt.induct)
  case (4 ts)
  then obtain v vs' where "vs = v # vs'" "0 \<le> v" "fmt_args ts vs'"
    by (cases vs) auto
  with 4 show ?case
    by (simp add: take_dec_int_dec print_toks_nondigit)
next
  case (5 ts)
  then obtain v vs' where "vs = v # vs'" "fmt_args ts vs'"
    by (cases vs) auto
  with 5 show ?case
    by (simp add: take_sdec_int_dec print_toks_nondigit)
qed auto

corollary re_full_print_toks:
  "wf_fmt ts \<Longrightarrow> fmt_args ts vs \<Longrightarrow> re_full ts (print_toks ts vs) = Some (map CInt vs)"
  by (simp add: re_full_def match_print_toks)

lemma strip_id: "\<lbrakk>s \<noteq> []; \<not> is_space (hd s); \<not> is_space (last s)\<rbrakk> \<Longrightarrow> strip s = s"
  by (cases s) (simp_all add: strip_def dropWhile_append2 hd_rev [symmetric] hd_append
      dropWhile_eq_self_iff)

text \<open>The groups of a pattern whose groups are all numbers, as integers.\<close>

fun cap_int :: "capture \<Rightarrow> int" where
  "cap_int (CInt i) = i"
| "cap_int (CStr s) = 0"

definition re_ints :: "tok list \<Rightarrow> pystr \<Rightarrow> int list option" where
  "re_ints ts s = map_option (map cap_int) (re_full ts s)"

lemma re_ints_print:
  "wf_fmt ts \<Longrightarrow> fmt_args ts vs \<Longrightarrow> re_ints ts (print_toks ts vs) = Some vs"
  by (simp add: re_ints_def re_full_print_toks o_def)

lemma print_toks_Ws0: "print_toks (ts @ [Ws0]) vs = print_toks ts vs"
  by (induction ts vs rule: print_toks.induct) auto

lemma last_int_dec: "is_digit (last (int_dec i))"
proof -
  have "is_digit (last (nat_dec n))" for n
    by (rule nat_dec_digits [of _ n]) simp
  then show ?thesis by (simp add: int_dec_def)
qed

lemma digit_not_space: "is_digit c \<Longrightarrow> \<not> is_space c"
  by (auto simp: is_digit_def is_space_def)

text \<open>A printed format that ends with a number has no trailing white space.\<close>

fun ends_num :: "tok list \<Rightarrow> bool" where
  "ends_num [] = False"
| "ends_num (t # ts) = (if ts = [] \<or> ts = [Ws0] then t = Dec \<or> t = SDec else ends_num ts)"

lemma print_toks_last:
  "fmt_args ts vs \<Longrightarrow> ends_num ts \<Longrightarrow>
   print_toks ts vs \<noteq> [] \<and> \<not> is_space (last (print_toks ts vs))"
proof (induction ts vs rule: fmt_args.induct)
  case (1 l ts vs)
  then show ?case by (auto split: if_splits)
next
  case (2 ts v vs)
  then show ?case
    using digit_not_space [OF last_int_dec [of v]] by (auto split: if_splits)
next
  case (3 ts v vs)
  then show ?case
    using digit_not_space [OF last_int_dec [of v]] by (auto split: if_splits)
qed auto

lemma strip_print_toks:
  assumes "fmt_args (Lit (c # cs) # ts) vs" "ends_num (Lit (c # cs) # ts)" "\<not> is_space c"
  shows "strip (print_toks (Lit (c # cs) # ts) vs) = print_toks (Lit (c # cs) # ts) vs"
  using print_toks_last [OF assms(1,2)] assms(3) by (intro strip_id) auto

subsection \<open>UTF-8 decoding with replacement\<close>

text \<open>
  \<open>b.decode("utf-8", errors="replace")\<close>.  Text is held in its UTF-8 encoding, so decoding keeps
  well-formed sequences and replaces every maximal ill-formed subsequence by U+FFFD, whose encoding
  is \<open>EF BF BD\<close>.  \<open>utf8_lead\<close> gives the admissible ranges of the continuation bytes.
\<close>

definition ufffd :: pystr where
  "ufffd = [CHR 0xEF, CHR 0xBF, CHR 0xBD]"

definition utf8_lead :: "char \<Rightarrow> (nat \<times> nat) list option" where
  "utf8_lead c =
     (let b = code c in
      if b < 0x80 then Some []
      else if b < 0xC2 then None
      else if b < 0xE0 then Some [(0x80, 0xBF)]
      else if b = 0xE0 then Some [(0xA0, 0xBF), (0x80, 0xBF)]
      else if b = 0xED then Some [(0x80, 0x9F), (0x80, 0xBF)]
      else if b < 0xF0 then Some [(0x80, 0xBF), (0x80, 0xBF)]
      else if b = 0xF0 then Some [(0x90, 0xBF), (0x80, 0xBF), (0x80, 0xBF)]
      else if b < 0xF4 then Some [(0x80, 0xBF), (0x80, 0xBF), (0x80, 0xBF)]
      else if b = 0xF4 then Some [(0x80, 0x8F), (0x80, 0xBF), (0x80, 0xBF)]
      else None)"

fun conts :: "(nat \<times> nat) list \<Rightarrow> pybytes \<Rightarrow> nat" where
  "conts ((lo, hi) # rs) (b # bs) =
     (if lo \<le> code b \<and> code b \<le> hi then Suc (conts rs bs) else 0)"
| "conts _ _ = 0"

function utf8_replace :: "pybytes \<Rightarrow> pystr" where
  "utf8_replace [] = []"
| "utf8_replace (b # bs) =
     (case utf8_lead b of
        None \<Rightarrow> ufffd @ utf8_replace bs
      | Some rs \<Rightarrow>
          (let k = conts rs bs
           in (if k = length rs then b # take k bs else ufffd) @ utf8_replace (drop k bs)))"
  by pat_completeness auto
termination
  by (relation "measure length") (auto simp: less_Suc_eq_le)

lemma utf8_lead_ascii: "code c < 0x80 \<Longrightarrow> utf8_lead c = Some []"
  by (simp add: utf8_lead_def)

lemma utf8_lead_ranges: "utf8_lead c = Some rs \<Longrightarrow> (lo, hi) \<in> set rs \<Longrightarrow> 0x80 \<le> lo"
  by (auto simp: utf8_lead_def Let_def split: if_splits)

lemma conts_le: "conts rs bs \<le> length bs"
  by (induction rs bs rule: conts.induct) auto

lemma conts_stop:
  "(\<And>lo hi. (lo, hi) \<in> set rs \<Longrightarrow> 0x80 \<le> lo) \<Longrightarrow> code c < 0x80 \<Longrightarrow>
   conts rs (xs @ c # ys) = conts rs xs"
proof (induction rs arbitrary: xs)
  case Nil
  then show ?case by simp
next
  case (Cons r rs)
  obtain lo hi where r: "r = (lo, hi)" by (cases r)
  with Cons.prems have "code c < lo" by (meson less_le_trans list.set_intros(1))
  with Cons r show ?case by (cases xs) auto
qed

text \<open>An ASCII byte never takes part in a multi-byte sequence: decoding splits there.\<close>

theorem utf8_replace_ascii:
  "code c < 0x80 \<Longrightarrow> utf8_replace (xs @ c # ys) = utf8_replace xs @ c # utf8_replace ys"
proof (induction xs rule: utf8_replace.induct)
  case 1
  then show ?case by (simp add: utf8_lead_ascii)
next
  case (2 b bs)
  show ?case
  proof (cases "utf8_lead b")
    case None
    with 2 show ?thesis by simp
  next
    case (Some rs)
    have k: "conts rs (bs @ c # ys) = conts rs bs"
      using utf8_lead_ranges [OF Some] 2(3) by (intro conts_stop) auto
    have "utf8_replace (drop (conts rs bs) bs @ c # ys) =
        utf8_replace (drop (conts rs bs) bs) @ c # utf8_replace ys"
      using 2 Some by blast
    with Some k conts_le [of rs bs] show ?thesis
      by (simp add: Let_def)
  qed
qed

lemma utf8_replace_ascii_id: "\<forall>c \<in> set s. code c < 0x80 \<Longrightarrow> utf8_replace s = s"
  by (induction s) (simp_all add: utf8_lead_ascii)

end
