(* ===== verification/Models.thy ===== *)
theory Models
  imports PyText
begin

text \<open>
  The dataclasses of \<open>models.py\<close>, one record each with the source's fields in the source's order.
  Every field carries the initials of its class as a prefix, because record selectors share one name
  space.  A free-text field (an error, a note, a summary) holds a \<open>message\<close>: one constructor per
  text the source builds, with the interpolated values as arguments.  Rendering a message is not
  modelled; no code of the program looks inside one, except for the kernel-thread test of
  the process list, which is a predicate on \<open>message\<close>.
\<close>

text \<open>\<open>_elapsed_text\<close> prints seconds or milliseconds with one decimal; the number before rounding.\<close>

datatype elapsed_text = Seconds pyfloat | Millis pyfloat

text \<open>The roles that \<open>infer_role\<close> tells apart.\<close>

datatype io_role =
    RoleNoIo
  | RoleAdminOnly
  | RoleSequentialWrite
  | RoleRandomWrite
  | RoleWriteMostly
  | RoleSequentialRead
  | RoleRandomRead
  | RoleReadMostly
  | RoleMixed

datatype message =
    MsgRaw pystr                            \<comment> \<open>text taken over from an exception\<close>
  | MsgBadDeviceName pystr                  \<comment> \<open>not a device name: \<open>{device!r}\<close>\<close>
  | MsgNoCollectorLog                       \<comment> \<open>eBPF collector log missing\<close>
  | MsgNoCollectorData                      \<comment> \<open>eBPF collector has no data yet\<close>
  | MsgCidNotInRing int int                 \<comment> \<open>cid not found in the SQ ring (depth)\<close>
  | MsgCidOutOfDepth int int                \<comment> \<open>cid outside the queue depth (mock)\<close>
  | MsgIommuOn                              \<comment> \<open>IOMMU on: PRPs are IOVAs, not dumped\<close>
  | MsgBlkRqBytes                           \<comment> \<open>\<open>iod.total_len\<close> missing, \<open>blk_rq_bytes\<close> used\<close>
  | MsgLenFromNlb                           \<comment> \<open>request gone, NLB * 512B estimated\<close>
  | MsgLenUnknown                           \<comment> \<open>total length unknown\<close>
  | MsgDepthExceeded int int                \<comment> \<open>maximum depth, requested depth\<close>
  | MsgDepthShort                           \<comment> \<open>depth exceeded\<close>
  | MsgReadFault pystr                      \<comment> \<open>read failed (\<open>FaultError\<close>)\<close>
  | MsgUnknownField pystr                   \<comment> \<open>unknown field (mock tree)\<close>
  | MsgTimeoutSummary pystr int elapsed_text int int int
      \<comment> \<open>opcode name, opcode, elapsed, qid, tag, nsid\<close>
  | MsgErrorSummary pystr int pystr pystr int bool int int int int "(int \<times> int) option"
      \<comment> \<open>opcode name, opcode, SCT name, SC name, status, DNR, retries, qid, cid, nsid, LBA range\<close>
  | MsgEventKind pystr                      \<comment> \<open>label or description of a registered event kind\<close>
  | MsgKernelThread                         \<comment> \<open>kernel thread (no mm): no cmdline or exe\<close>
  | MsgNoLeader                             \<comment> \<open>thread group leader not seen\<close>
  | MsgArgRangeEmpty                        \<comment> \<open>\<open>mm->arg_start/arg_end\<close> empty\<close>
  | MsgUserReadFailed pystr pystr           \<comment> \<open>user memory and page-table fallback both failed\<close>
  | MsgUserUnmapped                         \<comment> \<open>user memory not mapped\<close>
  | MsgNoPgd                                \<comment> \<open>\<open>mm->pgd\<close> missing\<close>
  | MsgUserEmpty                            \<comment> \<open>user memory read gave no result\<close>
  | MsgVanished                             \<comment> \<open>gone from the process list\<close>
  | MsgAlreadyExited                        \<comment> \<open>seems to have exited already\<close>
  | MsgNotATarget                           \<comment> \<open>kernel thread: not a profiling target\<close>
  | MsgUnmonitored                          \<comment> \<open>not a target, not in any session's totals\<close>
  | MsgNoIoYet                              \<comment> \<open>no I/O observed yet, nothing to compare\<close>
  | MsgIoSize int int                       \<comment> \<open>expected and measured I/O size differ\<close>
  | MsgWriteInRead pystr pyfloat            \<comment> \<open>read workload with a write share\<close>
  | MsgReadInWrite pystr pyfloat            \<comment> \<open>write workload with a read share\<close>
  | MsgQueueDepth int pyfloat               \<comment> \<open>expected and estimated queue depth differ\<close>
  | MsgPattern pystr pystr pyfloat          \<comment> \<open>expected and measured access pattern differ\<close>
  | MsgNoJobs                               \<comment> \<open>fio job definition not found\<close>
  | MsgRole io_role                         \<comment> \<open>inferred role\<close>
  | MsgAdapterFailed pystr                  \<comment> \<open>adapter failed, grouping skipped\<close>
  | MsgNoCollectorProfile                   \<comment> \<open>no collector: sessions without measurements\<close>
  | MsgTopologyErrors "(pystr \<times> pystr) list"  \<comment> \<open>devices left out of the topology\<close>

text \<open>
  The exceptions the program raises or catches: its own two (\<open>backend/base.py\<close>), the library's that
  the handlers tell apart, and every other one.
\<close>

datatype exn =
    DeviceNotFoundError pystr
  | QueueNotFoundError int
  | FaultError
  | LookupError
  | AttributeError
  | TypeError
  | ValueError message
  | OtherError pystr

section \<open>Queues and PRP payloads\<close>

record QueueSnapshot =
  qs_index :: int
  qs_qid :: int
  qs_is_admin :: bool
  qs_depth :: int
  qs_sq_tail :: int
  qs_cq_head :: int
  qs_sq_dma_addr :: int
  qs_cq_dma_addr :: int
  qs_hctx_index :: "int option"
  qs_inflight_driver :: int
  qs_inflight_sched :: int

record DeviceSnapshot =
  ds_name :: pystr
  ds_addr :: int
  ds_model :: pystr
  ds_online_queues :: int
  ds_allocated_queues :: int
  ds_bar_addr :: int
  ds_dbs_addr :: int
  ds_iommu_enabled :: bool
  ds_backend_kind :: pystr
  ds_queues :: "QueueSnapshot list"

record QueueEntry =
  qe_index :: int
  qe_cid :: int
  qe_opcode :: int
  qe_opcode_name :: pystr
  qe_nsid :: int
  qe_flags :: int
  qe_uses_sgl :: bool
  qe_cdw2 :: int
  qe_cdw3 :: int
  qe_cdw10 :: int
  qe_cdw11 :: int
  qe_cdw12 :: int
  qe_cdw13 :: int
  qe_cdw14 :: int
  qe_cdw15 :: int
  qe_prp1 :: int
  qe_prp2 :: int

record CompletionEntry =
  ce_index :: int
  ce_command_id :: int
  ce_sq_id :: int
  ce_sq_head :: int
  ce_status_raw :: int
  ce_phase :: bool
  ce_status_code :: int
  ce_status_code_type :: int
  ce_result :: int

record PrpPage =
  pp_phys_addr :: int
  pp_offset_in_page :: int
  pp_data :: pybytes
  pp_is_list_page :: bool

record PrpPayload =
  pl_device :: pystr
  pl_qid :: int
  pl_cid :: int
  pl_uses_sgl :: bool
  pl_total_len :: int
  pl_pages :: "PrpPage list"
  pl_error :: "message option"

section \<open>Pointer tree\<close>

record TreeNode =
  tn_name :: pystr
  tn_type_name :: pystr
  tn_kind :: pystr
  tn_value_repr :: message
  tn_address :: "int option"
  tn_is_null :: bool
  tn_expandable :: bool

record TreeExpansion =
  te_node :: TreeNode
  te_children :: "TreeNode list"
  te_depth :: nat
  te_error :: "message option"

section \<open>Performance\<close>

record QueuePerf =
  qp_qid :: int
  qp_iops :: pyfloat
  qp_read_iops :: pyfloat
  qp_write_iops :: pyfloat
  qp_bandwidth_bytes_per_sec :: pyfloat
  qp_avg_latency_us :: pyfloat
  qp_p50_latency_us :: pyfloat
  qp_p95_latency_us :: pyfloat
  qp_p99_latency_us :: pyfloat
  qp_p999_latency_us :: pyfloat

record DevicePerf =
  dp_device :: pystr
  dp_queues :: "QueuePerf list"
  dp_available :: bool
  dp_error :: "message option"
  dp_aggregate :: "QueuePerf option"

section \<open>Events\<close>

record TimeoutEventDetail =
  td_tag :: int
  td_opcode :: int
  td_opcode_name :: pystr
  td_nsid :: int
  td_flags :: int
  td_cdw10 :: int
  td_cdw11 :: int
  td_cdw12 :: int
  td_cdw13 :: int
  td_cdw14 :: int
  td_cdw15 :: int
  td_elapsed_us :: pyfloat

record ErrorEventDetail =
  ed_cid :: int
  ed_tag :: int
  ed_opcode :: int
  ed_opcode_name :: pystr
  ed_nsid :: int
  ed_status :: int
  ed_sct :: int
  ed_sc :: int
  ed_sct_name :: pystr
  ed_sc_name :: pystr
  ed_dnr :: bool
  ed_more :: bool
  ed_crd :: int
  ed_retries :: int
  ed_slba :: int
  ed_nlb :: int
  ed_lba_valid :: bool
  ed_submit_cached :: bool
  ed_elapsed_us :: pyfloat

record NvmeEvent =
  ev_kind :: pystr
  ev_observed_at :: pyfloat
  ev_device :: pystr
  ev_qid :: int
  ev_summary :: message
  ev_timeout :: "TimeoutEventDetail option"
  ev_error :: "ErrorEventDetail option"

record ErrorStatusCount =
  sc_sct :: int
  sc_sc :: int
  sc_sct_name :: pystr
  sc_sc_name :: pystr
  sc_count :: int

record DeviceErrorStats =
  es_device :: pystr
  es_counts :: "ErrorStatusCount list"
  es_total :: int
  es_available :: bool
  es_error :: "message option"

record EventKindInfo =
  ek_kind :: pystr
  ek_label :: message
  ek_source :: pystr
  ek_description :: message
  ek_active :: bool

section \<open>Profiler\<close>

record ThreadIoStat =
  ts_tid :: int
  ts_comm :: pystr
  ts_iops :: pyfloat

record ProcessIoStat =
  ps_device :: pystr
  ps_pid :: int
  ps_comm :: pystr
  ps_iops :: pyfloat
  ps_read_iops :: pyfloat
  ps_write_iops :: pyfloat
  ps_bandwidth_bps :: pyfloat
  ps_avg_latency_us :: pyfloat
  ps_io_size_dominant :: int
  ps_io_size_hist :: "(int \<times> int) list"
  ps_queues :: "(int \<times> int) list"
  ps_queue_depth_est :: pyfloat
  ps_seq_ratio :: "pyfloat option"
  ps_threads :: "ThreadIoStat list"

record ProcessInfo =
  pi_pid :: int
  pi_comm :: pystr
  pi_cmdline :: pystr
  pi_exe_path :: pystr
  pi_uid :: int
  pi_start_time_ns :: int
  pi_thread_count :: int
  pi_threads :: "(int \<times> pystr) list"
  pi_state :: pystr
  pi_error :: "message option"

record TargetRule =
  tr_kind :: pystr
  tr_value :: pystr
  tr_adapter :: "pystr option"

record WorkloadSpec =
  ws_io_size :: "int option"
  ws_rw :: "pystr option"
  ws_pattern :: "pystr option"
  ws_queue_depth :: "int option"
  ws_ioengine :: "pystr option"
  ws_direct :: "bool option"
  ws_filename :: "pystr option"
  ws_numjobs :: "int option"
  ws_runtime_sec :: "int option"

record MeasuredWorkload =
  mw_io_size_dominant :: int
  mw_read_ratio :: pyfloat
  mw_write_ratio :: pyfloat
  mw_queue_depth_avg :: pyfloat
  mw_iops :: pyfloat
  mw_bandwidth_bps :: pyfloat

record LogicalGroup =
  lg_name :: pystr
  lg_type :: pystr
  lg_source :: pystr
  lg_thread_tids :: "int list"
  lg_expected_workload :: "WorkloadSpec option"
  lg_measured_workload :: "MeasuredWorkload option"
  lg_expectation_match :: "bool option"
  lg_mismatch_reasons :: "message list"
  lg_inferred :: bool
  lg_progress_pct :: "pyfloat option"

record Session =
  se_session_id :: pystr
  se_pid :: int
  se_comm :: pystr
  se_cmdline :: pystr
  se_exe_path :: pystr
  se_adapter :: pystr
  se_status :: pystr
  se_start_time_ns :: int
  se_session_start_ns :: int
  se_session_end_ns :: "int option"
  se_devices :: "pystr list"
  se_thread_count_active :: int
  se_aggregate :: "MeasuredWorkload option"
  se_logical_groups :: "LogicalGroup list"
  se_matched_rule :: "pystr option"

record UnmonitoredIo =
  um_pid :: int
  um_comm :: pystr
  um_device :: pystr
  um_io_rate :: pyfloat
  um_note :: message

record DeviceAttribution =
  da_name :: pystr
  da_total_iops :: pyfloat
  da_attributed_iops :: pyfloat
  da_unattributed_iops :: pyfloat
  da_contributing_sessions :: "pystr list"
  da_multi_process_warning :: bool

record ProfileSnapshot =
  sn_schema_version :: pystr
  sn_collected_at_ns :: int
  sn_sessions :: "Session list"
  sn_unmonitored_io :: "UnmonitoredIo list"
  sn_devices :: "DeviceAttribution list"
  sn_rules :: "TargetRule list"
  sn_available :: bool
  sn_error :: "message option"

record ProcessListEntry =
  le_info :: ProcessInfo
  le_io_active :: bool
  le_io_rate :: pyfloat
  le_target_devices :: "pystr list"
  le_is_target :: bool
  le_matched_rule :: "pystr option"
  le_selectable :: bool
  le_unselectable_reason :: "message option"

end
