(* ===== verification/NvmeConst.thy ===== *)
theory NvmeConst
  imports Models
begin

unbundle bit_operations_syntax

text \<open>
  The constants and decoders of \<open>nvme_const.py\<close>: opcode and status-code name tables, page-size
  constants and \<open>decode_status\<close>.  A Python \<open>>>\<close> on integers is \<open>drop_bit\<close>, \<open>&\<close> is \<open>AND\<close>.
\<close>

named_theorems nvme_defs \<open>unfolding of the decoders\<close>

section \<open>Opcodes\<close>

definition NVM_OPC :: "(int, pystr) dict" where
  "NVM_OPC =
     [(0x00, ''flush''), (0x01, ''write''), (0x02, ''read''), (0x09, ''dsm''),
      (0x0d, ''write_zeroes'')]"

definition ADM_OPC :: "(int, pystr) dict" where
  "ADM_OPC =
     [(0x00, ''delete_sq''), (0x01, ''create_sq''), (0x02, ''get_log''), (0x04, ''delete_cq''),
      (0x05, ''create_cq''), (0x06, ''identify''), (0x09, ''set_features''),
      (0x0a, ''get_features''), (0x0c, ''async_event'')]"

definition opcode_name :: "int \<Rightarrow> bool \<Rightarrow> pystr" where
  "opcode_name opcode is_admin =
     (let table = (if is_admin then ADM_OPC else NVM_OPC)
      in case map_of table opcode of Some n \<Rightarrow> n | None \<Rightarrow> ''0x'' @ fmt_hex 2 opcode)"

section \<open>Pages\<close>

definition PAGE_SIZE :: int where "PAGE_SIZE = 4096"

definition PAGE_MASK :: int where "PAGE_MASK = PAGE_SIZE - 1"

definition PRPS_PER_PAGE :: int where "PRPS_PER_PAGE = PAGE_SIZE div 8"

definition MAX_PAGE_DUMP :: int where "MAX_PAGE_DUMP = PAGE_SIZE"

lemmas page_consts = PAGE_SIZE_def PAGE_MASK_def PRPS_PER_PAGE_def MAX_PAGE_DUMP_def

section \<open>Status codes\<close>

definition SCT_NAMES :: "(int, pystr) dict" where
  "SCT_NAMES =
     [(0x0, ''Generic''), (0x1, ''Command Specific''), (0x2, ''Media/Data Integrity''),
      (0x3, ''Path Related''), (0x7, ''Vendor Specific'')]"

definition SC_GENERIC :: "(int, pystr) dict" where
  "SC_GENERIC =
     [(0x00, ''Success''), (0x01, ''Invalid Command Opcode''), (0x02, ''Invalid Field in Command''),
      (0x03, ''Command ID Conflict''), (0x04, ''Data Transfer Error''),
      (0x05, ''Commands Aborted due to Power Loss''), (0x06, ''Internal Error''),
      (0x07, ''Command Abort Requested''), (0x08, ''Command Aborted due to SQ Deletion''),
      (0x0b, ''Invalid Namespace or Format''), (0x0c, ''Command Sequence Error''),
      (0x1c, ''Namespace Not Ready''), (0x80, ''LBA Out of Range''), (0x81, ''Capacity Exceeded''),
      (0x82, ''Namespace Not Ready''), (0x83, ''Reservation Conflict'')]"

definition SC_CMD_SPECIFIC :: "(int, pystr) dict" where
  "SC_CMD_SPECIFIC =
     [(0x00, ''Completion Queue Invalid''), (0x01, ''Invalid Queue Identifier''),
      (0x02, ''Invalid Queue Size''), (0x05, ''Abort Command Limit Exceeded''),
      (0x0a, ''Invalid Format''), (0x0e, ''Invalid Log Page''), (0x80, ''Conflicting Attributes''),
      (0x81, ''Invalid Protection Information''), (0x82, ''Attempted Write to Read Only Range'')]"

definition SC_MEDIA :: "(int, pystr) dict" where
  "SC_MEDIA =
     [(0x80, ''Write Fault''), (0x81, ''Unrecovered Read Error''),
      (0x82, ''End-to-end Guard Check Error''), (0x83, ''End-to-end Application Tag Check Error''),
      (0x84, ''End-to-end Reference Tag Check Error''), (0x85, ''Compare Failure''),
      (0x86, ''Access Denied''), (0x87, ''Deallocated or Unwritten Logical Block'')]"

definition SC_PATH :: "(int, pystr) dict" where
  "SC_PATH =
     [(0x00, ''Internal Path Error''), (0x01, ''Asymmetric Access Persistent Loss''),
      (0x02, ''Asymmetric Access Inaccessible''), (0x03, ''Asymmetric Access Transition''),
      (0x60, ''Controller Path Error''), (0x70, ''Host Path Error''),
      (0x71, ''Command Aborted by Host'')]"

definition SC_TABLES :: "(int, (int, pystr) dict) dict" where
  "SC_TABLES = [(0x0, SC_GENERIC), (0x1, SC_CMD_SPECIFIC), (0x2, SC_MEDIA), (0x3, SC_PATH)]"

definition sct_name :: "int \<Rightarrow> pystr" where
  "sct_name sct =
     (case map_of SCT_NAMES sct of Some n \<Rightarrow> n | None \<Rightarrow> ''SCT 0x'' @ fmt_hex 0 sct)"

definition sc_name :: "int \<Rightarrow> int \<Rightarrow> pystr" where
  "sc_name sct sc =
     (case map_of SC_TABLES sct of
        None \<Rightarrow> ''0x'' @ fmt_hex 2 sc
      | Some table \<Rightarrow>
          (case map_of table sc of Some n \<Rightarrow> n | None \<Rightarrow> ''0x'' @ fmt_hex 2 sc))"

record decoded_status =
  st_sc :: int
  st_sct :: int
  st_crd :: int
  st_more :: bool
  st_dnr :: bool
  st_sct_name :: pystr
  st_sc_name :: pystr

definition decode_status :: "int \<Rightarrow> decoded_status" where
  "decode_status status =
     (let sc = status AND 0xFF; sct = drop_bit 8 status AND 0x7
      in \<lparr>st_sc = sc, st_sct = sct,
          st_crd = drop_bit 11 status AND 0x3,
          st_more = (drop_bit 13 status AND 0x1 \<noteq> 0),
          st_dnr = (drop_bit 14 status AND 0x1 \<noteq> 0),
          st_sct_name = sct_name sct, st_sc_name = sc_name sct sc\<rparr>)"

section \<open>Bit fields\<close>

text \<open>A bit field \<open>(x >> k) & (2^w - 1)\<close> in arithmetic.\<close>

lemma and_mask_mod_exp: "(x :: int) AND (2 ^ n - 1) = x mod 2 ^ n"
  by (simp add: take_bit_eq_mod [symmetric] take_bit_eq_mask mask_eq_exp_minus_1)

lemma and_mask_mod:
  fixes x :: int
  shows "x AND 0x1 = x mod 2" "x AND 0x3 = x mod 4" "x AND 0x7 = x mod 8"
    "x AND 0xFF = x mod 256" "x AND 0xFFF = x mod 4096" "x AND 0xFFFF = x mod 65536"
    "x AND 0xFFFFFFFF = x mod 4294967296"
  using and_mask_mod_exp [of x 1] and_mask_mod_exp [of x 2] and_mask_mod_exp [of x 3]
    and_mask_mod_exp [of x 8] and_mask_mod_exp [of x 12] and_mask_mod_exp [of x 16]
    and_mask_mod_exp [of x 32]
  by simp_all

lemma drop_bit_div: "drop_bit n (x :: int) = x div 2 ^ n"
  by (simp add: drop_bit_eq_div)

lemmas bit_field = and_mask_mod drop_bit_div

lemma field_step: "0 \<le> k \<Longrightarrow> (x :: int) mod (m * k) = x mod m + m * (x div m mod k)"
  by (simp add: zmod_zmult2_eq)

lemma of_bool_mod2: "of_bool (a mod 2 \<noteq> 0) = (a mod 2 :: int)"
  by (cases "even a") (auto simp: even_iff_mod_2_eq_zero odd_iff_mod_2_eq_one)

text \<open>The fields of a decoded status in arithmetic.\<close>

lemma decode_status_fields:
  "st_sc (decode_status s) = s mod 256"
  "st_sct (decode_status s) = s div 256 mod 8"
  "st_crd (decode_status s) = s div 2048 mod 4"
  "of_bool (st_more (decode_status s)) = s div 8192 mod 2"
  "of_bool (st_dnr (decode_status s)) = s div 16384 mod 2"
  using of_bool_mod2 [of "s div 8192"] of_bool_mod2 [of "s div 16384"]
  by (simp_all only: decode_status_def Let_def decoded_status.select_convs bit_field) simp_all

text \<open>
  The five fields that \<open>decode_status\<close> extracts partition the 15 status bits: weighted by their
  bit positions they give back the status exactly, whatever the sign or the size of the input, and
  each lies in the range of its field.
\<close>

theorem decode_status_lossless:
  "status mod 2 ^ 15 =
     st_sc (decode_status status) + 2 ^ 8 * st_sct (decode_status status)
     + 2 ^ 11 * st_crd (decode_status status)
     + 2 ^ 13 * of_bool (st_more (decode_status status))
     + 2 ^ 14 * of_bool (st_dnr (decode_status status))"
proof -
  have dnr: "status mod 32768 = status mod 16384 + 16384 * (status div 16384 mod 2)"
    using field_step [of 2 status 16384] by simp
  have more: "status mod 16384 = status mod 8192 + 8192 * (status div 8192 mod 2)"
    using field_step [of 2 status 8192] by simp
  have crd: "status mod 8192 = status mod 2048 + 2048 * (status div 2048 mod 4)"
    using field_step [of 4 status 2048] by simp
  have sct: "status mod 2048 = status mod 256 + 256 * (status div 256 mod 8)"
    using field_step [of 8 status 256] by simp
  have pow: "(2 :: int) ^ 15 = 32768" "(2 :: int) ^ 14 = 16384" "(2 :: int) ^ 13 = 8192"
    "(2 :: int) ^ 11 = 2048" "(2 :: int) ^ 8 = 256"
    by simp_all
  show ?thesis
    unfolding decode_status_fields pow dnr more crd sct ..
qed

lemma decode_status_ranges:
  "0 \<le> st_sc (decode_status s)" "st_sc (decode_status s) < 256"
  "0 \<le> st_sct (decode_status s)" "st_sct (decode_status s) < 8"
  "0 \<le> st_crd (decode_status s)" "st_crd (decode_status s) < 4"
  by (simp_all add: decode_status_fields)

text \<open>The names are the ones the tables give for the decoded numbers.\<close>

lemma decode_status_names:
  "st_sct_name (decode_status s) = sct_name (st_sct (decode_status s))"
  "st_sc_name (decode_status s) = sc_name (st_sct (decode_status s)) (st_sc (decode_status s))"
  by (simp_all add: decode_status_def Let_def)

end
