(* ===== verification/EbpfLog.thy ===== *)
theory EbpfLog
  imports NvmeConst
begin

text \<open>
  The collector-log platform of \<open>platform/ebpf/\<close>: the log source (\<open>FileEbpfLogSource\<close>,
  \<open>NullEbpfLogSource\<close>, \<open>as_log_source\<close>) and the incremental cursor (\<open>_FileCursor\<close>).

  The file system is the environment.  A \<open>file_view\<close> holds what it answers during one call:
  whether the path exists, what \<open>os.path.getsize\<close> returns and what opening and reading the file
  gives (\<open>None\<close> for an \<open>OSError\<close>).  Size and content are separate answers because the collector may
  append between the two calls.

  The contract of the \<open>EbpfLogCursor\<close> port is the locale \<open>log_cursor\<close>; the file cursor is its
  interpretation.
\<close>

section \<open>The environment\<close>

record file_view =
  fv_exists :: bool
  fv_size :: "nat option"
  fv_content :: "pybytes option"

section \<open>Log source\<close>

text \<open>\<open>FileEbpfLogSource\<close> wraps an optional path; an empty path counts as missing.\<close>

record FileEbpfLogSource =
  src_path :: "pystr option"

definition has_path :: "pystr option \<Rightarrow> bool" where
  "has_path p \<longleftrightarrow> (case p of None \<Rightarrow> False | Some s \<Rightarrow> s \<noteq> [])"

definition available :: "FileEbpfLogSource \<Rightarrow> file_view \<Rightarrow> bool" where
  "available src v \<longleftrightarrow> has_path (src_path src) \<and> fv_exists v"

definition read_all :: "FileEbpfLogSource \<Rightarrow> file_view \<Rightarrow> pystr" where
  "read_all src v =
     (if \<not> has_path (src_path src) then []
      else case fv_content v of
             None \<Rightarrow> []
           | Some content \<Rightarrow> universal_newlines (utf8_replace content))"

definition read_tail :: "FileEbpfLogSource \<Rightarrow> nat \<Rightarrow> file_view \<Rightarrow> pystr" where
  "read_tail src max_bytes v =
     (if \<not> has_path (src_path src) then []
      else case fv_size v of
             None \<Rightarrow> []
           | Some sz \<Rightarrow>
               (case fv_content v of
                  None \<Rightarrow> []
                | Some content \<Rightarrow>
                    utf8_replace (if sz > max_bytes then drop (sz - max_bytes) content
                                  else content)))"

definition NullEbpfLogSource :: FileEbpfLogSource where
  "NullEbpfLogSource = \<lparr>src_path = None\<rparr>"

datatype source_arg = NoSource | PathSource pystr | LogSource FileEbpfLogSource

fun as_log_source :: "source_arg \<Rightarrow> FileEbpfLogSource" where
  "as_log_source NoSource = NullEbpfLogSource"
| "as_log_source (PathSource p) = \<lparr>src_path = Some p\<rparr>"
| "as_log_source (LogSource s) = s"

section \<open>Incremental cursor\<close>

record FileCursor =
  cur_path :: "pystr option"
  cur_offset :: nat

definition open_cursor :: "FileEbpfLogSource \<Rightarrow> FileCursor" where
  "open_cursor src = \<lparr>cur_path = src_path src, cur_offset = 0\<rparr>"

text \<open>\<open>chunk.rfind(b"\n")\<close>\<close>

definition rfind :: "char \<Rightarrow> pybytes \<Rightarrow> nat option" where
  "rfind c s = (let k = length (dropWhile (\<lambda>x. x \<noteq> c) (rev s))
                in if k = 0 then None else Some (k - 1))"

definition read_new_lines :: "file_view \<Rightarrow> FileCursor \<Rightarrow> FileCursor \<times> pystr list" where
  "read_new_lines v c =
     (if \<not> has_path (cur_path c) then (c, [])
      else case fv_size v of
             None \<Rightarrow> (c, [])
           | Some sz \<Rightarrow>
               (let c1 = (if sz < cur_offset c then c\<lparr>cur_offset := 0\<rparr> else c)
                in case fv_content v of
                     None \<Rightarrow> (c1, [])
                   | Some content \<Rightarrow>
                       (let chunk = drop (cur_offset c1) content
                        in case rfind nl chunk of
                             None \<Rightarrow> (c1, [])
                           | Some last_nl \<Rightarrow>
                               (c1\<lparr>cur_offset := cur_offset c1 + last_nl + 1\<rparr>,
                                split_on nl (utf8_replace (take last_nl chunk))))))"

section \<open>Complete lines of a log\<close>

text \<open>
  The specification side: \<open>committed\<close> is the part of a log up to and including its last newline,
  \<open>complete_lines\<close> the decoded lines in it.
\<close>

definition committed :: "pybytes \<Rightarrow> pybytes" where
  "committed s = rev (dropWhile (\<lambda>x. x \<noteq> nl) (rev s))"

definition complete_lines :: "pybytes \<Rightarrow> pystr list" where
  "complete_lines s =
     (if committed s = [] then [] else split_on nl (utf8_replace (butlast (committed s))))"

lemma committed_free: "nl \<notin> set s \<Longrightarrow> committed s = []"
  by (auto simp: committed_def)

lemma committed_split: "nl \<notin> set b \<Longrightarrow> committed (a @ nl # b) = a @ [nl]"
  by (simp add: committed_def dropWhile_append)

lemma last_newline_cases:
  obtains (none) "nl \<notin> set s" "committed s = []"
  | (some) a b where "s = a @ nl # b" "nl \<notin> set b" "committed s = a @ [nl]"
  using split_list_last [of nl s] committed_free committed_split by metis

lemma rfind_none: "nl \<notin> set s \<Longrightarrow> rfind nl s = None"
  by (simp add: rfind_def)

lemma rfind_some: "nl \<notin> set b \<Longrightarrow> rfind nl (a @ nl # b) = Some (length a)"
  by (simp add: rfind_def dropWhile_append)

lemma committed_prefix: "\<exists>r. s = committed s @ r \<and> nl \<notin> set r"
  by (rule last_newline_cases [of s]) auto

lemma committed_append_free: "nl \<notin> set r \<Longrightarrow> committed (s @ r) = committed s"
  by (simp add: committed_def dropWhile_append)

lemma committed_idem [simp]: "committed (committed s) = committed s"
  by (rule last_newline_cases [of s]) (auto simp: committed_free committed_split)

lemma complete_lines_free: "nl \<notin> set s \<Longrightarrow> complete_lines s = []"
  by (simp add: complete_lines_def committed_free)

lemma complete_lines_committed [simp]: "complete_lines (committed s) = complete_lines s"
  by (simp add: complete_lines_def)

lemma complete_lines_snoc: "complete_lines (a @ [nl]) = split_on nl (utf8_replace a)"
  using committed_split [of "[]" a] by (simp add: complete_lines_def)

text \<open>Cutting a log at a newline cuts its lines: nothing is lost, duplicated or torn.\<close>

lemma complete_lines_append:
  assumes "s = [] \<or> last s = nl"
  shows "complete_lines (s @ t) = complete_lines s @ complete_lines t"
proof (cases "s = []")
  case True
  then show ?thesis by (simp add: complete_lines_free)
next
  case False
  with assms obtain p where s: "s = p @ [nl]"
    by (metis append_butlast_last_id)
  show ?thesis
  proof (rule last_newline_cases [of t])
    assume "nl \<notin> set t" "committed t = []"
    then show ?thesis
      using committed_append_free [of t s] by (simp add: complete_lines_def)
  next
    fix a b assume t: "t = a @ nl # b" "nl \<notin> set b" "committed t = a @ [nl]"
    have "committed (s @ t) = (p @ nl # a) @ [nl]"
      using committed_split [OF t(2), of "s @ a"] s t(1) by simp
    then have "complete_lines (s @ t) = split_on nl (utf8_replace (p @ nl # a))"
      by (simp add: complete_lines_def butlast_append)
    also have "\<dots> = split_on nl (utf8_replace p) @ split_on nl (utf8_replace a)"
      by (simp add: utf8_replace_ascii split_on_append)
    finally show ?thesis
      using t(3) by (simp add: s complete_lines_snoc complete_lines_def [of t])
  qed
qed

lemma committed_last: "committed s = [] \<or> last (committed s) = nl"
  by (rule last_newline_cases [of s]) auto

section \<open>The cursor contract\<close>

text \<open>
  \<open>grown old v\<close>: the file answers a size and a content, and since \<open>old\<close> was seen it has only been
  appended to (the size was taken first, so the content may have grown beyond it).
\<close>

definition grown :: "pybytes \<Rightarrow> file_view \<Rightarrow> bool" where
  "grown old v \<longleftrightarrow>
     (case (fv_size v, fv_content v) of
        (Some sz, Some new) \<Rightarrow> prefix old new \<and> length old \<le> sz \<and> sz \<le> length new
      | _ \<Rightarrow> False)"

text \<open>A sequence of calls on a file that is only appended to.\<close>

fun append_only :: "pybytes \<Rightarrow> file_view list \<Rightarrow> bool" where
  "append_only old [] = True"
| "append_only old (v # vs) = (grown old v \<and> append_only (the (fv_content v)) vs)"

text \<open>
  The port \<open>EbpfLogCursor\<close>: \<open>consumed c s\<close> says that the cursor has handed out exactly the complete
  lines of \<open>s\<close>.  A call on a grown file hands out the lines completed since, and a call whose file
  access fails hands out nothing and forgets nothing.
\<close>

locale log_cursor =
  fixes start :: 'c
    and read_lines :: "file_view \<Rightarrow> 'c \<Rightarrow> 'c \<times> pystr list"
    and consumed :: "'c \<Rightarrow> pybytes \<Rightarrow> bool"
  assumes consumed_start: "consumed start []"
    and read_grown: "\<lbrakk>consumed c old; grown old v; read_lines v c = (c', ls)\<rbrakk> \<Longrightarrow>
        consumed c' (the (fv_content v)) \<and>
        complete_lines (the (fv_content v)) = complete_lines old @ ls"
    and read_failed: "\<lbrakk>fv_size v = None; read_lines v c = (c', ls)\<rbrakk> \<Longrightarrow> c' = c \<and> ls = []"
begin

fun read_run :: "file_view list \<Rightarrow> 'c \<Rightarrow> 'c \<times> pystr list list" where
  "read_run [] c = (c, [])"
| "read_run (v # vs) c =
     (let (c1, ls) = read_lines v c; (c2, lss) = read_run vs c1 in (c2, ls # lss))"

lemma read_run_exact:
  "\<lbrakk>consumed c old; append_only old vs; read_run vs c = (c', lss)\<rbrakk> \<Longrightarrow>
   complete_lines (last (old # map (the \<circ> fv_content) vs)) = complete_lines old @ concat lss \<and>
   consumed c' (last (old # map (the \<circ> fv_content) vs))"
proof (induction vs arbitrary: c old c' lss)
  case Nil
  then show ?case by simp
next
  case (Cons v vs)
  obtain c1 ls where r: "read_lines v c = (c1, ls)" by fastforce
  obtain c2 lss' where rs: "read_run vs c1 = (c2, lss')" by fastforce
  from Cons.prems(3) r rs have res: "c' = c2" "lss = ls # lss'" by auto
  from Cons.prems have g: "grown old v" "append_only (the (fv_content v)) vs" by auto
  from read_grown [OF Cons.prems(1) g(1) r]
  have step: "consumed c1 (the (fv_content v))"
    "complete_lines (the (fv_content v)) = complete_lines old @ ls" by auto
  from Cons.IH [OF step(1) g(2) rs] step(2) res show ?case by simp
qed

text \<open>From a fresh cursor: the lines of all calls together are the complete lines of the log.\<close>

lemma read_run_from_start:
  "\<lbrakk>append_only [] vs; read_run vs start = (c', lss); vs \<noteq> []\<rbrakk> \<Longrightarrow>
   concat lss = complete_lines (the (fv_content (last vs)))"
  using read_run_exact [OF consumed_start, of vs c' lss]
  by (simp add: last_map complete_lines_free)

end

section \<open>The file cursor meets the contract\<close>

definition cursor_consumed :: "FileCursor \<Rightarrow> pybytes \<Rightarrow> bool" where
  "cursor_consumed c s \<longleftrightarrow> has_path (cur_path c) \<and> cur_offset c = length (committed s)"

lemma committed_length: "length (committed s) \<le> length s"
  using committed_prefix [of s] by (metis length_append le_add1)

text \<open>Reading from the committed offset of \<open>old\<close>, when the file has become \<open>old @ ext\<close>.\<close>

lemma read_new_lines_ext:
  assumes path: "has_path (cur_path c)"
    and view: "fv_size v = Some sz" "fv_content v = Some (old @ ext)"
    and off: "cur_offset c = length (committed old)" "length (committed old) \<le> sz"
  shows "read_new_lines v c =
    (c\<lparr>cur_offset := length (committed (old @ ext))\<rparr>,
     complete_lines (drop (length (committed old)) (old @ ext)))"
proof -
  obtain r where r: "old = committed old @ r" "nl \<notin> set r"
    using committed_prefix by blast
  define chunk where "chunk = r @ ext"
  have new: "old @ ext = committed old @ chunk"
    using r(1) by (simp add: chunk_def)
  then have chunk: "drop (length (committed old)) (old @ ext) = chunk" by simp
  have comm: "committed (old @ ext) = committed old @ committed chunk"
  proof (rule last_newline_cases [of chunk])
    assume "nl \<notin> set chunk" "committed chunk = []"
    then show ?thesis unfolding new by (simp add: committed_append_free)
  next
    fix a b assume "chunk = a @ nl # b" "nl \<notin> set b" "committed chunk = a @ [nl]"
    then show ?thesis
      unfolding new using committed_split [of b "committed old @ a"] by simp
  qed
  have "read_new_lines v c =
    (case rfind nl chunk of
       None \<Rightarrow> (c, [])
     | Some k \<Rightarrow> (c\<lparr>cur_offset := length (committed old) + k + 1\<rparr>,
                  split_on nl (utf8_replace (take k chunk))))"
    using path view(1) view(2)[unfolded new] off
    by (simp add: read_new_lines_def Let_def cong: option.case_cong)
  moreover have "c\<lparr>cur_offset := length (committed old)\<rparr> = c"
    using off(1) by simp
  ultimately show ?thesis
    unfolding chunk comm
    by (rule_tac last_newline_cases [of chunk])
      (auto simp: rfind_none rfind_some complete_lines_free complete_lines_def)
qed

lemma read_new_lines_grown:
  assumes "cursor_consumed c old" "grown old v" "read_new_lines v c = (c', ls)"
  shows "cursor_consumed c' (the (fv_content v)) \<and>
    complete_lines (the (fv_content v)) = complete_lines old @ ls"
proof -
  from assms(2) obtain sz ext where view:
    "fv_size v = Some sz" "fv_content v = Some (old @ ext)" "length old \<le> sz"
    by (auto simp: grown_def prefix_def split: option.splits)
  from assms(1) have c: "has_path (cur_path c)" "cur_offset c = length (committed old)"
    by (auto simp: cursor_consumed_def)
  have "length (committed old) \<le> sz"
    using committed_length [of old] view(3) by simp
  from read_new_lines_ext [OF c(1) view(1,2) c(2) this] assms(3)
  have res: "c' = c\<lparr>cur_offset := length (committed (old @ ext))\<rparr>"
    "ls = complete_lines (drop (length (committed old)) (old @ ext))" by auto
  obtain r where r: "old = committed old @ r"
    using committed_prefix by blast
  then have "old @ ext = committed old @ (r @ ext)" by simp
  then have "complete_lines (old @ ext) = complete_lines (committed old) @ ls"
    using complete_lines_append [OF committed_last [of old], of "r @ ext"] res(2)
    by (metis append_eq_conv_conj)
  with res(1) c(1) view(2) show ?thesis
    by (simp add: cursor_consumed_def)
qed

interpretation file_cursor: log_cursor
  "\<lparr>cur_path = Some (p # path), cur_offset = 0\<rparr>" read_new_lines cursor_consumed
proof (unfold_locales, goal_cases)
  case 1
  show ?case by (simp add: cursor_consumed_def has_path_def committed_free)
next
  case (2 c old v c' ls)
  then show ?case by (rule read_new_lines_grown)
next
  case (3 v c c' ls)
  then show ?case by (auto simp: read_new_lines_def split: if_splits)
qed

section \<open>Properties of the cursor\<close>

text \<open>Successive calls of \<open>read_new_lines\<close> on one cursor.\<close>

fun poll_cursor :: "file_view list \<Rightarrow> FileCursor \<Rightarrow> FileCursor \<times> pystr list list" where
  "poll_cursor [] c = (c, [])"
| "poll_cursor (v # vs) c =
     (let (c1, ls) = read_new_lines v c; (c2, lss) = poll_cursor vs c1 in (c2, ls # lss))"

lemma poll_cursor_run: "poll_cursor vs c = file_cursor.read_run vs c"
  by (induction vs arbitrary: c) (simp_all split: prod.split)

lemma has_path_cases: "has_path p \<Longrightarrow> (\<And>x xs. p = Some (x # xs) \<Longrightarrow> P) \<Longrightarrow> P"
  by (cases "the p") (auto simp: has_path_def split: option.splits)

lemma poll_cursor_complete:
  assumes "has_path (src_path src)" and "append_only [] vs" and "vs \<noteq> []"
  shows "concat (snd (poll_cursor vs (open_cursor src))) =
    complete_lines (the (fv_content (last vs)))"
proof -
  obtain p ps where "src_path src = Some (p # ps)"
    using has_path_cases [OF assms(1)] by blast
  then have "open_cursor src = \<lparr>cur_path = Some (p # ps), cur_offset = 0\<rparr>"
    by (simp add: open_cursor_def)
  with assms show ?thesis
    using file_cursor.read_run_from_start [of vs p ps]
    by (cases "file_cursor.read_run vs (open_cursor src)") (simp add: poll_cursor_run)
qed

text \<open>
  C1: exactly-once delivery.  However the collector's appends and the calls interleave, the lines
  handed out by all calls of a fresh cursor, in order, are exactly the complete lines of the log as
  the last call saw it: no line is lost, handed out twice or torn, and an unfinished last line is
  held back.
\<close>

theorem cursor_exactly_once:
  assumes "has_path (src_path src)" and "append_only [] vs" and "vs \<noteq> []"
  shows "concat (snd (poll_cursor vs (open_cursor src))) =
    complete_lines (the (fv_content (last vs)))"
  by (rule poll_cursor_complete [OF assms])

definition view_of :: "pybytes \<Rightarrow> file_view" where
  "view_of s = \<lparr>fv_exists = True, fv_size = Some (length s), fv_content = Some s\<rparr>"

lemma read_tail_view_of:
  "\<lbrakk>has_path (src_path src); \<forall>c \<in> set s. code c < 0x80; length s \<le> n\<rbrakk> \<Longrightarrow>
   read_tail src n (view_of s) = s"
  by (simp add: read_tail_def view_of_def utf8_replace_ascii_id)

theorem cursor_exactly_once_witness:
  "concat (snd (poll_cursor [view_of (''a'' @ [nl] @ ''b''), view_of (''a'' @ [nl] @ ''bc'' @ [nl])]
      (open_cursor \<lparr>src_path = Some ''log''\<rparr>))) = [''a'', ''bc'']"
proof -
  let ?v1 = "view_of (''a'' @ [nl] @ ''b'')" and ?v2 = "view_of (''a'' @ [nl] @ ''bc'' @ [nl])"
  let ?src = "\<lparr>src_path = Some ''log''\<rparr>"
  have "concat (snd (poll_cursor [?v1, ?v2] (open_cursor ?src))) =
      complete_lines (the (fv_content (last [?v1, ?v2])))"
    by (rule cursor_exactly_once [of ?src "[?v1, ?v2]"])
      (auto simp: has_path_def grown_def view_of_def)
  also have "\<dots> = [''a'', ''bc'']" by code_simp
  finally show ?thesis .
qed

text \<open>
  Log rotation.  When the file has become shorter than the cursor's offset, the call starts again
  at the beginning and hands out every complete line of the new file, and the cursor then stands
  behind them.
\<close>

theorem cursor_rotation_restarts:
  assumes "has_path (cur_path c)" and "fv_size v = Some sz" and "sz < cur_offset c"
    and "fv_content v = Some content"
  shows "read_new_lines v c =
    (c\<lparr>cur_offset := length (committed content)\<rparr>, complete_lines content)"
proof -
  let ?c0 = "c\<lparr>cur_offset := 0\<rparr>"
  have "read_new_lines v c = read_new_lines v ?c0"
    using assms by (simp add: read_new_lines_def)
  also have "\<dots> = (?c0\<lparr>cur_offset := length (committed ([] @ content))\<rparr>,
      complete_lines (drop (length (committed [])) ([] @ content)))"
    by (rule read_new_lines_ext [of ?c0 v sz "[]"])
      (use assms in \<open>simp_all add: committed_free\<close>)
  finally show ?thesis by (simp add: committed_free)
qed

theorem cursor_rotation_restarts_witness:
  "snd (read_new_lines (view_of (''x'' @ [nl])) \<lparr>cur_path = Some ''log'', cur_offset = 9\<rparr>) = [''x'']"
proof -
  have "read_new_lines (view_of (''x'' @ [nl])) \<lparr>cur_path = Some ''log'', cur_offset = 9\<rparr> =
    (\<lparr>cur_path = Some ''log'', cur_offset = 9\<rparr>
       \<lparr>cur_offset := length (committed (''x'' @ [nl]))\<rparr>, complete_lines (''x'' @ [nl]))"
    by (rule cursor_rotation_restarts [where sz = 2]) (simp_all add: has_path_def view_of_def)
  moreover have "complete_lines (''x'' @ [nl]) = [''x'']" by code_simp
  ultimately show ?thesis by simp
qed

text \<open>An unset or empty path makes every read empty.\<close>

lemma null_source_empty:
  "\<not> available NullEbpfLogSource v" "read_all NullEbpfLogSource v = []"
  "read_tail NullEbpfLogSource n v = []"
  "read_new_lines v (open_cursor NullEbpfLogSource) = (open_cursor NullEbpfLogSource, [])"
  by (simp_all add: NullEbpfLogSource_def available_def read_all_def read_tail_def
      read_new_lines_def open_cursor_def has_path_def)

end
