(* ===== verification/EbpfPerf.thy ===== *)
theory EbpfPerf
  imports EbpfLog
begin

text \<open>
  \<open>backend/ebpf_perf.py\<close> and the performance service (\<open>services/perf/\<close>): the collector's map dumps
  of one tick are parsed into counters and latency histograms per \<open>(ctrl, qid)\<close>, and turned into
  rates, an average and percentiles per queue, with an aggregate row for the device.

  A histogram boundary such as \<open>1.5K\<close> goes through \<open>float\<close>; text of digits and dots that is not
  a number raises \<open>ValueError\<close>, which nothing on the way to the caller catches.
\<close>

section \<open>Parsing\<close>

definition SCALAR_RE :: "tok list" where
  "SCALAR_RE =
     [Lit ''@'', Name, Lit ''['', SDec, Lit '','', Ws0, SDec, Lit '']:'', Ws0, Dec, Ws0]"

definition HIST_KEY_RE :: "tok list" where
  "HIST_KEY_RE = [Lit ''@'', Name, Lit ''['', SDec, Lit '','', Ws0, SDec, Lit '']:'', Ws0]"

definition HIST_BUCKET_RE :: "tok list" where
  "HIST_BUCKET_RE =
     [Lit ''['', Bound, Lit '', '', Bound, Lit '')'', Ws1, Dec, Ws1, Lit ''|'']"

definition TICK_INTERVAL_SEC :: pyfloat where
  "TICK_INTERVAL_SEC = 1"

definition SIZE_MULT :: "(char, int) dict" where
  "SIZE_MULT = [(CHR ''K'', 1024), (CHR ''M'', 1024 * 1024), (CHR ''G'', 1024 * 1024 * 1024)]"

type_synonym bucket = "int \<times> int \<times> int"
type_synonym queue_key = "int \<times> int"
type_synonym counters = "(pystr, int) dict"
type_synonym tick_data = "(queue_key, counters) dict \<times> (queue_key, bucket list) dict"

text \<open>\<open>float(s)\<close> for text of digits and dots.\<close>

definition float_of_str :: "pystr \<Rightarrow> pyfloat option" where
  "float_of_str s =
     (case split_on (CHR ''.'') s of
        [a] \<Rightarrow> if a = [] then None else Some (of_nat (dec_val a))
      | [a, b] \<Rightarrow> if a = [] \<and> b = [] then None
                  else Some (of_nat (dec_val a) + of_nat (dec_val b) / 10 ^ length b)
      | _ \<Rightarrow> None)"

text \<open>\<open>int(x)\<close> drops the fraction.\<close>

definition int_of_float :: "pyfloat \<Rightarrow> int" where
  "int_of_float x = (if 0 \<le> x then \<lfloor>x\<rfloor> else \<lceil>x\<rceil>)"

definition float_or_raise :: "pystr \<Rightarrow> exn + pyfloat" where
  "float_or_raise s = (case float_of_str s of None \<Rightarrow> Inl (ValueError (MsgRaw s)) | Some x \<Rightarrow> Inr x)"

definition parse_bucket_bound :: "pystr \<Rightarrow> exn + int" where
  "parse_bucket_bound s0 =
     (let s = strip s0
      in case (if s = [] then None else map_of SIZE_MULT (last s)) of
           Some m \<Rightarrow> bindE (float_or_raise (butlast s)) (\<lambda>x. Inr (int_of_float (x * of_int m)))
         | None \<Rightarrow> bindE (float_or_raise s) (\<lambda>x. Inr (int_of_float x)))"

text \<open>What the three patterns find in a line.\<close>

definition scalar_of_line :: "pystr \<Rightarrow> (queue_key \<times> pystr \<times> int) option" where
  "scalar_of_line l =
     (case re_full SCALAR_RE (strip l) of
        Some [CStr name, CInt k1, CInt k2, CInt n] \<Rightarrow> Some ((k1, k2), name, n)
      | _ \<Rightarrow> None)"

definition hist_key_of_line :: "pystr \<Rightarrow> queue_key option" where
  "hist_key_of_line l =
     (case re_full HIST_KEY_RE (strip l) of
        Some [CStr name, CInt k1, CInt k2] \<Rightarrow> Some (k1, k2)
      | _ \<Rightarrow> None)"

definition bucket_of_line :: "pystr \<Rightarrow> (pystr \<times> pystr \<times> int) option" where
  "bucket_of_line l =
     (case match_toks HIST_BUCKET_RE (strip l) of
        Some ([CStr a, CStr b, CInt n], _) \<Rightarrow> Some (a, b, n)
      | _ \<Rightarrow> None)"

text \<open>The inner loop: the bucket lines that follow a histogram key, and the lines after them.\<close>

fun take_buckets :: "pystr list \<Rightarrow> exn + bucket list \<times> pystr list" where
  "take_buckets [] = Inr ([], [])"
| "take_buckets (l # ls) =
     (case bucket_of_line l of
        None \<Rightarrow> Inr ([], l # ls)
      | Some (a, b, n) \<Rightarrow>
          bindE (parse_bucket_bound a) (\<lambda>lo.
          bindE (parse_bucket_bound b) (\<lambda>hi.
          bindE (take_buckets ls) (\<lambda>(bs, rest). Inr ((lo, hi, n) # bs, rest)))))"

lemma take_buckets_shorter: "take_buckets ls = Inr (bs, rest) \<Longrightarrow> length rest \<le> length ls"
  by (induction ls arbitrary: bs rest)
    (auto simp: bindE_Inr split: option.splits prod.splits intro: le_SucI)

definition add_scalar ::
  "queue_key \<Rightarrow> pystr \<Rightarrow> int \<Rightarrow> (queue_key, counters) dict \<Rightarrow> (queue_key, counters) dict" where
  "add_scalar k name n scalars = AList.update k (AList.update name n (dict_get scalars k [])) scalars"

definition add_buckets ::
  "queue_key \<Rightarrow> bucket list \<Rightarrow> (queue_key, bucket list) dict \<Rightarrow> (queue_key, bucket list) dict" where
  "add_buckets k bs hists = AList.update k (dict_get hists k [] @ bs) hists"

function parse_segment_lines :: "pystr list \<Rightarrow> tick_data \<Rightarrow> exn + tick_data" where
  "parse_segment_lines [] d = Inr d"
| "parse_segment_lines (l # ls) d =
     (case scalar_of_line l of
        Some (k, name, n) \<Rightarrow> parse_segment_lines ls (add_scalar k name n (fst d), snd d)
      | None \<Rightarrow>
          (case hist_key_of_line l of
             Some k \<Rightarrow>
               (case take_buckets ls of
                  Inl e \<Rightarrow> Inl e
                | Inr (bs, rest) \<Rightarrow> parse_segment_lines rest (fst d, add_buckets k bs (snd d)))
           | None \<Rightarrow> parse_segment_lines ls d))"
  by pat_completeness auto
termination
  by (relation "measure (length \<circ> fst)") (auto dest!: take_buckets_shorter)

definition parse_segment :: "pystr \<Rightarrow> exn + tick_data" where
  "parse_segment segment = parse_segment_lines (splitlines segment) ([], [])"

definition TICK :: pystr where
  "TICK = ''---TICK---''"

definition parse_last_complete_tick :: "pystr \<Rightarrow> exn + tick_data" where
  "parse_last_complete_tick txt =
     (let parts = split_str TICK txt
      in if length parts < 2 then Inr ([], []) else parse_segment (parts ! (length parts - 2)))"

section \<open>Statistics\<close>

definition merge_buckets :: "bucket list list \<Rightarrow> bucket list" where
  "merge_buckets bucket_lists =
     map (\<lambda>((lo, hi), n). (lo, hi, n))
       (fold (\<lambda>(lo, hi, n) m. AList.update (lo, hi) (dict_get m (lo, hi) 0 + n) m)
         (concat bucket_lists) [])"

text \<open>The loop of \<open>_percentile_ns\<close>: the upper bound of the bucket that first reaches the target.\<close>

fun first_reaching :: "pyfloat \<Rightarrow> int \<Rightarrow> bucket list \<Rightarrow> int option" where
  "first_reaching target cum [] = None"
| "first_reaching target cum ((lo, hi, n) # bs) =
     (if target \<le> of_int (cum + n) then Some hi else first_reaching target (cum + n) bs)"

definition percentile_ns :: "bucket list \<Rightarrow> pyfloat \<Rightarrow> pyfloat" where
  "percentile_ns buckets p =
     (let total = (\<Sum>(lo, hi, n)\<leftarrow>buckets. n); sorted_buckets = sort_key fst buckets
      in if total = 0 then 0
         else case first_reaching (p * of_int total) 0 sorted_buckets of
                Some hi \<Rightarrow> of_int hi
              | None \<Rightarrow> of_int (fst (snd (last sorted_buckets))))"

definition build_queue_perf :: "int \<Rightarrow> counters \<Rightarrow> bucket list \<Rightarrow> QueuePerf" where
  "build_queue_perf qid counters buckets =
     (let op_count = dict_get counters ''op_count'' 0;
          read_count = dict_get counters ''read_count'' 0;
          write_count = dict_get counters ''write_count'' 0;
          bytes_sum = dict_get counters ''bytes_sum'' 0;
          lat_sum = dict_get counters ''lat_sum'' 0;
          lat_count = dict_get counters ''lat_count'' 0
      in \<lparr>qp_qid = qid,
          qp_iops = of_int op_count / TICK_INTERVAL_SEC,
          qp_read_iops = of_int read_count / TICK_INTERVAL_SEC,
          qp_write_iops = of_int write_count / TICK_INTERVAL_SEC,
          qp_bandwidth_bytes_per_sec = of_int bytes_sum / TICK_INTERVAL_SEC,
          qp_avg_latency_us =
            (if lat_count \<noteq> 0 then of_int lat_sum / of_int lat_count / 1000 else 0),
          qp_p50_latency_us = percentile_ns buckets (50 / 100) / 1000,
          qp_p95_latency_us = percentile_ns buckets (95 / 100) / 1000,
          qp_p99_latency_us = percentile_ns buckets (99 / 100) / 1000,
          qp_p999_latency_us = percentile_ns buckets (999 / 1000) / 1000\<rparr>)"

definition add_counters :: "counters \<Rightarrow> counters \<Rightarrow> counters" where
  "add_counters counters acc = fold (\<lambda>(k, n) m. AList.update k (dict_get m k 0 + n) m) counters acc"

section \<open>Reading a device\<close>

text \<open>The rows of one tick for a controller, in the order of \<open>sorted(scalars.items())\<close>.\<close>

definition device_rows :: "tick_data \<Rightarrow> int \<Rightarrow> (int \<times> counters \<times> bucket list) list" where
  "device_rows d inst =
     map (\<lambda>((ctrl, qid), counters). (qid, counters, dict_get (snd d) (ctrl, qid) []))
       (filter (\<lambda>((ctrl, qid), counters). ctrl = inst) (sort_key fst (fst d)))"

definition tick_performance :: "tick_data \<Rightarrow> int \<Rightarrow> QueuePerf list \<times> QueuePerf option" where
  "tick_performance d inst =
     (let rows = device_rows d inst;
          queues = map (\<lambda>(qid, counters, buckets). build_queue_perf qid counters buckets) rows;
          dev_counters = fold (\<lambda>(qid, counters, buckets). add_counters counters) rows [];
          dev_buckets = map (\<lambda>(qid, counters, buckets). buckets) rows
      in if queues = [] then ([], None)
         else (queues, Some (build_queue_perf (-1) dev_counters (merge_buckets dev_buckets))))"

definition read_latest_performance ::
  "source_arg \<Rightarrow> file_view \<Rightarrow> int \<Rightarrow> exn + QueuePerf list \<times> QueuePerf option" where
  "read_latest_performance log_path v inst =
     (let source = as_log_source log_path
      in if \<not> available source v then Inr ([], None)
         else bindE (parse_last_complete_tick (read_all source v))
                (\<lambda>d. Inr (tick_performance d inst)))"

definition device_instance_from_name :: "pystr \<Rightarrow> exn + int" where
  "device_instance_from_name device =
     (case re_dollar [Lit ''nvme'', Dec] device of
        Some [CInt n] \<Rightarrow> Inr n
      | _ \<Rightarrow> Inl (ValueError (MsgBadDeviceName device)))"

definition unavailable_perf :: "pystr \<Rightarrow> message \<Rightarrow> DevicePerf" where
  "unavailable_perf device m =
     \<lparr>dp_device = device, dp_queues = [], dp_available = False, dp_error = Some m,
      dp_aggregate = None\<rparr>"

definition read_device_performance :: "source_arg \<Rightarrow> file_view \<Rightarrow> pystr \<Rightarrow> exn + DevicePerf" where
  "read_device_performance log_path v device =
     (case device_instance_from_name device of
        Inl _ \<Rightarrow> Inr (unavailable_perf device (MsgBadDeviceName device))
      | Inr inst \<Rightarrow>
          bindE (read_latest_performance log_path v inst) (\<lambda>(queues, aggregate).
            if queues = [] then Inr (unavailable_perf device MsgNoCollectorData)
            else Inr \<lparr>dp_device = device, dp_queues = queues, dp_available = True,
                      dp_error = None, dp_aggregate = aggregate\<rparr>))"

section \<open>The performance service\<close>

text \<open>\<open>EbpfPerfService\<close> holds nothing but its log source.  The two views are those of its own
  availability test and of the reader.\<close>

definition get_performance ::
  "FileEbpfLogSource \<Rightarrow> file_view \<Rightarrow> file_view \<Rightarrow> pystr \<Rightarrow> exn + DevicePerf" where
  "get_performance src v v' device =
     (if \<not> available src v then Inr (unavailable_perf device MsgNoCollectorLog)
      else read_device_performance (LogSource src) v' device)"

section \<open>The mock service\<close>

definition mock_queue_perf :: "int \<Rightarrow> int \<Rightarrow> QueuePerf" where
  "mock_queue_perf t idx =
     (let phase = t + idx * 11;
          read_iops = of_int (500 + (phase * 37) mod 3000);
          write_iops = of_int (300 + (phase * 23) mod 2000);
          avg_seg = 4096 + (phase mod 4) * 12288;
          lat = of_int (80 + (phase * 7) mod 900)
      in \<lparr>qp_qid = idx, qp_iops = read_iops + write_iops, qp_read_iops = read_iops,
          qp_write_iops = write_iops,
          qp_bandwidth_bytes_per_sec = (read_iops + write_iops) * of_int avg_seg,
          qp_avg_latency_us = lat, qp_p50_latency_us = lat * (85 / 100),
          qp_p95_latency_us = lat * 2, qp_p99_latency_us = lat * 4, qp_p999_latency_us = lat * 8\<rparr>)"

definition mean_of :: "('a \<Rightarrow> pyfloat) \<Rightarrow> 'a list \<Rightarrow> pyfloat" where
  "mean_of f xs = (\<Sum>x\<leftarrow>xs. f x) / of_nat (length xs)"

definition mock_get_performance :: "(pystr \<Rightarrow> int) \<Rightarrow> int \<Rightarrow> pystr \<Rightarrow> DevicePerf" where
  "mock_get_performance queues_of t device =
     (let queues = map (mock_queue_perf t) [1..queues_of device - 1]
      in \<lparr>dp_device = device, dp_queues = queues, dp_available = True, dp_error = None,
          dp_aggregate =
            (if queues = [] then None
             else Some \<lparr>qp_qid = -1, qp_iops = (\<Sum>q\<leftarrow>queues. qp_iops q),
                        qp_read_iops = (\<Sum>q\<leftarrow>queues. qp_read_iops q),
                        qp_write_iops = (\<Sum>q\<leftarrow>queues. qp_write_iops q),
                        qp_bandwidth_bytes_per_sec = (\<Sum>q\<leftarrow>queues. qp_bandwidth_bytes_per_sec q),
                        qp_avg_latency_us = mean_of qp_avg_latency_us queues,
                        qp_p50_latency_us = mean_of qp_p50_latency_us queues,
                        qp_p95_latency_us = mean_of qp_p95_latency_us queues,
                        qp_p99_latency_us = mean_of qp_p99_latency_us queues,
                        qp_p999_latency_us = mean_of qp_p999_latency_us queues\<rparr>)\<rparr>)"

section \<open>Percentiles\<close>

text \<open>
  The specification: \<open>covered bs x\<close> counts the samples in buckets that end at or below \<open>x\<close>.  A
  histogram is well formed when its counts are not negative and its buckets are ordered the same way
  by either end, as the power-of-two buckets of bpftrace are; the same bucket may occur repeatedly.
\<close>

definition samples :: "bucket list \<Rightarrow> int" where
  "samples bs = (\<Sum>(lo, hi, n)\<leftarrow>bs. n)"

definition covered :: "bucket list \<Rightarrow> int \<Rightarrow> int" where
  "covered bs x = samples (filter (\<lambda>(lo, hi, n). hi \<le> x) bs)"

definition hist_ok :: "bucket list \<Rightarrow> bool" where
  "hist_ok bs \<longleftrightarrow> (\<forall>(lo, hi, n) \<in> set bs. 0 \<le> n \<and>
     (\<forall>(lo', hi', n') \<in> set bs. lo < lo' \<longleftrightarrow> hi < hi'))"

definition least_covering :: "bucket list \<Rightarrow> pyfloat \<Rightarrow> int \<Rightarrow> bool" where
  "least_covering bs target r \<longleftrightarrow>
     (\<exists>lo n. (lo, r, n) \<in> set bs) \<and> target \<le> of_int (covered bs r) \<and>
     (\<forall>(lo, hi, n) \<in> set bs. hi < r \<longrightarrow> of_int (covered bs hi) < target)"

lemma hist_okD:
  "\<lbrakk>hist_ok bs; (lo, hi, n) \<in> set bs; (lo', hi', n') \<in> set bs\<rbrakk> \<Longrightarrow>
   0 \<le> n \<and> (lo < lo' \<longleftrightarrow> hi < hi')"
  unfolding hist_ok_def by blast

lemma samples_simps [simp]:
  "samples [] = 0" "samples ((lo, hi, n) # bs) = n + samples bs"
  "samples (xs @ ys) = samples xs + samples ys"
  by (simp_all add: samples_def)

lemma samples_sort [simp]: "samples (sort_key k bs) = samples bs"
proof -
  have "mset (map (\<lambda>(lo, hi, n). n) (sort_key k bs)) = mset (map (\<lambda>(lo, hi, n). n) bs)" by simp
  then show ?thesis unfolding samples_def by (metis sum_mset_sum_list)
qed

lemma covered_sort [simp]: "covered (sort_key k bs) x = covered bs x"
proof -
  have "mset (map (\<lambda>(lo, hi, n). n) (filter (\<lambda>(lo, hi, n). hi \<le> x) (sort_key k bs))) =
      mset (map (\<lambda>(lo, hi, n). n) (filter (\<lambda>(lo, hi, n). hi \<le> x) bs))" by simp
  then show ?thesis unfolding covered_def samples_def by (metis sum_mset_sum_list)
qed

lemma samples_nonneg: "\<forall>(lo, hi, n) \<in> set bs. 0 \<le> n \<Longrightarrow> 0 \<le> samples bs"
  by (induction bs) auto

lemma covered_append [simp]: "covered (xs @ ys) x = covered xs x + covered ys x"
  by (simp add: covered_def)

lemma covered_Cons [simp]:
  "covered ((lo, hi, n) # bs) x = (if hi \<le> x then n else 0) + covered bs x"
  by (simp add: covered_def)

lemma covered_all: "\<forall>(lo, hi, n) \<in> set bs. hi \<le> x \<Longrightarrow> covered bs x = samples bs"
  by (induction bs) (auto simp: covered_def)

lemma covered_none: "\<forall>(lo, hi, n) \<in> set bs. x < hi \<Longrightarrow> covered bs x = 0"
  by (induction bs) (auto simp: covered_def)

lemma covered_le: "\<forall>(lo, hi, n) \<in> set bs. 0 \<le> n \<Longrightarrow> 0 \<le> covered bs x \<and> covered bs x \<le> samples bs"
  by (induction bs) (auto simp: covered_def)

lemma first_reaching_Some:
  "first_reaching target cum bs = Some r \<Longrightarrow>
   \<exists>pre lo n post. bs = pre @ (lo, r, n) # post \<and> target \<le> of_int (cum + samples pre + n) \<and>
     (pre = [] \<or> of_int (cum + samples pre) < target)"
proof (induction target cum bs rule: first_reaching.induct)
  case (2 target cum lo hi n bs)
  show ?case
  proof (cases "target \<le> of_int (cum + n)")
    case True
    with 2(2) have "(lo, hi, n) # bs = [] @ (lo, r, n) # bs \<and> target \<le> of_int (cum + samples [] + n)"
      by simp
    then show ?thesis by blast
  next
    case False
    with 2 obtain pre lo' n' post where p: "bs = pre @ (lo', r, n') # post"
      "target \<le> of_int (cum + n + samples pre + n')"
      "pre = [] \<or> of_int (cum + n + samples pre) < target" by auto
    with False have "(lo, hi, n) # bs = ((lo, hi, n) # pre) @ (lo', r, n') # post \<and>
      target \<le> of_int (cum + samples ((lo, hi, n) # pre) + n') \<and>
      of_int (cum + samples ((lo, hi, n) # pre)) < target" by (auto simp: add.assoc)
    then show ?thesis by blast
  qed
qed simp

lemma first_reaching_total:
  "bs \<noteq> [] \<Longrightarrow> target \<le> of_int (cum + samples bs) \<Longrightarrow> \<exists>r. first_reaching target cum bs = Some r"
proof (induction target cum bs rule: first_reaching.induct)
  case (2 target cum lo hi n bs)
  then show ?case by (cases "bs = []") (auto simp: add.assoc)
qed simp

lemma first_reaching_least:
  assumes ok: "hist_ok bs" and sorted: "sorted (map fst bs)"
    and r: "first_reaching target 0 bs = Some r"
  shows "least_covering bs target r"
proof -
  from first_reaching_Some [OF r] obtain pre lo n post where
    split: "bs = pre @ (lo, r, n) # post" and reach: "target \<le> of_int (samples pre + n)"
    and before: "pre = [] \<or> of_int (samples pre) < target" by auto
  from sorted split have ord: "\<forall>(a, h, m) \<in> set pre. a \<le> lo" "\<forall>(a, h, m) \<in> set post. lo \<le> a"
    by (auto simp: sorted_append)
  have mem: "(lo, r, n) \<in> set bs" "set pre \<subseteq> set bs" "set post \<subseteq> set bs"
    using split by auto
  have cmp: "0 \<le> m \<and> (a < lo \<longleftrightarrow> h < r) \<and> (lo < a \<longleftrightarrow> r < h)" if "(a, h, m) \<in> set bs" for a h m
    using hist_okD [OF ok that mem(1)] hist_okD [OF ok mem(1) that] by blast
  have nonneg: "\<forall>(a, h, m) \<in> set pre. 0 \<le> m" "\<forall>(a, h, m) \<in> set post. 0 \<le> m"
    using cmp mem(2,3) by blast+
  have below: "\<forall>(a, h, m) \<in> set pre. h \<le> r" and above: "\<forall>(a, h, m) \<in> set post. r \<le> h"
  proof -
    show "\<forall>(a, h, m) \<in> set pre. h \<le> r"
    proof clarify
      fix a h m assume b: "(a, h, m) \<in> set pre"
      with ord(1) have "a \<le> lo" by auto
      with cmp [of a h m] b mem(2) show "h \<le> r" by (meson not_le subsetD)
    qed
    show "\<forall>(a, h, m) \<in> set post. r \<le> h"
    proof clarify
      fix a h m assume b: "(a, h, m) \<in> set post"
      with ord(2) have "lo \<le> a" by auto
      with cmp [of a h m] b mem(3) show "r \<le> h" by (meson not_le subsetD)
    qed
  qed
  have "samples pre + n \<le> covered bs r"
    using covered_all [OF below] covered_le [OF nonneg(2), of r] by (simp add: split)
  with reach have cov: "target \<le> of_int (covered bs r)"
    by (meson of_int_le_iff order_trans)
  have "of_int (covered bs h) < target" if b: "(a, h, m) \<in> set bs" "h < r" for a h m
  proof -
    from above b(2) have none: "\<forall>(a, h', m) \<in> set post. h < h'" by fastforce
    from b above split have "pre \<noteq> []" by (fastforce simp: not_less)
    have "covered bs h \<le> samples pre"
      using covered_none [OF none] covered_le [OF nonneg(1), of h] b(2) by (simp add: split)
    moreover from \<open>pre \<noteq> []\<close> before have "of_int (samples pre) < target" by simp
    ultimately show ?thesis by (meson of_int_le_iff le_less_trans)
  qed
  with cov split show ?thesis unfolding least_covering_def by fastforce
qed

lemma hist_ok_set: "set bs = set bs' \<Longrightarrow> hist_ok bs = hist_ok bs'"
  by (simp add: hist_ok_def)

lemma least_covering_sort: "least_covering (sort_key k bs) = least_covering bs"
  by (simp add: least_covering_def fun_eq_iff)

lemma percentile_exists:
  assumes "hist_ok bs" "0 < samples bs" "p \<le> 1"
  shows "\<exists>r. percentile_ns bs p = of_int r \<and> least_covering bs (p * of_int (samples bs)) r"
proof -
  let ?sb = "sort_key fst bs" and ?t = "p * of_int (samples bs)"
  from assms(2) have "bs \<noteq> []" by (auto simp: samples_def)
  then have "?sb \<noteq> []" by (metis length_0_conv length_sort)
  moreover from assms(2,3) have "?t \<le> of_int (0 + samples ?sb)" by (simp add: mult_le_cancel_right1)
  ultimately obtain r where r: "first_reaching ?t 0 ?sb = Some r"
    using first_reaching_total by blast
  from assms(1) have "hist_ok ?sb" by (simp add: hist_ok_set [of ?sb bs])
  from first_reaching_least [OF this _ r] have "least_covering bs ?t r"
    by (simp add: least_covering_sort)
  moreover from r assms(2) have "percentile_ns bs p = of_int r"
    by (simp add: percentile_ns_def samples_def [symmetric])
  ultimately show ?thesis by blast
qed

lemma least_covering_mono:
  assumes "least_covering bs t r" "least_covering bs t' r'" "t \<le> t'"
  shows "r \<le> r'"
proof (rule ccontr)
  assume "\<not> r \<le> r'"
  with assms(1,2) have "of_int (covered bs r') < t" unfolding least_covering_def by fastforce
  with assms(2,3) show False unfolding least_covering_def by fastforce
qed

text \<open>
  Percentiles.  For a well-formed histogram with samples and a fraction of at most one, the loop
  returns a bucket boundary below which at least that fraction of all samples lies, and the least
  such boundary: at every smaller one the fraction is missed.
\<close>

theorem percentile_least:
  assumes "hist_ok bs" and "0 < samples bs" and "p \<le> 1"
  shows "\<exists>r. percentile_ns bs p = of_int r \<and> (\<exists>lo n. (lo, r, n) \<in> set bs) \<and>
    p * of_int (samples bs) \<le> of_int (covered bs r) \<and>
    (\<forall>(lo, hi, n) \<in> set bs. hi < r \<longrightarrow> of_int (covered bs hi) < p * of_int (samples bs))"
  using percentile_exists [OF assms] by (simp add: least_covering_def)

theorem percentile_least_witness:
  "\<exists>r. percentile_ns [(1024, 2048, 3), (512, 1024, 7)] (95 / 100) = of_int r \<and>
    (95 / 100) * of_int (samples [(1024, 2048, 3), (512, 1024, 7)]) \<le>
      (of_int (covered [(1024, 2048, 3), (512, 1024, 7)] r) :: rat)"
  using percentile_least [of "[(1024, 2048, 3), (512, 1024, 7)]" "95 / 100"]
  by (auto simp: hist_ok_def)

lemma percentile_mono:
  assumes "hist_ok bs" "p \<le> q" "q \<le> 1"
  shows "percentile_ns bs p \<le> percentile_ns bs q"
proof (cases "samples bs = 0")
  case True
  then show ?thesis by (simp add: percentile_ns_def samples_def [symmetric])
next
  case False
  have "0 \<le> samples bs" using assms(1) by (intro samples_nonneg) (auto simp: hist_ok_def)
  with False have pos: "0 < samples bs" by simp
  obtain r where r: "percentile_ns bs p = of_int r" "least_covering bs (p * of_int (samples bs)) r"
    using percentile_exists [OF assms(1) pos] assms(2,3) by (meson order_trans)
  obtain r' where r': "percentile_ns bs q = of_int r'" "least_covering bs (q * of_int (samples bs)) r'"
    using percentile_exists [OF assms(1) pos assms(3)] by blast
  have "p * of_int (samples bs) \<le> q * of_int (samples bs)"
    using assms(2) pos by (simp add: mult_right_mono)
  from least_covering_mono [OF r(2) r'(2) this] show ?thesis by (simp add: r(1) r'(1))
qed

text \<open>
  In every row built from a well-formed histogram the four latency percentiles are ordered.
\<close>

theorem queue_perf_percentiles_ordered:
  assumes "hist_ok buckets"
  shows "qp_p50_latency_us (build_queue_perf qid counters buckets)
      \<le> qp_p95_latency_us (build_queue_perf qid counters buckets) \<and>
    qp_p95_latency_us (build_queue_perf qid counters buckets)
      \<le> qp_p99_latency_us (build_queue_perf qid counters buckets) \<and>
    qp_p99_latency_us (build_queue_perf qid counters buckets)
      \<le> qp_p999_latency_us (build_queue_perf qid counters buckets)"
  by (simp add: build_queue_perf_def Let_def divide_right_mono percentile_mono [OF assms])

theorem queue_perf_percentiles_ordered_witness:
  "qp_p50_latency_us (build_queue_perf 1 [] [(1024, 2048, 3), (512, 1024, 7)])
     \<le> qp_p95_latency_us (build_queue_perf 1 [] [(1024, 2048, 3), (512, 1024, 7)])"
  using queue_perf_percentiles_ordered [of "[(1024, 2048, 3), (512, 1024, 7)]" 1 "[]"]
  by (simp add: hist_ok_def)

section \<open>Merging histograms\<close>

lemma sum_update_add:
  "(\<Sum>(k, n)\<leftarrow>AList.update k0 (dict_get m k0 0 + i) m. if P k then n else 0) =
   (\<Sum>(k, n)\<leftarrow>m. if P k then n else 0) + (if P k0 then i else (0::int))"
  by (induction m) (auto simp: dict_get_def)

lemma set_update_add:
  "set (map fst (AList.update k v m)) = insert k (set (map fst m))"
  by (induction m) auto

lemma update_add_nonneg:
  "\<lbrakk>\<forall>(k, n) \<in> set m. 0 \<le> n; 0 \<le> i\<rbrakk> \<Longrightarrow>
   \<forall>(k, n) \<in> set (AList.update k0 (dict_get m k0 0 + i) m). 0 \<le> (n::int)"
  by (induction m) (auto simp: dict_get_def)

definition bucket_table :: "bucket list \<Rightarrow> (int \<times> int, int) dict" where
  "bucket_table bs =
     fold (\<lambda>(lo, hi, n) m. AList.update (lo, hi) (dict_get m (lo, hi) 0 + n) m) bs []"

lemma merge_buckets_table:
  "merge_buckets bss = map (\<lambda>((lo, hi), n). (lo, hi, n)) (bucket_table (concat bss))"
  by (simp add: merge_buckets_def bucket_table_def)

lemma bucket_table_snoc:
  "bucket_table (bs @ [(lo, hi, n)]) =
     AList.update (lo, hi) (dict_get (bucket_table bs) (lo, hi) 0 + n) (bucket_table bs)"
  by (simp add: bucket_table_def)

lemma bucket_table_sum:
  "(\<Sum>(k, n)\<leftarrow>bucket_table bs. if P k then n else 0) = (\<Sum>(lo, hi, n)\<leftarrow>bs. if P (lo, hi) then n else 0)"
proof (induction bs rule: rev_induct)
  case Nil
  then show ?case by (simp add: bucket_table_def)
next
  case (snoc b bs)
  then show ?case by (cases b) (simp add: bucket_table_snoc sum_update_add)
qed

lemma bucket_table_keys:
  "set (map fst (bucket_table bs)) = (\<lambda>(lo, hi, n). (lo, hi)) ` set bs"
proof (induction bs rule: rev_induct)
  case Nil
  then show ?case by (simp add: bucket_table_def)
next
  case (snoc b bs)
  then show ?case by (cases b) (simp only: bucket_table_snoc set_update_add, auto)
qed

lemma bucket_table_nonneg:
  "\<forall>(lo, hi, n) \<in> set bs. 0 \<le> n \<Longrightarrow> \<forall>(k, n) \<in> set (bucket_table bs). 0 \<le> n"
proof (induction bs rule: rev_induct)
  case Nil
  then show ?case by (simp add: bucket_table_def)
next
  case (snoc b bs)
  obtain lo hi n where b: "b = (lo, hi, n)" by (cases b)
  show ?case unfolding b bucket_table_snoc
    by (rule update_add_nonneg) (use snoc b in auto)
qed

lemma covered_eq: "covered bs x = (\<Sum>(lo, hi, n)\<leftarrow>bs. if hi \<le> x then n else 0)"
  by (induction bs) (auto simp: covered_def)

lemma covered_merge: "covered (merge_buckets bss) x = covered (concat bss) x"
proof -
  have "covered (merge_buckets bss) x =
      (\<Sum>(k, n)\<leftarrow>bucket_table (concat bss). if snd k \<le> x then n else 0)"
    by (simp add: covered_eq merge_buckets_table comp_def case_prod_unfold cong: if_cong)
  then show ?thesis
    by (simp add: bucket_table_sum [of "\<lambda>k. snd k \<le> x"] covered_eq)
qed

lemma samples_merge: "samples (merge_buckets bss) = samples (concat bss)"
  using bucket_table_sum [of "\<lambda>_. True" "concat bss"]
  by (simp add: samples_def merge_buckets_table comp_def case_prod_unfold)

lemma merge_ends:
  "(\<exists>n. (lo, hi, n) \<in> set (merge_buckets bss)) \<longleftrightarrow> (\<exists>n. (lo, hi, n) \<in> set (concat bss))"
proof -
  have "(\<exists>n. (lo, hi, n) \<in> set (merge_buckets bss)) \<longleftrightarrow> (lo, hi) \<in> set (map fst (bucket_table (concat bss)))"
    by (force simp: merge_buckets_table)
  also have "\<dots> \<longleftrightarrow> (\<exists>n. (lo, hi, n) \<in> set (concat bss))"
    unfolding bucket_table_keys by force
  finally show ?thesis .
qed

lemma hist_ok_merge:
  assumes "hist_ok (concat bss)"
  shows "hist_ok (merge_buckets bss)"
proof -
  from assms have "\<forall>(lo, hi, n) \<in> set (concat bss). 0 \<le> n" by (auto simp: hist_ok_def)
  from bucket_table_nonneg [OF this]
  have nonneg: "\<forall>(lo, hi, n) \<in> set (merge_buckets bss). 0 \<le> n"
    by (auto simp: merge_buckets_table)
  have "lo < lo' \<longleftrightarrow> hi < hi'"
    if "(lo, hi, n) \<in> set (merge_buckets bss)" "(lo', hi', n') \<in> set (merge_buckets bss)"
    for lo hi n lo' hi' n'
    using that merge_ends [of lo hi bss] merge_ends [of lo' hi' bss] hist_okD [OF assms] by metis
  with nonneg show ?thesis unfolding hist_ok_def by blast
qed

lemma least_covering_merge:
  "least_covering (merge_buckets bss) t r = least_covering (concat bss) t r"
proof -
  have "(\<exists>lo n. (lo, r, n) \<in> set (merge_buckets bss)) \<longleftrightarrow> (\<exists>lo n. (lo, r, n) \<in> set (concat bss))" for r
    using merge_ends by metis
  then have ends: "(\<forall>(lo, hi, n) \<in> set (merge_buckets bss). P hi) \<longleftrightarrow>
      (\<forall>(lo, hi, n) \<in> set (concat bss). P hi)" "(\<exists>lo n. (lo, r, n) \<in> set (merge_buckets bss)) \<longleftrightarrow>
      (\<exists>lo n. (lo, r, n) \<in> set (concat bss))" for P
    by fast+
  show ?thesis
    unfolding least_covering_def covered_merge ends(2)
    by (subst ends(1)) simp
qed

text \<open>
  C37: the aggregate row.  Merging the queues' histograms bucket by bucket gives the same percentiles
  as one histogram over the samples of all queues.
\<close>

theorem merged_percentile:
  assumes "hist_ok (concat bss)" and "p \<le> 1"
  shows "percentile_ns (merge_buckets bss) p = percentile_ns (concat bss) p"
proof (cases "samples (concat bss) = 0")
  case True
  with samples_merge [of bss] show ?thesis
    by (simp add: percentile_ns_def samples_def [symmetric])
next
  case False
  have "0 \<le> samples (concat bss)"
    using assms(1) by (intro samples_nonneg) (auto simp: hist_ok_def)
  with False have pos: "0 < samples (concat bss)" by simp
  obtain r where r: "percentile_ns (merge_buckets bss) p = of_int r"
    "least_covering (concat bss) (p * of_int (samples (concat bss))) r"
    using percentile_exists [OF hist_ok_merge [OF assms(1)]] pos assms(2)
    by (auto simp: samples_merge least_covering_merge)
  obtain r' where r': "percentile_ns (concat bss) p = of_int r'"
    "least_covering (concat bss) (p * of_int (samples (concat bss))) r'"
    using percentile_exists [OF assms(1) pos assms(2)] by blast
  from least_covering_mono [OF r(2) r'(2)] least_covering_mono [OF r'(2) r(2)] r(1) r'(1)
  show ?thesis by simp
qed

theorem merged_percentile_witness:
  "percentile_ns (merge_buckets [[(512, 1024, 7)], [(512, 1024, 1), (1024, 2048, 3)]]) (99 / 100) =
   percentile_ns [(512, 1024, 7), (512, 1024, 1), (1024, 2048, 3)] (99 / 100)"
  using merged_percentile [of "[[(512, 1024, 7)], [(512, 1024, 1), (1024, 2048, 3)]]" "99 / 100"]
  by (simp add: hist_ok_def)

section \<open>Well-formed tick data\<close>

text \<open>The dictionaries that the parser builds have no duplicate keys, on either level.\<close>

definition tick_ok :: "tick_data \<Rightarrow> bool" where
  "tick_ok d \<longleftrightarrow> dict_ok (fst d) \<and> dict_ok (snd d) \<and> (\<forall>(k, counters) \<in> set (fst d). dict_ok counters)"

lemma update_elem: "(k', v') \<in> set (AList.update k v d) \<Longrightarrow> (k', v') = (k, v) \<or> (k', v') \<in> set d"
  by (induction d) (auto split: if_splits)

lemma dict_get_elem: "dict_get d k x = x \<or> (k, dict_get d k x) \<in> set d"
  by (auto simp: dict_get_def map_of_SomeD split: option.split)

lemma tick_ok_add_scalar:
  assumes "tick_ok d"
  shows "tick_ok (add_scalar k name n (fst d), snd d)"
proof -
  have "dict_ok (dict_get (fst d) k [])"
    using assms dict_get_elem [of "fst d" k "[]"] by (force simp: tick_ok_def dict_ok_def)
  with assms show ?thesis
    by (auto simp: tick_ok_def add_scalar_def dict_ok_update dest!: update_elem)
qed

lemma tick_ok_add_buckets: "tick_ok d \<Longrightarrow> tick_ok (fst d, add_buckets k bs (snd d))"
  by (simp add: tick_ok_def add_buckets_def dict_ok_update)

lemma parse_segment_lines_ok: "tick_ok d \<Longrightarrow> parse_segment_lines ls d = Inr d' \<Longrightarrow> tick_ok d'"
proof (induction ls d rule: parse_segment_lines.induct)
  case (2 l ls d)
  show ?case
  proof (cases "scalar_of_line l")
    case (Some r)
    with 2 tick_ok_add_scalar [OF 2(4)] show ?thesis by (cases r) auto
  next
    case None
    with 2 tick_ok_add_buckets [OF 2(4)] show ?thesis
      by (auto split: option.splits sum.splits prod.splits)
  qed
qed simp

lemma parse_last_complete_tick_ok: "parse_last_complete_tick txt = Inr d \<Longrightarrow> tick_ok d"
  by (auto simp: parse_last_complete_tick_def parse_segment_def Let_def tick_ok_def dict_ok_def
      split: if_splits dest!: parse_segment_lines_ok [rotated])

section \<open>The aggregate row\<close>

lemma add_counters_get:
  "dict_ok counters \<Longrightarrow> dict_get (add_counters counters acc) k 0 = dict_get acc k 0 + dict_get counters k 0"
proof (induction counters arbitrary: acc)
  case Nil
  then show ?case by (simp add: add_counters_def dict_get_def)
next
  case (Cons c counters)
  obtain k' n where c: "c = (k', n)" by (cases c)
  have "k' \<notin> fst ` set counters" using Cons.prems c by (simp add: dict_ok_def)
  then have "map_of counters k' = None" by (simp add: map_of_eq_None_iff)
  with Cons c show ?case
    by (auto simp: add_counters_def dict_simps dict_ok_def) (simp_all add: dict_get_def)
qed

lemma dev_counters_get:
  "\<forall>(qid, counters, buckets) \<in> set rows. dict_ok counters \<Longrightarrow>
   dict_get (fold (\<lambda>(qid, counters, buckets). add_counters counters) rows acc) k 0 =
     dict_get acc k 0 + (\<Sum>(qid, counters, buckets)\<leftarrow>rows. dict_get counters k 0)"
  by (induction rows arbitrary: acc) (auto simp: add_counters_get)

lemma device_rows_ok:
  assumes "tick_ok d"
  shows "(\<forall>(qid, counters, buckets) \<in> set (device_rows d inst). dict_ok counters) \<and>
    sorted_wrt (<) (map fst (device_rows d inst))"
proof -
  let ?items = "filter (\<lambda>((ctrl, qid), counters). ctrl = inst) (sort_key fst (fst d))"
  have "distinct (map fst (fst d))" using assms by (simp add: tick_ok_def dict_ok_def)
  then have "distinct (map fst (sort_key fst (fst d)))"
    by (metis distinct_map mset_sort set_sort distinct_sort mset_eq_setD)
  then have "distinct (map fst ?items)" by (simp add: distinct_map_filter)
  moreover have "sorted (map fst ?items)" by (simp add: sorted_filter)
  ultimately have "sorted_wrt (<) (map fst ?items)" by (simp add: strict_sorted_iff)
  then have "sorted_wrt (\<lambda>x y. snd (fst x) < snd (fst y)) ?items"
    unfolding sorted_wrt_map by (rule sorted_wrt_mono_rel [rotated]) (auto simp: less_prod_def)
  then have "sorted_wrt (<) (map fst (device_rows d inst))"
    by (simp add: device_rows_def sorted_wrt_map comp_def case_prod_unfold)
  moreover have "\<forall>(qid, counters, buckets) \<in> set (device_rows d inst). dict_ok counters"
    using assms by (auto simp: device_rows_def tick_ok_def)
  ultimately show ?thesis by blast
qed

lemma build_queue_perf_rates:
  "qp_qid (build_queue_perf qid counters buckets) = qid"
  "qp_iops (build_queue_perf qid counters buckets) = of_int (dict_get counters ''op_count'' 0)"
  "qp_read_iops (build_queue_perf qid counters buckets) = of_int (dict_get counters ''read_count'' 0)"
  "qp_write_iops (build_queue_perf qid counters buckets) = of_int (dict_get counters ''write_count'' 0)"
  "qp_bandwidth_bytes_per_sec (build_queue_perf qid counters buckets) =
     of_int (dict_get counters ''bytes_sum'' 0)"
  by (simp_all add: build_queue_perf_def TICK_INTERVAL_SEC_def Let_def)

lemma sum_rates:
  assumes "\<And>qid counters buckets.
    f (build_queue_perf qid counters buckets) = of_int (dict_get counters k 0)"
  shows "(\<Sum>q\<leftarrow>map (\<lambda>(qid, counters, buckets). build_queue_perf qid counters buckets) rows. f q) =
    (of_int (\<Sum>(qid, counters, buckets)\<leftarrow>rows. dict_get counters k 0) :: pyfloat)"
  by (induction rows) (auto simp: assms)

text \<open>
  The rows of a device.  Whatever is in the log, the queues of the last complete tick are listed
  once each in the order of their ids, and the aggregate row has the id \<open>-1\<close> and exactly the sums of
  the queues' operation, read, write and byte rates; there is an aggregate whenever there is a queue.
\<close>

theorem aggregate_sums:
  assumes "read_latest_performance src v inst = Inr (queues, aggregate)"
  shows "sorted_wrt (<) (map qp_qid queues) \<and>
    (case aggregate of
       None \<Rightarrow> queues = []
     | Some a \<Rightarrow> queues \<noteq> [] \<and> qp_qid a = -1 \<and>
         qp_iops a = (\<Sum>q\<leftarrow>queues. qp_iops q) \<and>
         qp_read_iops a = (\<Sum>q\<leftarrow>queues. qp_read_iops q) \<and>
         qp_write_iops a = (\<Sum>q\<leftarrow>queues. qp_write_iops q) \<and>
         qp_bandwidth_bytes_per_sec a = (\<Sum>q\<leftarrow>queues. qp_bandwidth_bytes_per_sec q))"
proof (cases "available (as_log_source src) v")
  case False
  with assms show ?thesis by (simp add: read_latest_performance_def Let_def)
next
  case True
  with assms obtain d where d: "parse_last_complete_tick (read_all (as_log_source src) v) = Inr d"
    and perf: "tick_performance d inst = (queues, aggregate)"
    by (auto simp: read_latest_performance_def Let_def bindE_Inr)
  let ?rows = "device_rows d inst"
  from device_rows_ok [OF parse_last_complete_tick_ok [OF d]]
  have ok: "\<forall>(qid, counters, buckets) \<in> set ?rows. dict_ok counters"
    and sorted: "sorted_wrt (<) (map fst ?rows)" by auto
  have queues: "queues = map (\<lambda>(qid, counters, buckets). build_queue_perf qid counters buckets) ?rows"
    using perf by (auto simp: tick_performance_def Let_def split: if_splits)
  have agg: "aggregate = (if ?rows = [] then None else Some (build_queue_perf (-1)
      (fold (\<lambda>(qid, counters, buckets). add_counters counters) ?rows [])
      (merge_buckets (map (\<lambda>(qid, counters, buckets). buckets) ?rows))))"
    using perf by (auto simp: tick_performance_def Let_def split: if_splits)
  have qids: "map qp_qid queues = map fst ?rows"
    unfolding queues by (auto simp: build_queue_perf_rates)
  have total: "dict_get (fold (\<lambda>(qid, counters, buckets). add_counters counters) ?rows []) k 0 =
      (\<Sum>(qid, counters, buckets)\<leftarrow>?rows. dict_get counters k 0)" for k
    using dev_counters_get [OF ok, of "[]" k] by (simp add: dict_get_def [of "[]"])
  show ?thesis
    using sorted unfolding qids agg
    by (simp add: build_queue_perf_rates total queues
        sum_rates [of qp_iops, OF build_queue_perf_rates(2)]
        sum_rates [of qp_read_iops, OF build_queue_perf_rates(3)]
        sum_rates [of qp_write_iops, OF build_queue_perf_rates(4)]
        sum_rates [of qp_bandwidth_bytes_per_sec, OF build_queue_perf_rates(5)]
        del: map_map)
qed

theorem aggregate_sums_witness:
  "\<exists>queues a. read_latest_performance (PathSource ''log'')
      (view_of (''@op_count[0, 1]: 5'' @ [nl] @ ''@op_count[0, 2]: 3'' @ [nl] @ ''---TICK---'')) 0 =
      Inr (queues, Some a) \<and> qp_iops a = (\<Sum>q\<leftarrow>queues. qp_iops q)"
proof -
  let ?log = "''@op_count[0, 1]: 5'' @ [nl] @ ''@op_count[0, 2]: 3'' @ [nl] @ ''---TICK---''"
  let ?d = "([((0, 1), [(''op_count'', 5)]), ((0, 2), [(''op_count'', 3)])], [])"
  have tick: "parse_last_complete_tick (read_all \<lparr>src_path = Some ''log''\<rparr> (view_of ?log)) = Inr ?d"
    by code_simp
  have "device_rows ?d 0 \<noteq> []" by code_simp
  with tick obtain queues a where
    r: "read_latest_performance (PathSource ''log'') (view_of ?log) 0 = Inr (queues, Some a)"
    by (auto simp: read_latest_performance_def available_def has_path_def view_of_def Let_def
        tick_performance_def)
  from aggregate_sums [OF r] r show ?thesis by auto
qed

section \<open>Which tick is read\<close>

text \<open>
  The collector prints the maps of a tick, then the tick mark on a line of its own.  A segment is the
  text between two marks; it is empty or ends in a newline, and does not contain the mark.
\<close>

definition segment_ok :: "pystr \<Rightarrow> bool" where
  "segment_ok s \<longleftrightarrow> \<not> sublist TICK s \<and> (s = [] \<or> last s = nl)"

definition tick_log :: "pystr list \<Rightarrow> pystr" where
  "tick_log segs = concat (map (\<lambda>s. s @ TICK @ [nl]) segs)"

lemma split_str_free: "sep \<noteq> [] \<Longrightarrow> \<not> sublist sep s \<Longrightarrow> split_str sep s = [s]"
  by (induction s) (auto simp: sublist_Cons_right)

lemma split_str_segment:
  "\<lbrakk>sep \<noteq> []; \<not> sublist sep s; s = [] \<or> last s \<notin> set sep\<rbrakk> \<Longrightarrow>
   split_str sep (s @ sep @ rest) = s # split_str sep rest"
proof (induction s)
  case Nil
  then show ?case by (cases sep) simp_all
next
  case (Cons x s)
  have "\<not> prefix sep ((x # s) @ sep @ rest)"
  proof
    assume "prefix sep ((x # s) @ sep @ rest)"
    then consider "prefix sep (x # s)" | us where "sep = (x # s) @ us"
      unfolding prefix_append by blast
    then show False
    proof cases
      case 1
      with Cons.prems(2) show False by (blast intro: prefix_imp_sublist)
    next
      case 2
      with Cons.prems(3) show False by (metis Un_iff last_in_set list.distinct(1) set_append)
    qed
  qed
  moreover have "\<not> sublist sep s" "s = [] \<or> last s \<notin> set sep"
    using Cons.prems by (auto simp: sublist_Cons_right split: if_splits)
  ultimately show ?case using Cons.IH Cons.prems(1) by simp
qed

lemma TICK_facts: "TICK \<noteq> []" "nl \<notin> set TICK" "hd TICK \<noteq> nl"
  by (simp_all add: TICK_def)

lemma not_sublist_nl: "\<not> sublist TICK s \<Longrightarrow> \<not> sublist TICK (nl # s)"
  by (simp add: sublist_Cons_right TICK_def)

lemma split_tick_log_nl:
  "\<lbrakk>\<forall>s \<in> set segs. segment_ok s; \<not> sublist TICK tail\<rbrakk> \<Longrightarrow>
   split_str TICK (nl # tick_log segs @ tail) = map (Cons nl) segs @ [nl # tail]"
proof (induction segs)
  case Nil
  then show ?case by (simp add: tick_log_def split_str_free TICK_facts not_sublist_nl del: split_str.simps)
next
  case (Cons s segs)
  have "nl # tick_log (s # segs) @ tail = (nl # s) @ TICK @ (nl # tick_log segs @ tail)"
    by (simp add: tick_log_def)
  moreover have "split_str TICK ((nl # s) @ TICK @ (nl # tick_log segs @ tail)) =
      (nl # s) # split_str TICK (nl # tick_log segs @ tail)"
    by (rule split_str_segment) (use Cons.prems in \<open>auto simp: segment_ok_def TICK_facts not_sublist_nl\<close>)
  ultimately show ?case using Cons by simp
qed

lemma split_tick_log:
  assumes "segment_ok s" "\<forall>s \<in> set segs. segment_ok s" "\<not> sublist TICK tail"
  shows "split_str TICK (tick_log (s # segs) @ tail) = s # map (Cons nl) segs @ [nl # tail]"
proof -
  have "tick_log (s # segs) @ tail = s @ TICK @ (nl # tick_log segs @ tail)"
    by (simp add: tick_log_def)
  moreover have "split_str TICK (s @ TICK @ (nl # tick_log segs @ tail)) =
      s # split_str TICK (nl # tick_log segs @ tail)"
    by (rule split_str_segment) (use assms(1) in \<open>auto simp: segment_ok_def TICK_facts\<close>)
  ultimately show ?thesis using split_tick_log_nl [OF assms(2,3)] by simp
qed

lemma blank_line_skipped: "parse_segment (nl # s) = parse_segment s"
proof -
  have "scalar_of_line [] = None" "hist_key_of_line [] = None" by code_simp+
  then show ?thesis by (simp add: parse_segment_def splitlines_def is_linebreak_def)
qed

text \<open>
  Tick selection.  On a log of complete ticks followed by any unfinished text, the reader uses
  exactly the maps of the last complete tick; a tick that is still being written never shows.
\<close>

theorem last_complete_tick_only:
  assumes "\<forall>s \<in> set segs. segment_ok s" and "\<not> sublist TICK tail"
  shows "parse_last_complete_tick (tick_log segs @ tail) =
    (if segs = [] then Inr ([], []) else parse_segment (last segs))"
proof (cases segs)
  case Nil
  with assms(2) show ?thesis
    by (simp add: parse_last_complete_tick_def tick_log_def split_str_free TICK_facts)
next
  case (Cons s ss)
  with assms have parts: "split_str TICK (tick_log segs @ tail) = (s # map (Cons nl) ss) @ [nl # tail]"
    using split_tick_log [of s ss tail] by simp
  have "((s # map (Cons nl) ss) @ [nl # tail]) ! (length ss) = last (s # map (Cons nl) ss)"
    by (simp add: nth_append last_conv_nth)
  then have "parse_last_complete_tick (tick_log segs @ tail) = parse_segment (last (s # map (Cons nl) ss))"
    by (simp add: parse_last_complete_tick_def parts Let_def)
  also have "\<dots> = parse_segment (last segs)"
    using Cons by (simp add: last_map blank_line_skipped)
  finally show ?thesis using Cons by simp
qed

theorem last_complete_tick_only_witness:
  "parse_last_complete_tick (tick_log [''@op_count[0, 1]: 5'' @ [nl], ''@op_count[0, 1]: 6'' @ [nl]] @
     ''@op_count[0, 1]: 7'' @ [nl] @ ''---TI'') =
   Inr ([((0, 1), [(''op_count'', 6)])], [])"
proof -
  let ?segs = "[''@op_count[0, 1]: 5'' @ [nl], ''@op_count[0, 1]: 6'' @ [nl]]"
  let ?tail = "''@op_count[0, 1]: 7'' @ [nl] @ ''---TI''"
  have "parse_last_complete_tick (tick_log ?segs @ ?tail) =
      (if ?segs = [] then Inr ([], []) else parse_segment (last ?segs))"
    by (rule last_complete_tick_only) (simp_all add: segment_ok_def TICK_def sublist_Cons_right)
  also have "\<dots> = Inr ([((0, 1), [(''op_count'', 6)])], [])" by code_simp
  finally show ?thesis .
qed

text \<open>
  The service's answer.  A row of queues is only ever reported together with an aggregate and
  \<open>available\<close>; without a log, with a bad device name or before the first tick the answer is marked
  unavailable and says why.
\<close>

theorem get_performance_shape:
  assumes "get_performance src v v' device = Inr dp"
  shows "dp_device dp = device \<and>
    (if dp_available dp
     then dp_queues dp \<noteq> [] \<and> dp_aggregate dp \<noteq> None \<and> dp_error dp = None \<and> available src v
     else dp_queues dp = [] \<and> dp_aggregate dp = None \<and>
       dp_error dp = Some (if \<not> available src v then MsgNoCollectorLog
         else if isl (device_instance_from_name device) then MsgBadDeviceName device
         else MsgNoCollectorData))"
proof -
  have "queues = [] \<longleftrightarrow> aggregate = None"
    if "read_latest_performance src' v' inst = Inr (queues, aggregate)" for src' inst queues aggregate
    using that
    by (auto simp: read_latest_performance_def tick_performance_def Let_def bindE_Inr split: if_splits)
  with assms show ?thesis
    by (auto simp: get_performance_def read_device_performance_def unavailable_perf_def bindE_Inr
        split: if_splits sum.splits)
qed

theorem get_performance_shape_witness:
  "\<exists>dp. get_performance \<lparr>src_path = Some ''log''\<rparr> (view_of []) (view_of []) ''sda'' = Inr dp \<and>
    dp_error dp = Some (MsgBadDeviceName ''sda'')"
proof -
  have "isl (device_instance_from_name ''sda'')" by code_simp
  then obtain dp where
    r: "get_performance \<lparr>src_path = Some ''log''\<rparr> (view_of []) (view_of []) ''sda'' = Inr dp"
    and na: "\<not> dp_available dp"
    by (auto simp: get_performance_def read_device_performance_def unavailable_perf_def
        available_def has_path_def view_of_def isl_def)
  from get_performance_shape [OF r] r na \<open>isl (device_instance_from_name ''sda'')\<close> show ?thesis
    by (simp add: available_def has_path_def view_of_def)
qed

end
