(* ===== verification/ProcStats.thy ===== *)
theory ProcStats
  imports EbpfPerf
begin

text \<open>
  \<open>backend/proc_stats.py\<close>: the collector's maps per process and thread of the last complete tick.
\<close>

section \<open>Patterns\<close>

text \<open>
  \<open>(.*)\]:\s*(\d+)$\<close>: the group is greedy, and what follows it holds no further \<open>]:\<close>, so it ends at the
  last one.
\<close>

fun rsplit_key :: "pystr \<Rightarrow> (pystr \<times> pystr) option" where
  "rsplit_key [] = None"
| "rsplit_key (x # xs) =
     (case rsplit_key xs of
        Some (a, b) \<Rightarrow> Some (x # a, b)
      | None \<Rightarrow> if x = CHR '']'' \<and> prefix '':'' xs then Some ([], tl xs) else None)"

definition comm_and_count :: "pystr \<Rightarrow> (pystr \<times> int) option" where
  "comm_and_count s =
     (case rsplit_key s of
        None \<Rightarrow> None
      | Some (comm, r) \<Rightarrow> (case re_full [Ws0, Dec] r of Some [CInt n] \<Rightarrow> Some (comm, n) | _ \<Rightarrow> None))"

definition RE_PROC_OPS :: "pystr \<Rightarrow> (int \<times> int \<times> pystr \<times> int) option" where
  "RE_PROC_OPS line =
     (case match_toks [Lit ''@proc_ops['', SDec, Lit '', '', SDec, Lit '', ''] line of
        Some ([CInt ctrl, CInt tgid], r) \<Rightarrow>
          map_option (\<lambda>(comm, n). (ctrl, tgid, comm, n)) (comm_and_count r)
      | _ \<Rightarrow> None)"

definition RE_THR_OPS :: "pystr \<Rightarrow> (int \<times> int \<times> int \<times> pystr \<times> int) option" where
  "RE_THR_OPS line =
     (case match_toks [Lit ''@thr_ops['', SDec, Lit '', '', SDec, Lit '', '', SDec, Lit '', ''] line of
        Some ([CInt ctrl, CInt tgid, CInt tid], r) \<Rightarrow>
          map_option (\<lambda>(comm, n). (ctrl, tgid, tid, comm, n)) (comm_and_count r)
      | _ \<Rightarrow> None)"

definition RE_2KEY :: "pystr \<Rightarrow> (pystr \<times> int \<times> int \<times> int) option" where
  "RE_2KEY line =
     (case re_full [Lit ''@'', Name, Lit ''['', SDec, Lit '', '', SDec, Lit '']:'', Ws0, Dec] line of
        Some [CStr name, CInt ctrl, CInt tgid, CInt v] \<Rightarrow>
          if name \<in> {''proc_bytes'', ''proc_rd'', ''proc_wr'', ''proc_lat_sum'', ''proc_lat_cnt'',
                     ''proc_seq'', ''proc_rand''}
          then Some (name, ctrl, tgid, v) else None
      | _ \<Rightarrow> None)"

definition RE_3KEY :: "pystr \<Rightarrow> (pystr \<times> int \<times> int \<times> int \<times> int) option" where
  "RE_3KEY line =
     (case re_full [Lit ''@'', Name, Lit ''['', SDec, Lit '', '', SDec, Lit '', '', SDec, Lit '']:'', Ws0,
                    Dec] line of
        Some [CStr name, CInt ctrl, CInt tgid, CInt k, CInt v] \<Rightarrow>
          if name \<in> {''proc_bs'', ''proc_q''} then Some (name, ctrl, tgid, k, v) else None
      | _ \<Rightarrow> None)"

section \<open>Raw counters\<close>

record proc_raw =
  raw_comm :: pystr
  raw_ops :: int
  raw_read :: int
  raw_write :: int
  raw_bytes :: int
  raw_lat_sum :: int
  raw_lat_cnt :: int
  raw_seq :: int
  raw_rand :: int
  raw_sizes :: "(int, int) dict"
  raw_queues :: "(int, int) dict"
  raw_threads :: "(int, pystr \<times> int) dict"

definition empty_raw :: proc_raw where
  "empty_raw =
     \<lparr>raw_comm = [], raw_ops = 0, raw_read = 0, raw_write = 0, raw_bytes = 0, raw_lat_sum = 0,
      raw_lat_cnt = 0, raw_seq = 0, raw_rand = 0, raw_sizes = [], raw_queues = [], raw_threads = []\<rparr>"

type_synonym procs = "(int \<times> int, proc_raw) dict"

text \<open>\<open>slot(ctrl, tgid)\<close> followed by a change of the slot.\<close>

definition in_slot :: "int \<times> int \<Rightarrow> (proc_raw \<Rightarrow> proc_raw) \<Rightarrow> procs \<Rightarrow> procs" where
  "in_slot k f procs = AList.update k (f (dict_get procs k empty_raw)) procs"

definition add_thread :: "int \<Rightarrow> pystr \<Rightarrow> int \<Rightarrow> proc_raw \<Rightarrow> proc_raw" where
  "add_thread tid comm n s =
     s\<lparr>raw_threads :=
        AList.update tid (comm, snd (dict_get (raw_threads s) tid (comm, 0)) + n) (raw_threads s)\<rparr>"

definition add_counter :: "pystr \<Rightarrow> int \<Rightarrow> proc_raw \<Rightarrow> proc_raw" where
  "add_counter name v s =
     (if name = ''proc_bytes'' then s\<lparr>raw_bytes := raw_bytes s + v\<rparr>
      else if name = ''proc_rd'' then s\<lparr>raw_read := raw_read s + v\<rparr>
      else if name = ''proc_wr'' then s\<lparr>raw_write := raw_write s + v\<rparr>
      else if name = ''proc_lat_sum'' then s\<lparr>raw_lat_sum := raw_lat_sum s + v\<rparr>
      else if name = ''proc_lat_cnt'' then s\<lparr>raw_lat_cnt := raw_lat_cnt s + v\<rparr>
      else if name = ''proc_seq'' then s\<lparr>raw_seq := raw_seq s + v\<rparr>
      else s\<lparr>raw_rand := raw_rand s + v\<rparr>)"

definition add_keyed :: "pystr \<Rightarrow> int \<Rightarrow> int \<Rightarrow> proc_raw \<Rightarrow> proc_raw" where
  "add_keyed name k v s =
     (if name = ''proc_bs''
      then s\<lparr>raw_sizes := AList.update k (dict_get (raw_sizes s) k 0 + v) (raw_sizes s)\<rparr>
      else s\<lparr>raw_queues := AList.update k (dict_get (raw_queues s) k 0 + v) (raw_queues s)\<rparr>)"

definition tick_line :: "pystr \<Rightarrow> procs \<Rightarrow> procs" where
  "tick_line line0 procs =
     (let line = strip line0
      in if \<not> prefix ''@proc'' line \<and> \<not> prefix ''@thr_ops'' line then procs
         else
           (case RE_PROC_OPS line of
              Some (ctrl, tgid, comm, n) \<Rightarrow>
                in_slot (ctrl, tgid) (\<lambda>s. s\<lparr>raw_comm := comm, raw_ops := raw_ops s + n\<rparr>) procs
            | None \<Rightarrow>
                (case RE_THR_OPS line of
                   Some (ctrl, tgid, tid, comm, n) \<Rightarrow> in_slot (ctrl, tgid) (add_thread tid comm n) procs
                 | None \<Rightarrow>
                     (case RE_2KEY line of
                        Some (name, ctrl, tgid, v) \<Rightarrow> in_slot (ctrl, tgid) (add_counter name v) procs
                      | None \<Rightarrow>
                          (case RE_3KEY line of
                             Some (name, ctrl, tgid, k, v) \<Rightarrow>
                               in_slot (ctrl, tgid) (add_keyed name k v) procs
                           | None \<Rightarrow> procs)))))"

definition parse_tick :: "pystr \<Rightarrow> procs" where
  "parse_tick segment = fold tick_line (splitlines segment) []"

section \<open>Statistics\<close>

definition to_stat :: "int \<Rightarrow> int \<Rightarrow> proc_raw \<Rightarrow> ProcessIoStat" where
  "to_stat ctrl_id tgid raw =
     (let ops = raw_ops raw; lat_cnt = raw_lat_cnt raw;
          avg_lat_us = (if lat_cnt \<noteq> 0 then of_int (raw_lat_sum raw) / of_int lat_cnt / 1000 else 0);
          iops = of_int ops / TICK_INTERVAL_SEC;
          qd_est = (if avg_lat_us \<noteq> 0 then iops * (avg_lat_us / 1000000) else 0);
          sizes = sort_key (\<lambda>kv. - snd kv) (raw_sizes raw);
          seq_total = raw_seq raw + raw_rand raw;
          seq_ratio = (if seq_total \<noteq> 0 then Some (of_int (raw_seq raw) / of_int seq_total) else None);
          threads = map (\<lambda>(tid, comm, n).
                      \<lparr>ts_tid = tid, ts_comm = comm, ts_iops = of_int n / TICK_INTERVAL_SEC\<rparr>)
                    (sort_key (\<lambda>(tid, comm, n). - n) (raw_threads raw))
      in \<lparr>ps_device = ''nvme'' @ int_dec ctrl_id, ps_pid = tgid,
          ps_comm = (if raw_comm raw \<noteq> [] then raw_comm raw
                     else if threads \<noteq> [] then ts_comm (hd threads) else []),
          ps_iops = iops,
          ps_read_iops = of_int (raw_read raw) / TICK_INTERVAL_SEC,
          ps_write_iops = of_int (raw_write raw) / TICK_INTERVAL_SEC,
          ps_bandwidth_bps = of_int (raw_bytes raw) / TICK_INTERVAL_SEC,
          ps_avg_latency_us = avg_lat_us,
          ps_io_size_dominant = (if sizes \<noteq> [] then fst (hd sizes) else 0),
          ps_io_size_hist = sizes,
          ps_queues = sort_key fst (raw_queues raw),
          ps_queue_depth_est = qd_est, ps_seq_ratio = seq_ratio, ps_threads = threads\<rparr>)"

definition TAIL_BYTES :: nat where
  "TAIL_BYTES = 2 * 1024 * 1024"

definition last_complete_tick :: "pystr \<Rightarrow> pystr" where
  "last_complete_tick txt =
     (let parts = split_str TICK txt
      in if length parts \<ge> 2 then parts ! (length parts - 2) else [])"

definition process_stats :: "procs \<Rightarrow> int option \<Rightarrow> ProcessIoStat list" where
  "process_stats procs want =
     sort_key (\<lambda>s. - ps_iops s)
       (map (\<lambda>((ctrl, tgid), raw). to_stat ctrl tgid raw)
         (filter (\<lambda>((ctrl, tgid), raw). want = None \<or> want = Some ctrl) procs))"

definition read_process_stats ::
  "source_arg \<Rightarrow> file_view \<Rightarrow> pystr option \<Rightarrow> ProcessIoStat list" where
  "read_process_stats log_path v device =
     (let procs = parse_tick (last_complete_tick (read_tail (as_log_source log_path) TAIL_BYTES v))
      in case device of
           None \<Rightarrow> process_stats procs None
         | Some d \<Rightarrow>
             (case re_dollar [Lit ''nvme'', Dec] d of
                Some [CInt want] \<Rightarrow> process_stats procs (Some want)
              | _ \<Rightarrow> []))"

section \<open>One entry per process and device\<close>

lemma int_dec_inject [simp]: "int_dec i = int_dec j \<longleftrightarrow> i = j"
  using take_sdec_int_dec [of "[]" i] take_sdec_int_dec [of "[]" j] by (metis option.inject prod.inject)

lemma dict_ok_tick_line: "dict_ok procs \<Longrightarrow> dict_ok (tick_line l procs)"
  by (auto simp: tick_line_def in_slot_def Let_def dict_ok_update split: option.split)

lemma dict_ok_parse_tick: "dict_ok (parse_tick segment)"
proof -
  have "dict_ok procs \<Longrightarrow> dict_ok (fold tick_line ls procs)" for ls procs
    by (induction ls arbitrary: procs) (simp_all add: dict_ok_tick_line)
  then show ?thesis by (simp add: parse_tick_def dict_ok_def)
qed

lemma to_stat_keys [simp]:
  "ps_device (to_stat ctrl tgid raw) = ''nvme'' @ int_dec ctrl" "ps_pid (to_stat ctrl tgid raw) = tgid"
  by (simp_all add: to_stat_def Let_def)

lemma process_stats_filter:
  "process_stats procs (Some i) =
     filter (\<lambda>s. ps_device s = ''nvme'' @ int_dec i) (process_stats procs None)"
proof -
  let ?dev = "''nvme'' @ int_dec i"
  have "map (\<lambda>((ctrl, tgid), raw). to_stat ctrl tgid raw)
      (filter (\<lambda>((ctrl, tgid), raw). Some i = None \<or> Some i = Some ctrl) procs) =
    filter (\<lambda>s. ps_device s = ?dev) (map (\<lambda>((ctrl, tgid), raw). to_stat ctrl tgid raw)
      (filter (\<lambda>((ctrl, tgid), raw). None = None \<or> None = Some ctrl) procs))"
    by (induction procs) auto
  from arg_cong [OF this, of "sort_key (\<lambda>s. - ps_iops s)"] show ?thesis
    unfolding process_stats_def filter_sort .
qed

lemma process_stats_distinct:
  "dict_ok procs \<Longrightarrow> distinct (map (\<lambda>s. (ps_device s, ps_pid s)) (process_stats procs want))"
proof -
  assume "dict_ok procs"
  then have "distinct (map fst (filter (\<lambda>((ctrl, tgid), raw). want = None \<or> want = Some ctrl) procs))"
    by (simp add: dict_ok_def distinct_map_filter)
  then have "distinct (map (\<lambda>(ctrl, tgid). (''nvme'' @ int_dec ctrl, tgid)) (map fst
      (filter (\<lambda>((ctrl, tgid), raw). want = None \<or> want = Some ctrl) procs)))"
    by (subst distinct_map) (auto intro: inj_onI)
  then show ?thesis
    by (simp add: process_stats_def distinct_sort_map comp_def case_prod_unfold)
qed

text \<open>
  The statistics list has one entry per device and process, busiest first, and asking for one
  device gives exactly the entries of that device in the list for all devices.
\<close>

theorem process_stats_by_device:
  assumes "0 \<le> i"
  shows "read_process_stats src v (Some (''nvme'' @ int_dec i)) =
      filter (\<lambda>s. ps_device s = ''nvme'' @ int_dec i) (read_process_stats src v None) \<and>
    distinct (map (\<lambda>s. (ps_device s, ps_pid s)) (read_process_stats src v None)) \<and>
    sorted_wrt (\<lambda>a b. ps_iops a \<ge> ps_iops b) (read_process_stats src v None)"
proof -
  let ?procs = "parse_tick (last_complete_tick (read_tail (as_log_source src) TAIL_BYTES v))"
  have "re_dollar [Lit ''nvme'', Dec] (''nvme'' @ int_dec i) = Some [CInt i]"
    using take_dec_int_dec [OF assms, of "[]"] by (simp add: re_dollar_def)
  then have "read_process_stats src v (Some (''nvme'' @ int_dec i)) = process_stats ?procs (Some i)"
    by (simp add: read_process_stats_def Let_def)
  moreover have all: "read_process_stats src v None = process_stats ?procs None"
    by (simp add: read_process_stats_def Let_def)
  moreover have "sorted (map (\<lambda>s. - ps_iops s) (process_stats ?procs None))"
    by (simp add: process_stats_def)
  then have "sorted_wrt (\<lambda>a b. ps_iops a \<ge> ps_iops b) (process_stats ?procs None)"
    by (simp add: sorted_map)
  ultimately show ?thesis
    using process_stats_filter [of ?procs i] process_stats_distinct [OF dict_ok_parse_tick] by simp
qed

theorem process_stats_by_device_witness:
  "read_process_stats NoSource (view_of []) (Some (''nvme'' @ int_dec 0)) =
    filter (\<lambda>s. ps_device s = ''nvme'' @ int_dec 0) (read_process_stats NoSource (view_of []) None)"
  using process_stats_by_device [of 0 NoSource "view_of []"] by simp

section \<open>Counting\<close>

text \<open>The number of commands that the \<open>@proc_ops\<close> lines print for a process on a controller.\<close>

definition printed_ops :: "int \<times> int \<Rightarrow> pystr list \<Rightarrow> int" where
  "printed_ops k ls =
     (\<Sum>(ctrl, tgid, comm, n)\<leftarrow>List.map_filter (RE_PROC_OPS \<circ> strip) ls. if (ctrl, tgid) = k then n else 0)"

lemma raw_ops_unchanged [simp]:
  "raw_ops (add_thread tid comm n s) = raw_ops s" "raw_ops (add_counter name v s) = raw_ops s"
  "raw_ops (add_keyed name k v s) = raw_ops s"
  by (simp_all add: add_thread_def add_counter_def add_keyed_def)

lemma proc_ops_prefix: "RE_PROC_OPS l = Some r \<Longrightarrow> prefix ''@proc'' l"
  by (auto simp: RE_PROC_OPS_def prefix_def split: if_splits option.splits)

lemma tick_line_ops:
  "raw_ops (dict_get (tick_line l procs) k empty_raw) =
   raw_ops (dict_get procs k empty_raw) + printed_ops k [l]"
proof (cases "RE_PROC_OPS (strip l)")
  case None
  then have "printed_ops k [l] = 0" by (simp add: printed_ops_def List.map_filter_simps)
  with None show ?thesis
    by (auto simp: tick_line_def Let_def in_slot_def dict_simps split: option.split)
next
  case (Some r)
  obtain ctrl tgid comm n where r: "r = (ctrl, tgid, comm, n)" by (cases r)
  from Some proc_ops_prefix r show ?thesis
    by (auto simp: tick_line_def Let_def in_slot_def dict_simps printed_ops_def List.map_filter_simps)
qed

lemma printed_ops_Cons: "printed_ops k (l # ls) = printed_ops k [l] + printed_ops k ls"
  by (simp add: printed_ops_def List.map_filter_simps split: option.split)

lemma fold_tick_ops:
  "raw_ops (dict_get (fold tick_line ls procs) k empty_raw) =
   raw_ops (dict_get procs k empty_raw) + printed_ops k ls"
proof (induction ls arbitrary: procs)
  case Nil
  then show ?case by (simp add: printed_ops_def List.map_filter_simps)
next
  case (Cons l ls)
  then show ?case by (simp add: tick_line_ops printed_ops_Cons [of k l ls])
qed

text \<open>
  The rate of a process.  Every entry's rate is the number of commands that the tick's
  \<open>@proc_ops\<close> lines print for this controller and process, over all its thread names.
\<close>

theorem process_rate_counts_ops:
  assumes "((ctrl, tgid), raw) \<in> set (parse_tick segment)"
  shows "ps_iops (to_stat ctrl tgid raw) = of_int (printed_ops (ctrl, tgid) (splitlines segment))"
proof -
  from assms dict_ok_parse_tick [of segment]
  have "dict_get (parse_tick segment) (ctrl, tgid) empty_raw = raw"
    by (simp add: dict_get_def dict_ok_def)
  with fold_tick_ops [of "splitlines segment" "[]" "(ctrl, tgid)"]
  have "raw_ops raw = printed_ops (ctrl, tgid) (splitlines segment)"
    by (simp add: parse_tick_def dict_get_def [of "[]"] empty_raw_def)
  then show ?thesis by (simp add: to_stat_def Let_def TICK_INTERVAL_SEC_def)
qed

theorem process_rate_counts_ops_witness:
  "ps_iops (to_stat 0 7 (empty_raw\<lparr>raw_comm := ''b'', raw_ops := 5\<rparr>)) =
   of_int (printed_ops (0, 7) (splitlines (''@proc_ops[0, 7, a]: 2'' @ [nl] @ ''@proc_ops[0, 7, b]: 3'')))"
  by (rule process_rate_counts_ops) code_simp

lemma hd_sort_desc:
  "xs \<noteq> [] \<Longrightarrow> hd (sort_key (\<lambda>kv. - snd kv) xs) \<in> set xs \<and>
     (\<forall>kv \<in> set xs. snd kv \<le> snd (hd (sort_key (\<lambda>kv. - (snd kv :: int)) xs)))"
proof -
  assume "xs \<noteq> []"
  let ?s = "sort_key (\<lambda>kv. - snd kv) xs"
  have ne: "?s \<noteq> []" using \<open>xs \<noteq> []\<close> by (metis length_0_conv length_sort)
  then have "hd ?s \<in> set xs" by (metis list.set_sel(1) set_sort)
  moreover have "snd kv \<le> snd (hd ?s)" if "kv \<in> set xs" for kv
  proof -
    from that have "kv \<in> set ?s" by simp
    moreover have "sorted (map (\<lambda>kv. - snd kv) ?s)" by simp
    ultimately show ?thesis using ne by (cases ?s) (auto simp: sorted_wrt_map)
  qed
  ultimately show ?thesis by blast
qed

text \<open>
  The dominant I/O size of an entry is a size of its distribution with the largest count.
\<close>

theorem dominant_size_is_mode:
  assumes "raw_sizes raw \<noteq> []"
  shows "\<exists>n. (ps_io_size_dominant (to_stat ctrl tgid raw), n) \<in> set (ps_io_size_hist (to_stat ctrl tgid raw)) \<and>
    (\<forall>(size', n') \<in> set (ps_io_size_hist (to_stat ctrl tgid raw)). n' \<le> n)"
proof -
  let ?h = "hd (sort_key (\<lambda>kv. - snd kv) (raw_sizes raw))"
  have "sort_key (\<lambda>kv. - snd kv) (raw_sizes raw) \<noteq> []"
    using assms by (metis length_0_conv length_sort)
  then have "ps_io_size_dominant (to_stat ctrl tgid raw) = fst ?h"
    by (simp add: to_stat_def Let_def)
  moreover have "set (ps_io_size_hist (to_stat ctrl tgid raw)) = set (raw_sizes raw)"
    by (simp add: to_stat_def Let_def)
  ultimately show ?thesis using hd_sort_desc [OF assms] by (intro exI [of _ "snd ?h"]) auto
qed

theorem dominant_size_is_mode_witness:
  "\<exists>n. (ps_io_size_dominant (to_stat 0 7 (empty_raw\<lparr>raw_sizes := [(4096, 2), (512, 9)]\<rparr>)), n) \<in>
    set (ps_io_size_hist (to_stat 0 7 (empty_raw\<lparr>raw_sizes := [(4096, 2), (512, 9)]\<rparr>)))"
  using dominant_size_is_mode [of "empty_raw\<lparr>raw_sizes := [(4096, 2), (512, 9)]\<rparr>" 0 7] by auto

end
