(* ===== verification/Adapters.thy ===== *)
theory Adapters
  imports ProcStats
begin

text \<open>
  The application adapters of \<open>backend/adapters/\<close>: the measured workload and its comparison with the
  expected one (\<open>base.py\<close>), the fio adapter with its command-line and job-file parsers (\<open>fio.py\<close>), the
  generic adapter (\<open>generic.py\<close>) and the selection (\<open>__init__.py\<close>).

  Files that fio names are read through a parameter that gives the content of a path, or \<open>None\<close> for
  an \<open>OSError\<close>.
\<close>

section \<open>Python helpers\<close>

text \<open>\<open>a or b\<close> on optional strings.\<close>

definition str_or :: "pystr option \<Rightarrow> pystr option \<Rightarrow> pystr option" where
  "str_or a b = (case a of None \<Rightarrow> b | Some s \<Rightarrow> if s = [] then b else a)"

definition lower_char :: "char \<Rightarrow> char" where
  "lower_char c = (if 65 \<le> (of_char c :: nat) \<and> (of_char c :: nat) \<le> 90
                   then char_of ((of_char c :: nat) + 32) else c)"

definition lower :: "pystr \<Rightarrow> pystr" where
  "lower s = map lower_char s"

definition ends_with :: "pystr \<Rightarrow> pystr \<Rightarrow> bool" where
  "ends_with s suf \<longleftrightarrow> suffix suf s"

definition lstrip_of :: "(char \<Rightarrow> bool) \<Rightarrow> pystr \<Rightarrow> pystr" where
  "lstrip_of P s = dropWhile P s"

definition strip_of :: "(char \<Rightarrow> bool) \<Rightarrow> pystr \<Rightarrow> pystr" where
  "strip_of P s = rev (dropWhile P (rev (dropWhile P s)))"

text \<open>\<open>s.split(c, 1)\<close> on a string that contains \<open>c\<close>, and \<open>s.partition(c)\<close> without the separator.\<close>

definition split_once :: "char \<Rightarrow> pystr \<Rightarrow> pystr \<times> pystr" where
  "split_once c s = (takeWhile (\<lambda>x. x \<noteq> c) s, tl (dropWhile (\<lambda>x. x \<noteq> c) s))"

text \<open>\<open>os.path.basename\<close>\<close>

definition basename :: "pystr \<Rightarrow> pystr" where
  "basename p = last (split_on (CHR ''/'') p)"

text \<open>\<open>s.split()\<close>: the maximal runs without white space.\<close>

fun split_ws_acc :: "pystr \<Rightarrow> pystr \<Rightarrow> pystr list" where
  "split_ws_acc acc [] = (if acc = [] then [] else [rev acc])"
| "split_ws_acc acc (x # xs) =
     (if is_space x then (if acc = [] then [] else [rev acc]) @ split_ws_acc [] xs
      else split_ws_acc (x # acc) xs)"

definition split_ws :: "pystr \<Rightarrow> pystr list" where
  "split_ws s = split_ws_acc [] s"

section \<open>Shell words\<close>

text \<open>
  \<open>shlex.split\<close> in POSIX mode as the state machine of the library: between words, inside a word, inside
  quotes, and after a backslash, which remembers where to return.  \<open>None\<close> is the \<open>ValueError\<close> of an
  open quotation or a trailing backslash.
\<close>

datatype lex_state = Between | InWord | InQuote char | Escape "char option"

definition is_shell_space :: "char \<Rightarrow> bool" where
  "is_shell_space c \<longleftrightarrow> c \<in> {CHR '' '', CHR 0x09, CHR 0x0D, CHR 0x0A}"

definition squote :: char where "squote = CHR 0x27"
definition dquote :: char where "dquote = CHR 0x22"
definition backslash :: char where "backslash = CHR 0x5C"

text \<open>\<open>shlex_go st tok quoted s\<close>: \<open>tok\<close> is the current word, reversed.\<close>

fun shlex_go :: "lex_state \<Rightarrow> pystr \<Rightarrow> bool \<Rightarrow> pystr \<Rightarrow> pystr list option" where
  "shlex_go Between tok quoted [] = Some []"
| "shlex_go Between tok quoted (c # cs) =
     (if is_shell_space c then shlex_go Between [] False cs
      else if c = backslash then shlex_go (Escape None) [] False cs
      else if c = squote \<or> c = dquote then shlex_go (InQuote c) [] False cs
      else shlex_go InWord [c] False cs)"
| "shlex_go InWord tok quoted [] = Some (if tok = [] \<and> \<not> quoted then [] else [rev tok])"
| "shlex_go InWord tok quoted (c # cs) =
     (if is_shell_space c then
        (if tok \<noteq> [] \<or> quoted then map_option (Cons (rev tok)) (shlex_go Between [] False cs)
         else shlex_go Between [] False cs)
      else if c = squote \<or> c = dquote then shlex_go (InQuote c) tok quoted cs
      else if c = backslash then shlex_go (Escape None) tok quoted cs
      else shlex_go InWord (c # tok) quoted cs)"
| "shlex_go (InQuote q) tok quoted [] = None"
| "shlex_go (InQuote q) tok quoted (c # cs) =
     (if c = q then shlex_go InWord tok True cs
      else if c = backslash \<and> q = dquote then shlex_go (Escape (Some q)) tok True cs
      else shlex_go (InQuote q) (c # tok) True cs)"
| "shlex_go (Escape r) tok quoted [] = None"
| "shlex_go (Escape None) tok quoted (c # cs) = shlex_go InWord (c # tok) quoted cs"
| "shlex_go (Escape (Some q)) tok quoted (c # cs) =
     (if c \<noteq> backslash \<and> c \<noteq> q then shlex_go (InQuote q) (c # backslash # tok) quoted cs
      else shlex_go (InQuote q) (c # tok) quoted cs)"

definition shlex_split :: "pystr \<Rightarrow> pystr list option" where
  "shlex_split s = shlex_go Between [] False s"

section \<open>Measured workload\<close>

text \<open>\<open>max(items, key=count)[0]\<close>: the first item with the largest count.\<close>

fun max_item :: "(int \<times> int) \<Rightarrow> (int \<times> int) list \<Rightarrow> int" where
  "max_item best [] = fst best"
| "max_item best (kv # kvs) = max_item (if snd kv > snd best then kv else best) kvs"

definition empty_workload :: MeasuredWorkload where
  "empty_workload =
     \<lparr>mw_io_size_dominant = 0, mw_read_ratio = 0, mw_write_ratio = 0, mw_queue_depth_avg = 0,
      mw_iops = 0, mw_bandwidth_bps = 0\<rparr>"

definition size_table :: "ProcessIoStat list \<Rightarrow> (int, int) dict" where
  "size_table stats =
     fold (\<lambda>(size', n) m. AList.update size' (dict_get m size' 0 + n) m)
       (concat (map ps_io_size_hist stats)) []"

definition measured_from_stats :: "ProcessIoStat list \<Rightarrow> int list option \<Rightarrow> MeasuredWorkload" where
  "measured_from_stats stats tids =
     (if stats = [] then empty_workload
      else
        (let total_iops = (\<Sum>s\<leftarrow>stats. ps_iops s);
             share = (case tids of
                        None \<Rightarrow> 1
                      | Some ts \<Rightarrow>
                          (let thread_iops = (\<Sum>t\<leftarrow>concat (map ps_threads stats).
                                 if ts_tid t \<in> set ts then ts_iops t else 0)
                           in if total_iops \<noteq> 0 then thread_iops / total_iops else 0));
             read = (\<Sum>s\<leftarrow>stats. ps_read_iops s) * share;
             write = (\<Sum>s\<leftarrow>stats. ps_write_iops s) * share;
             rw_total = read + write;
             hist = size_table stats;
             dominant = (case hist of [] \<Rightarrow> 0 | kv # kvs \<Rightarrow> max_item kv kvs)
         in \<lparr>mw_io_size_dominant = dominant,
             mw_read_ratio = (if rw_total \<noteq> 0 then read / rw_total else 0),
             mw_write_ratio = (if rw_total \<noteq> 0 then write / rw_total else 0),
             mw_queue_depth_avg = (\<Sum>s\<leftarrow>stats. ps_queue_depth_est s) * share,
             mw_iops = total_iops * share,
             mw_bandwidth_bps = (\<Sum>s\<leftarrow>stats. ps_bandwidth_bps s) * share\<rparr>))"

section \<open>Expected against measured\<close>

definition size_reasons :: "WorkloadSpec \<Rightarrow> MeasuredWorkload \<Rightarrow> message list" where
  "size_reasons expected measured =
     (case ws_io_size expected of
        None \<Rightarrow> []
      | Some n \<Rightarrow>
          if n \<noteq> 0 \<and> mw_io_size_dominant measured \<noteq> 0 \<and> n \<noteq> mw_io_size_dominant measured
          then [MsgIoSize n (mw_io_size_dominant measured)] else [])"

definition rw_reasons :: "WorkloadSpec \<Rightarrow> MeasuredWorkload \<Rightarrow> message list" where
  "rw_reasons expected measured =
     (case ws_rw expected of
        None \<Rightarrow> []
      | Some rw0 \<Rightarrow>
          if rw0 = [] then []
          else
            (let rw = lower rw0;
                 both = rw \<in> {''randrw'', ''rw'', ''readwrite''};
                 want_read = sublist ''read'' rw \<or> both;
                 want_write = sublist ''write'' rw \<or> both
             in (if want_read \<and> \<not> want_write \<and> mw_write_ratio measured > 5 / 100
                 then [MsgWriteInRead rw0 (mw_write_ratio measured)] else []) @
                (if want_write \<and> \<not> want_read \<and> mw_read_ratio measured > 5 / 100
                 then [MsgReadInWrite rw0 (mw_read_ratio measured)] else [])))"

definition depth_reasons :: "WorkloadSpec \<Rightarrow> MeasuredWorkload \<Rightarrow> message list" where
  "depth_reasons expected measured =
     (case ws_queue_depth expected of
        None \<Rightarrow> []
      | Some d \<Rightarrow>
          if d \<noteq> 0 \<and> mw_queue_depth_avg measured \<noteq> 0 \<and>
             \<not> (of_int d * (7 / 10) \<le> mw_queue_depth_avg measured \<and>
                mw_queue_depth_avg measured \<le> of_int d * (13 / 10))
          then [MsgQueueDepth d (mw_queue_depth_avg measured)] else [])"

definition pattern_reasons :: "WorkloadSpec \<Rightarrow> pyfloat option \<Rightarrow> message list" where
  "pattern_reasons expected seq_ratio =
     (case (ws_pattern expected, seq_ratio) of
        (Some pat, Some r) \<Rightarrow>
          (let got = (if r \<ge> 8 / 10 then ''sequential'' else if r \<le> 2 / 10 then ''random'' else ''mixed'')
           in if pat \<noteq> [] \<and> got \<noteq> pat then [MsgPattern pat got r] else [])
      | _ \<Rightarrow> [])"

definition compare ::
  "WorkloadSpec option \<Rightarrow> MeasuredWorkload \<Rightarrow> pyfloat option \<Rightarrow> bool option \<times> message list" where
  "compare expected measured seq_ratio =
     (case expected of
        None \<Rightarrow> (None, [])
      | Some e \<Rightarrow>
          if mw_iops measured \<le> 0 \<and> mw_io_size_dominant measured = 0 then (None, [MsgNoIoYet])
          else
            (let reasons = size_reasons e measured @ rw_reasons e measured @
                   depth_reasons e measured @ pattern_reasons e seq_ratio
             in (Some (reasons = []), reasons)))"

section \<open>The fio adapter\<close>

type_synonym opts = "(pystr, pystr) dict"
type_synonym files = "pystr \<Rightarrow> pybytes option"

definition FIO_SIZE_MULT :: "(char, int) dict" where
  "FIO_SIZE_MULT = [(CHR ''k'', 1024), (CHR ''m'', 1024 * 1024), (CHR ''g'', 1024 ^ 3), (CHR ''b'', 1)]"

text \<open>The tail of the pattern behind the unit letter: \<open>i?[bB]?\<close> up to the end.\<close>

definition unit_tail :: "pystr \<Rightarrow> bool" where
  "unit_tail r \<longleftrightarrow>
     (let r1 = (case r of [] \<Rightarrow> [] | c # cs \<Rightarrow> if c = CHR ''i'' then cs else r)
      in r1 = [] \<or> r1 = ''b'' \<or> r1 = ''B'')"

definition parse_size :: "pystr \<Rightarrow> int option" where
  "parse_size txt =
     (if txt = [] then None
      else
        (case take_dec (strip txt) of
           None \<Rightarrow> None
         | Some (n, r0) \<Rightarrow>
             (case dropWhile is_space r0 of
                [] \<Rightarrow> Some n
              | c # cs \<Rightarrow>
                  (case map_of FIO_SIZE_MULT (lower_char c) of
                     Some k \<Rightarrow> if unit_tail cs then Some (n * k) else None
                   | None \<Rightarrow> if unit_tail (c # cs) then Some n else None))))"

definition pattern_of :: "pystr option \<Rightarrow> pystr option" where
  "pattern_of rw =
     (case rw of
        None \<Rightarrow> None
      | Some s \<Rightarrow> if s = [] then None
                  else Some (if prefix ''rand'' s then ''random'' else ''sequential''))"

record fio_parsed =
  fp_jobs :: "opts list"
  fp_jobfiles :: "pystr list"
  fp_globals :: opts

text \<open>
  One token.  The current job is the last one of the list: the source keeps a reference to it, so
  setting an option changes the listed job.
\<close>

definition fio_token :: "pystr \<Rightarrow> fio_parsed \<Rightarrow> fio_parsed" where
  "fio_token tok st =
     (if \<not> prefix ''-'' tok then
        (if ends_with tok ''.fio'' \<or> CHR ''='' \<notin> set tok
         then st\<lparr>fp_jobfiles := fp_jobfiles st @ [tok]\<rparr> else st)
      else
        (let body = lstrip_of (\<lambda>c. c = CHR ''-'') tok;
             (key0, val) = (if CHR ''='' \<in> set body then split_once (CHR ''='') body else (body, ''1''));
             key = strip key0
         in if key = ''name''
            then st\<lparr>fp_jobs := fp_jobs st @ [AList.update ''name'' val (fp_globals st)]\<rparr>
            else if fp_jobs st \<noteq> []
            then st\<lparr>fp_jobs := butlast (fp_jobs st) @ [AList.update key val (last (fp_jobs st))]\<rparr>
            else st\<lparr>fp_globals := AList.update key val (fp_globals st)\<rparr>))"

definition parse_fio_cmdline :: "pystr \<Rightarrow> fio_parsed" where
  "parse_fio_cmdline cmdline =
     (let tokens = (case shlex_split cmdline of Some ts \<Rightarrow> ts | None \<Rightarrow> split_ws cmdline)
      in fold fio_token (drop 1 tokens) \<lparr>fp_jobs = [], fp_jobfiles = [], fp_globals = []\<rparr>)"

definition is_decimal :: "pystr \<Rightarrow> bool" where
  "is_decimal s \<longleftrightarrow> s \<noteq> [] \<and> list_all is_digit s"

definition int_opt :: "opts \<Rightarrow> pystr \<Rightarrow> int option" where
  "int_opt opts key =
     (let s = dict_get opts key [] in if is_decimal s then Some (int (dec_val s)) else None)"

definition spec_from_opts :: "opts \<Rightarrow> WorkloadSpec" where
  "spec_from_opts opts =
     (let rw = str_or (map_of opts ''rw'') (map_of opts ''readwrite'');
          direct = map_of opts ''direct'';
          runtime = dict_get opts ''runtime'' []
      in \<lparr>ws_io_size = parse_size (dict_get opts ''bs'' []), ws_rw = rw,
          ws_pattern = pattern_of rw, ws_queue_depth = int_opt opts ''iodepth'',
          ws_ioengine = map_of opts ''ioengine'',
          ws_direct = Some (direct \<notin> {None, Some ''0'', Some ''false''}),
          ws_filename = str_or (map_of opts ''filename'') (map_of opts ''directory''),
          ws_numjobs = int_opt opts ''numjobs'',
          ws_runtime_sec = (if list_ex is_digit runtime
                            then Some (int (dec_val (filter is_digit runtime))) else None)\<rparr>)"

text \<open>One line of a job file; the state is the job list, the global options and whether a job is open.\<close>

record job_file =
  jf_jobs :: "opts list"
  jf_globals :: opts
  jf_open :: bool

definition job_file_line :: "pystr \<Rightarrow> job_file \<Rightarrow> job_file" where
  "job_file_line raw st =
     (let line = strip (hd (split_on (CHR ''#'') (hd (split_on (CHR '';'') raw))))
      in if line = [] then st
         else if prefix ''['' line \<and> ends_with line '']'' then
           (let name = strip (butlast (tl line))
            in if lower name = ''global'' then st\<lparr>jf_open := False\<rparr>
               else st\<lparr>jf_jobs := jf_jobs st @ [AList.update ''name'' name (jf_globals st)],
                       jf_open := True\<rparr>)
         else
           (let (key0, val0) = split_once (CHR ''='') line;
                key = strip key0; val = strip val0; v = (if val = [] then ''1'' else val)
            in if jf_open st
               then st\<lparr>jf_jobs := butlast (jf_jobs st) @ [AList.update key v (last (jf_jobs st))]\<rparr>
               else st\<lparr>jf_globals := AList.update key v (jf_globals st)\<rparr>))"

definition parse_job_file :: "files \<Rightarrow> pystr \<Rightarrow> opts list" where
  "parse_job_file fs path =
     (case fs path of
        None \<Rightarrow> []
      | Some content \<Rightarrow>
          jf_jobs (fold job_file_line (splitlines (universal_newlines (utf8_replace content)))
            \<lparr>jf_jobs = [], jf_globals = [], jf_open = False\<rparr>))"

definition fio_matches :: "ProcessInfo \<Rightarrow> bool" where
  "fio_matches proc \<longleftrightarrow>
     (if pi_comm proc = ''fio'' \<or> basename (pi_exe_path proc) = ''fio'' then True
      else basename (fst (split_once (CHR '' '') (pi_cmdline proc))) = ''fio'')"

fun first_jobs :: "files \<Rightarrow> pystr list \<Rightarrow> opts list" where
  "first_jobs fs [] = []"
| "first_jobs fs (path # paths) =
     (let jobs = parse_job_file fs path in if jobs \<noteq> [] then jobs else first_jobs fs paths)"

definition fio_jobs :: "files \<Rightarrow> ProcessInfo \<Rightarrow> opts list" where
  "fio_jobs fs proc =
     (let parsed = parse_fio_cmdline (pi_cmdline proc)
      in if fp_jobs parsed \<noteq> [] then fp_jobs parsed else first_jobs fs (fp_jobfiles parsed))"

definition fio_expected_workload :: "files \<Rightarrow> ProcessInfo \<Rightarrow> WorkloadSpec option" where
  "fio_expected_workload fs proc =
     (let jobs = fio_jobs fs proc in if jobs = [] then None else Some (spec_from_opts (hd jobs)))"

definition job_tids :: "(int, pystr) dict \<Rightarrow> pystr \<Rightarrow> int list" where
  "job_tids thread_comm job_name =
     map fst (filter (\<lambda>(t, c). c \<noteq> [] \<and> (prefix c job_name \<or> prefix (take 15 job_name) c)) thread_comm)"

text \<open>The loop over the jobs; \<open>assigned\<close> are the threads taken by earlier jobs.\<close>

fun fio_groups ::
  "ProcessIoStat list \<Rightarrow> int list \<Rightarrow> (int, pystr) dict \<Rightarrow> bool \<Rightarrow> int list \<Rightarrow> opts list \<Rightarrow> LogicalGroup list"
where
  "fio_groups stats all_tids thread_comm single assigned [] = []"
| "fio_groups stats all_tids thread_comm single assigned (job # jobs) =
     (let job_name = dict_get job ''name'' ''job'';
          tids0 = filter (\<lambda>t. t \<notin> set assigned) (job_tids thread_comm job_name);
          tids = (if tids0 = [] \<and> single then filter (\<lambda>t. t \<notin> set assigned) all_tids else tids0);
          spec = spec_from_opts job;
          measured = measured_from_stats stats (if single then None else Some tids);
          seq_ratio = (if stats = [] then None else ps_seq_ratio (hd stats));
          (ok, reasons) = compare (Some spec) measured seq_ratio
      in \<lparr>lg_name = job_name, lg_type = ''fio_job'', lg_source = ''cmdline_parse'',
          lg_thread_tids = sort tids, lg_expected_workload = Some spec,
          lg_measured_workload = Some measured, lg_expectation_match = ok,
          lg_mismatch_reasons = reasons, lg_inferred = False, lg_progress_pct = None\<rparr> #
         fio_groups stats all_tids thread_comm single (assigned @ tids) jobs)"

definition fio_logical_groups :: "files \<Rightarrow> ProcessInfo \<Rightarrow> ProcessIoStat list \<Rightarrow> LogicalGroup list" where
  "fio_logical_groups fs proc stats =
     (let jobs = fio_jobs fs proc; all_tids = map fst (pi_threads proc)
      in if jobs = [] then
           [\<lparr>lg_name = (if pi_comm proc \<noteq> [] then pi_comm proc else ''fio''), lg_type = ''fio_job'',
             lg_source = ''cmdline_parse'', lg_thread_tids = all_tids, lg_expected_workload = None,
             lg_measured_workload = Some (measured_from_stats stats None),
             lg_expectation_match = None, lg_mismatch_reasons = [MsgNoJobs], lg_inferred = False,
             lg_progress_pct = None\<rparr>]
         else
           (let thread_comm = fold (\<lambda>(t, c) m. AList.update t c m) (pi_threads proc) []
            in fio_groups stats all_tids thread_comm (length jobs = 1) [] jobs))"

section \<open>The generic adapter\<close>

text \<open>\<open>_SUFFIX_RE.sub("", comm)\<close>: a trailing number goes, with one \<open>-\<close> or \<open>_\<close> before it; a final
  newline is left in place.\<close>

definition drop_number :: "pystr \<Rightarrow> pystr" where
  "drop_number s =
     (let r = rev s; r1 = dropWhile is_digit r
      in if length r1 = length r then s
         else case r1 of
                [] \<Rightarrow> []
              | c # cs \<Rightarrow> if c = CHR ''-'' \<or> c = CHR ''_'' then rev cs else rev r1)"

definition suffix_sub :: "pystr \<Rightarrow> pystr" where
  "suffix_sub s = (if s \<noteq> [] \<and> last s = nl then drop_number (butlast s) @ [nl] else drop_number s)"

definition group_key :: "pystr \<Rightarrow> pystr" where
  "group_key comm =
     (let base = strip_of (\<lambda>c. c = CHR ''-'' \<or> c = CHR ''_'') (suffix_sub comm)
      in if base \<noteq> [] then base else comm)"

definition infer_role :: "ProcessIoStat option \<Rightarrow> io_role" where
  "infer_role stat =
     (case stat of
        None \<Rightarrow> RoleNoIo
      | Some st \<Rightarrow>
          if ps_iops st \<le> 0 then RoleNoIo
          else
            (let rw_total = ps_read_iops st + ps_write_iops st
             in if rw_total \<le> 0 then RoleAdminOnly
                else
                  (let write_share = ps_write_iops st / rw_total;
                       seq_high = (case ps_seq_ratio st of None \<Rightarrow> False | Some r \<Rightarrow> r \<ge> 8 / 10);
                       seq_low = (case ps_seq_ratio st of None \<Rightarrow> False | Some r \<Rightarrow> r \<le> 2 / 10)
                   in if write_share \<ge> 8 / 10 then
                        (if seq_high then RoleSequentialWrite
                         else if seq_low then RoleRandomWrite else RoleWriteMostly)
                      else if write_share \<le> 2 / 10 then
                        (if seq_low then RoleRandomRead
                         else if seq_high then RoleSequentialRead else RoleReadMostly)
                      else RoleMixed)))"

definition thread_buckets :: "ProcessInfo \<Rightarrow> (pystr, int list) dict" where
  "thread_buckets proc =
     (let buckets = fold (\<lambda>(tid, comm) m.
            AList.update (group_key comm) (dict_get m (group_key comm) [] @ [tid]) m) (pi_threads proc) []
      in if buckets = []
         then [(if pi_comm proc \<noteq> [] then pi_comm proc else ''pid'' @ int_dec (pi_pid proc), [pi_pid proc])]
         else buckets)"

definition generic_logical_groups :: "ProcessInfo \<Rightarrow> ProcessIoStat list \<Rightarrow> LogicalGroup list" where
  "generic_logical_groups proc stats =
     (let buckets = thread_buckets proc;
          role = infer_role (if stats = [] then None else Some (hd stats))
      in map (\<lambda>(name, tids).
           \<lparr>lg_name = (if length tids = 1 then name else name @ ''_*''), lg_type = ''thread_prefix'',
            lg_source = ''comm_prefix'', lg_thread_tids = sort tids, lg_expected_workload = None,
            lg_measured_workload = Some (measured_from_stats stats
              (if length buckets > 1 then Some tids else None)),
            lg_expectation_match = None, lg_mismatch_reasons = [MsgRole role], lg_inferred = True,
            lg_progress_pct = None\<rparr>)
         (sort_key fst buckets))"

section \<open>Selection\<close>

datatype AppAdapter = FioAdapter | GenericAdapter

fun adapter_name :: "AppAdapter \<Rightarrow> pystr" where
  "adapter_name FioAdapter = ''fio''"
| "adapter_name GenericAdapter = ''generic''"

fun adapter_matches :: "AppAdapter \<Rightarrow> ProcessInfo \<Rightarrow> bool" where
  "adapter_matches FioAdapter proc = fio_matches proc"
| "adapter_matches GenericAdapter proc = True"

fun get_expected_workload :: "AppAdapter \<Rightarrow> files \<Rightarrow> ProcessInfo \<Rightarrow> WorkloadSpec option" where
  "get_expected_workload FioAdapter fs proc = fio_expected_workload fs proc"
| "get_expected_workload GenericAdapter fs proc = None"

fun get_logical_groups ::
  "AppAdapter \<Rightarrow> files \<Rightarrow> ProcessInfo \<Rightarrow> ProcessIoStat list \<Rightarrow> LogicalGroup list" where
  "get_logical_groups FioAdapter fs proc stats = fio_logical_groups fs proc stats"
| "get_logical_groups GenericAdapter fs proc stats = generic_logical_groups proc stats"

definition ADAPTERS :: "AppAdapter list" where
  "ADAPTERS = [FioAdapter, GenericAdapter]"

definition available_adapters :: "pystr list" where
  "available_adapters = map adapter_name ADAPTERS"

definition select_adapter :: "ProcessInfo \<Rightarrow> pystr option \<Rightarrow> AppAdapter" where
  "select_adapter proc explicit =
     (case str_or explicit None of
        Some name \<Rightarrow>
          (case find (\<lambda>a. adapter_name a = name) ADAPTERS of Some a \<Rightarrow> a | None \<Rightarrow> GenericAdapter)
      | None \<Rightarrow>
          (case find (\<lambda>a. adapter_matches a proc) ADAPTERS of Some a \<Rightarrow> a | None \<Rightarrow> GenericAdapter))"

section \<open>Plain command lines\<close>

text \<open>Words without quoting, joined by single spaces.\<close>

definition plain_char :: "char \<Rightarrow> bool" where
  "plain_char c \<longleftrightarrow> \<not> is_shell_space c \<and> c \<noteq> squote \<and> c \<noteq> dquote \<and> c \<noteq> backslash"

definition plain_word :: "pystr \<Rightarrow> bool" where
  "plain_word w \<longleftrightarrow> w \<noteq> [] \<and> list_all plain_char w"

fun unwords :: "pystr list \<Rightarrow> pystr" where
  "unwords [] = []"
| "unwords [w] = w"
| "unwords (w # ws) = w @ '' '' @ unwords ws"

lemma shlex_plain_tail:
  "list_all plain_char w \<Longrightarrow> shlex_go InWord tok q (w @ rest) = shlex_go InWord (rev w @ tok) q rest"
  by (induction w arbitrary: tok) (auto simp: plain_char_def)

lemma shlex_plain_word:
  assumes "plain_word w"
  shows "shlex_go Between [] False (w @ rest) = shlex_go InWord (rev w) False rest"
proof -
  from assms obtain c cs where w: "w = c # cs" "plain_char c" "list_all plain_char cs"
    by (cases w) (auto simp: plain_word_def)
  then show ?thesis using shlex_plain_tail [of cs "[c]" False rest] by (simp add: plain_char_def)
qed

lemma shlex_unwords: "\<forall>w \<in> set ws. plain_word w \<Longrightarrow> shlex_split (unwords ws) = Some ws"
  unfolding shlex_split_def
proof (induction ws rule: unwords.induct)
  case 1
  then show ?case by simp
next
  case (2 w)
  then show ?case using shlex_plain_word [of w "[]"] by (simp add: plain_word_def)
next
  case (3 w v ws)
  then have "shlex_go Between [] False (w @ '' '' @ unwords (v # ws)) =
      map_option (Cons w) (shlex_go Between [] False (unwords (v # ws)))"
    using shlex_plain_word [of w "'' '' @ unwords (v # ws)"]
    by (simp add: plain_word_def is_shell_space_def)
  with 3 show ?case by simp
qed

section \<open>Job options\<close>

definition opt_token :: "pystr \<times> pystr \<Rightarrow> pystr" where
  "opt_token = (\<lambda>(k, v). ''--'' @ k @ ''='' @ v)"

definition name_token :: "pystr \<Rightarrow> pystr" where
  "name_token n = ''--name='' @ n"

definition option_key :: "pystr \<Rightarrow> bool" where
  "option_key k \<longleftrightarrow> k \<noteq> [] \<and> hd k \<noteq> CHR ''-'' \<and> CHR ''='' \<notin> set k \<and> strip k = k \<and> k \<noteq> ''name''"

definition set_opts :: "(pystr \<times> pystr) list \<Rightarrow> opts \<Rightarrow> opts" where
  "set_opts kvs d = fold (\<lambda>(k, v) d. AList.update k v d) kvs d"

lemma split_once_eq: "c \<notin> set k \<Longrightarrow> split_once c (k @ c # v) = (k, v)"
  by (induction k) (auto simp: split_once_def)

lemma fio_token_option:
  assumes "option_key k"
  shows "fio_token (opt_token (k, v)) st =
    (if fp_jobs st \<noteq> []
     then st\<lparr>fp_jobs := butlast (fp_jobs st) @ [AList.update k v (last (fp_jobs st))]\<rparr>
     else st\<lparr>fp_globals := AList.update k v (fp_globals st)\<rparr>)"
proof -
  have "lstrip_of (\<lambda>c. c = CHR ''-'') (opt_token (k, v)) = k @ CHR ''='' # v"
    using assms by (cases k) (auto simp: lstrip_of_def opt_token_def option_key_def)
  moreover have "prefix ''-'' (opt_token (k, v))" by (simp add: opt_token_def)
  ultimately show ?thesis
    using assms by (simp add: fio_token_def Let_def split_once_eq option_key_def)
qed

lemma fio_token_name:
  "fio_token (name_token n) st =
     st\<lparr>fp_jobs := fp_jobs st @ [AList.update ''name'' n (fp_globals st)]\<rparr>"
proof -
  have "strip ''name'' = ''name''" by (rule strip_id) (simp_all add: is_space_def)
  then show ?thesis
    using split_once_eq [of "CHR ''=''" "''name''" n]
    by (simp add: fio_token_def name_token_def lstrip_of_def Let_def)
qed

lemma fio_job_options:
  "\<lbrakk>\<forall>(k, v) \<in> set kvs. option_key k; fp_jobs st = js @ [j]\<rbrakk> \<Longrightarrow>
   fold fio_token (map opt_token kvs) st = st\<lparr>fp_jobs := js @ [set_opts kvs j]\<rparr>"
proof (induction kvs arbitrary: st j)
  case Nil
  then show ?case by (simp add: set_opts_def)
next
  case (Cons kv kvs)
  obtain k v where kv: "kv = (k, v)" by (cases kv)
  with Cons.prems have "fio_token (opt_token (k, v)) st = st\<lparr>fp_jobs := js @ [AList.update k v j]\<rparr>"
    using fio_token_option [of k v st] by simp
  with Cons kv show ?case by (simp add: set_opts_def)
qed

lemma fio_global_options:
  "\<lbrakk>\<forall>(k, v) \<in> set kvs. option_key k; fp_jobs st = []\<rbrakk> \<Longrightarrow>
   fold fio_token (map opt_token kvs) st = st\<lparr>fp_globals := set_opts kvs (fp_globals st)\<rparr>"
proof (induction kvs arbitrary: st)
  case Nil
  then show ?case by (simp add: set_opts_def)
next
  case (Cons kv kvs)
  obtain k v where kv: "kv = (k, v)" by (cases kv)
  with Cons.prems have "fio_token (opt_token (k, v)) st = st\<lparr>fp_globals := AList.update k v (fp_globals st)\<rparr>"
    using fio_token_option [of k v st] by simp
  with Cons kv show ?case by (simp add: set_opts_def)
qed

definition job_tokens :: "pystr \<times> (pystr \<times> pystr) list \<Rightarrow> pystr list" where
  "job_tokens = (\<lambda>(n, kvs). name_token n # map opt_token kvs)"

lemma fio_job_tokens:
  "\<forall>(n, kvs) \<in> set jobs. \<forall>(k, v) \<in> set kvs. option_key k \<Longrightarrow>
   fold fio_token (concat (map job_tokens jobs)) st =
     st\<lparr>fp_jobs := fp_jobs st @
          map (\<lambda>(n, kvs). set_opts kvs (AList.update ''name'' n (fp_globals st))) jobs\<rparr>"
proof (induction jobs arbitrary: st)
  case (Cons job jobs)
  obtain n kvs where job: "job = (n, kvs)" by (cases job)
  let ?j = "AList.update ''name'' n (fp_globals st)"
  have "fold fio_token (job_tokens job) st = st\<lparr>fp_jobs := fp_jobs st @ [set_opts kvs ?j]\<rparr>"
    using fio_job_options [of kvs "fio_token (name_token n) st" "fp_jobs st" ?j] Cons.prems job
    by (simp add: job_tokens_def fio_token_name)
  with Cons job show ?case by simp
qed simp

text \<open>
  The meaning of a fio command line.  For a command line of plain words, the options before the first
  \<open>--name\<close> are the defaults of every job, each \<open>--name\<close> opens a job, and the options behind it
  override the defaults for this job only.
\<close>

theorem fio_cmdline_jobs:
  assumes "\<forall>(k, v) \<in> set globals. option_key k"
    and "\<forall>(n, kvs) \<in> set jobs. \<forall>(k, v) \<in> set kvs. option_key k"
    and "\<forall>w \<in> set (exe # map opt_token globals @ concat (map job_tokens jobs)). plain_word w"
  shows "fp_jobs (parse_fio_cmdline
      (unwords (exe # map opt_token globals @ concat (map job_tokens jobs)))) =
    map (\<lambda>(n, kvs). set_opts kvs (AList.update ''name'' n (set_opts globals []))) jobs"
  using shlex_unwords [OF assms(3)] fio_job_tokens [OF assms(2)]
  by (simp add: parse_fio_cmdline_def fio_global_options [OF assms(1)])

theorem fio_cmdline_jobs_witness:
  "fp_jobs (parse_fio_cmdline ''fio --bs=4k --name=a --rw=read --name=b --bs=8k'') =
   [[(''bs'', ''4k''), (''name'', ''a''), (''rw'', ''read'')], [(''bs'', ''8k''), (''name'', ''b'')]]"
proof -
  let ?g = "[(''bs'', ''4k'')]" and ?js = "[(''a'', [(''rw'', ''read'')]), (''b'', [(''bs'', ''8k'')])]"
  have keys: "option_key ''bs''" "option_key ''rw''" by code_simp+
  have "fp_jobs (parse_fio_cmdline
      (unwords (''fio'' # map opt_token ?g @ concat (map job_tokens ?js)))) =
    map (\<lambda>(n, kvs). set_opts kvs (AList.update ''name'' n (set_opts ?g []))) ?js"
    by (rule fio_cmdline_jobs)
      (simp_all add: keys opt_token_def job_tokens_def name_token_def plain_word_def plain_char_def
        is_shell_space_def squote_def dquote_def backslash_def)
  moreover have "unwords (''fio'' # map opt_token ?g @ concat (map job_tokens ?js)) =
      ''fio --bs=4k --name=a --rw=read --name=b --bs=8k''" by code_simp
  moreover have "map (\<lambda>(n, kvs). set_opts kvs (AList.update ''name'' n (set_opts ?g []))) ?js =
      [[(''bs'', ''4k''), (''name'', ''a''), (''rw'', ''read'')], [(''bs'', ''8k''), (''name'', ''b'')]]"
    by code_simp
  ultimately show ?thesis by simp
qed

section \<open>Grouping of threads\<close>

lemma fio_groups_disjoint:
  assumes "distinct (map fst tc)" "distinct all" "set (map fst tc) \<subseteq> set all"
  shows "distinct (concat (map lg_thread_tids (fio_groups stats all tc single assigned jobs))) \<and>
    set (concat (map lg_thread_tids (fio_groups stats all tc single assigned jobs))) \<subseteq> set all - set assigned"
proof (induction jobs arbitrary: assigned)
  case (Cons job jobs)
  define tids where "tids =
    (let tids0 = filter (\<lambda>t. t \<notin> set assigned) (job_tids tc (dict_get job ''name'' ''job''))
     in if tids0 = [] \<and> single then filter (\<lambda>t. t \<notin> set assigned) all else tids0)"
  have sub: "set tids \<subseteq> set all - set assigned" and dist: "distinct tids"
    using assms by (auto simp: tids_def job_tids_def Let_def distinct_map_filter)
  have "map lg_thread_tids (fio_groups stats all tc single assigned (job # jobs)) =
      sort tids # map lg_thread_tids (fio_groups stats all tc single (assigned @ tids) jobs)"
    by (simp add: tids_def Let_def split: prod.split)
  with Cons [of "assigned @ tids"] sub dist show ?case by auto
qed simp

lemma thread_table:
  "dict_ok m \<Longrightarrow> dict_ok (fold (\<lambda>(t, c) m. AList.update t c m) ts m) \<and>
   set (map fst (fold (\<lambda>(t, c) m. AList.update t c m) ts m)) = set (map fst m) \<union> set (map fst ts)"
proof (induction ts arbitrary: m)
  case (Cons tc ts)
  obtain t c where "tc = (t, c)" by (cases tc)
  with Cons.IH [of "AList.update t c m"] Cons.prems show ?case
    by (simp add: dict_ok_update) (simp add: set_update_add [of t c m, simplified])
qed simp

text \<open>
  A fio process's threads are never counted twice: the thread lists of its job groups are pairwise
  disjoint and without repetition, and hold only threads of the process.
\<close>

theorem fio_threads_once:
  assumes "distinct (map fst (pi_threads proc))"
  shows "distinct (concat (map lg_thread_tids (fio_logical_groups fs proc stats))) \<and>
    set (concat (map lg_thread_tids (fio_logical_groups fs proc stats))) \<subseteq> set (map fst (pi_threads proc))"
proof -
  let ?tc = "fold (\<lambda>(t, c) m. AList.update t c m) (pi_threads proc) []"
  have tc: "distinct (map fst ?tc)" "set (map fst ?tc) \<subseteq> set (map fst (pi_threads proc))"
    using thread_table [of "[]" "pi_threads proc"] by (simp_all add: dict_ok_def)
  show ?thesis
    using assms fio_groups_disjoint [OF tc(1) assms tc(2), of stats _ "[]" "fio_jobs fs proc"]
    by (simp add: fio_logical_groups_def Let_def)
qed

definition sample_process :: ProcessInfo where
  "sample_process =
     \<lparr>pi_pid = 10, pi_comm = ''fio'', pi_cmdline = ''fio --name=a --name=b'', pi_exe_path = [],
      pi_uid = 0, pi_start_time_ns = 5, pi_thread_count = 3,
      pi_threads = [(10, ''fio''), (11, ''w_1''), (12, ''w_2'')], pi_state = [], pi_error = None\<rparr>"

theorem fio_threads_once_witness:
  "distinct (concat (map lg_thread_tids (fio_logical_groups (\<lambda>_. None) sample_process [])))"
  using fio_threads_once [of sample_process "\<lambda>_. None" "[]"] by (simp add: sample_process_def)

lemma update_snoc_mset:
  "mset (concat (map snd (AList.update k (dict_get m k [] @ [t]) m))) = add_mset t (mset (concat (map snd m)))"
  by (induction m) (auto simp: dict_get_def)

lemma thread_buckets_mset:
  "mset (concat (map snd (fold (\<lambda>(tid, comm) m.
      AList.update (group_key comm) (dict_get m (group_key comm) [] @ [tid]) m) ts m))) =
   mset (concat (map snd m)) + mset (map fst ts)"
proof (induction ts arbitrary: m)
  case (Cons tc ts)
  obtain t c where "tc = (t, c)" by (cases tc)
  with Cons show ?case by (simp add: update_snoc_mset)
qed simp

lemma fold_update_not_Nil: "ts \<noteq> [] \<Longrightarrow> fold (\<lambda>(t, c) m. AList.update (f c) (g t c m) m) ts m \<noteq> []"
proof (induction ts rule: rev_induct)
  case (snoc tc ts)
  have "AList.update k v m \<noteq> []" for k v and m :: "('c \<times> 'd) list" by (cases m) auto
  then show ?case by (cases tc) simp
qed simp

lemma thread_buckets_partition:
  "mset (concat (map snd (thread_buckets proc))) =
     (if pi_threads proc = [] then {#pi_pid proc#} else mset (map fst (pi_threads proc)))"
proof (cases "pi_threads proc = []")
  case True
  then show ?thesis by (simp add: thread_buckets_def)
next
  case False
  from fold_update_not_Nil [OF this, of group_key "\<lambda>t c m. dict_get m (group_key c) [] @ [t]" "[]"]
    thread_buckets_mset [of "pi_threads proc" "[]"] False
  show ?thesis by (simp add: thread_buckets_def Let_def)
qed

lemma mset_concat_sorted: "mset (concat (map (\<lambda>(n, ts). sort ts) xs)) = \<Sum>\<^sub># (mset (map (mset \<circ> snd) xs))"
  by (induction xs) auto

lemma mset_concat_snd: "mset (concat (map snd xs)) = \<Sum>\<^sub># (mset (map (mset \<circ> snd) xs))"
  by (induction xs) auto

lemma concat_sort_mset:
  "mset (concat (map (\<lambda>(n, ts). sort ts) (sort_key fst bs))) = mset (concat (map snd bs))"
  by (simp add: mset_concat_sorted mset_concat_snd)

lemma generic_group_tids:
  "map lg_thread_tids (generic_logical_groups proc stats) =
     map (\<lambda>(n, ts). sort ts) (sort_key fst (thread_buckets proc))"
  by (simp add: generic_logical_groups_def Let_def case_prod_unfold)

text \<open>
  The generic groups partition the threads: every thread of the process is in exactly one group
  (a process without a thread list forms one group of its own id).
\<close>

theorem generic_groups_partition:
  "mset (concat (map lg_thread_tids (generic_logical_groups proc stats))) =
     (if pi_threads proc = [] then {#pi_pid proc#} else mset (map fst (pi_threads proc)))"
  by (simp only: generic_group_tids concat_sort_mset thread_buckets_partition)

section \<open>Shares of the groups\<close>

lemma sum_over_disjoint:
  "distinct (concat tss) \<Longrightarrow>
   (\<Sum>ts\<leftarrow>tss. \<Sum>t\<leftarrow>T. if f t \<in> set ts then x t else 0) =
   (\<Sum>t\<leftarrow>T. if f t \<in> set (concat tss) then x t else (0 :: rat))"
proof (induction tss)
  case (Cons ts tss)
  have "(\<Sum>t\<leftarrow>T. if f t \<in> set ts then x t else 0) + (\<Sum>t\<leftarrow>T. if f t \<in> set (concat tss) then x t else 0) =
      (\<Sum>t\<leftarrow>T. if f t \<in> set ts \<or> f t \<in> set (concat tss) then x t else 0)"
    using Cons.prems by (induction T) (auto simp: disjoint_iff)
  with Cons show ?case by simp
qed simp

lemma measured_share_iops:
  assumes "stats \<noteq> []" "(\<Sum>s\<leftarrow>stats. ps_iops s) \<noteq> 0"
  shows "mw_iops (measured_from_stats stats (Some ts)) =
    (\<Sum>t\<leftarrow>concat (map ps_threads stats). if ts_tid t \<in> set ts then ts_iops t else 0)"
  using assms by (simp add: measured_from_stats_def Let_def)

text \<open>
  Nothing is lost or counted twice in the split over groups: when the process does I/O and falls
  into several groups, the rates of the groups add up to the rates of all its threads.
\<close>

theorem generic_group_rates_add_up:
  assumes "(\<Sum>s\<leftarrow>stats. ps_iops s) \<noteq> 0" and "length (thread_buckets proc) > 1"
    and "distinct (map fst (pi_threads proc))"
    and "\<forall>t \<in> set (concat (map ps_threads stats)). ts_tid t \<in> set (map fst (pi_threads proc))"
  shows "(\<Sum>g\<leftarrow>generic_logical_groups proc stats. mw_iops (the (lg_measured_workload g))) =
    (\<Sum>t\<leftarrow>concat (map ps_threads stats). ts_iops t)"
proof -
  let ?T = "concat (map ps_threads stats)"
  have ne: "stats \<noteq> []" using assms(1) by auto
  have threads: "pi_threads proc \<noteq> []"
    using assms(2) by (auto simp: thread_buckets_def)
  have part: "mset (concat (map snd (sort_key fst (thread_buckets proc)))) = mset (map fst (pi_threads proc))"
  proof -
    have "mset (concat (map snd (sort_key fst (thread_buckets proc)))) =
        mset (concat (map (\<lambda>(n, ts). sort ts) (sort_key fst (sort_key fst (thread_buckets proc)))))"
      by (simp only: concat_sort_mset)
    also have "sort_key fst (sort_key fst (thread_buckets proc)) = sort_key fst (thread_buckets proc)"
      by (simp add: sort_key_id_if_sorted)
    also have "mset (concat (map (\<lambda>(n, ts). sort ts) (sort_key fst (thread_buckets proc)))) =
        mset (map fst (pi_threads proc))"
      using threads by (simp only: concat_sort_mset thread_buckets_partition if_False)
    finally show ?thesis .
  qed
  have "(\<Sum>g\<leftarrow>generic_logical_groups proc stats. mw_iops (the (lg_measured_workload g))) =
      (\<Sum>ts\<leftarrow>map snd (sort_key fst (thread_buckets proc)).
         \<Sum>t\<leftarrow>?T. if ts_tid t \<in> set ts then ts_iops t else 0)"
    using assms(2) measured_share_iops [OF ne assms(1)]
    by (simp add: generic_logical_groups_def Let_def comp_def case_prod_unfold)
  also have "\<dots> = (\<Sum>t\<leftarrow>?T. if ts_tid t \<in> set (map fst (pi_threads proc)) then ts_iops t else 0)"
    using part assms(3) by (subst sum_over_disjoint) (metis mset_eq_imp_distinct_iff, metis mset_eq_setD)
  also have "\<dots> = (\<Sum>t\<leftarrow>?T. ts_iops t)"
    using assms(4) by (intro arg_cong [where f = sum_list] map_cong) auto
  finally show ?thesis .
qed

definition sample_stat :: ProcessIoStat where
  "sample_stat =
     \<lparr>ps_device = ''nvme0'', ps_pid = 10, ps_comm = ''fio'', ps_iops = 7, ps_read_iops = 7,
      ps_write_iops = 0, ps_bandwidth_bps = 28672, ps_avg_latency_us = 0, ps_io_size_dominant = 4096,
      ps_io_size_hist = [(4096, 7)], ps_queues = [], ps_queue_depth_est = 0, ps_seq_ratio = Some 1,
      ps_threads = [\<lparr>ts_tid = 11, ts_comm = ''w_1'', ts_iops = 3\<rparr>,
                    \<lparr>ts_tid = 10, ts_comm = ''fio'', ts_iops = 4\<rparr>]\<rparr>"

theorem generic_group_rates_add_up_witness:
  "(\<Sum>g\<leftarrow>generic_logical_groups sample_process [sample_stat]. mw_iops (the (lg_measured_workload g))) = 7"
proof -
  have "length (thread_buckets sample_process) = 2" by code_simp
  then have "(\<Sum>g\<leftarrow>generic_logical_groups sample_process [sample_stat]. mw_iops (the (lg_measured_workload g))) =
      (\<Sum>t\<leftarrow>concat (map ps_threads [sample_stat]). ts_iops t)"
    by (intro generic_group_rates_add_up) (auto simp: sample_stat_def sample_process_def)
  then show ?thesis by (simp add: sample_stat_def)
qed

section \<open>Verdicts\<close>

text \<open>
  C40: a positive verdict can be trusted.  When the comparison says that a workload matches, there was
  I/O to judge, the I/O sizes are equal, a one-directional workload has at most five percent of the
  other direction, the estimated queue depth is within thirty percent and the access pattern is the
  expected one, each as far as both sides are known; without an expectation there is no verdict.
\<close>

theorem match_verdict_sound:
  assumes "fst (compare expected measured seq_ratio) = Some True"
  shows "snd (compare expected measured seq_ratio) = [] \<and>
    (0 < mw_iops measured \<or> mw_io_size_dominant measured \<noteq> 0) \<and>
    (\<exists>e. expected = Some e \<and>
      (\<forall>n. ws_io_size e = Some n \<and> n \<noteq> 0 \<and> mw_io_size_dominant measured \<noteq> 0 \<longrightarrow>
         mw_io_size_dominant measured = n) \<and>
      (ws_rw e \<in> {Some ''read'', Some ''randread''} \<longrightarrow> mw_write_ratio measured \<le> 5 / 100) \<and>
      (ws_rw e \<in> {Some ''write'', Some ''randwrite''} \<longrightarrow> mw_read_ratio measured \<le> 5 / 100) \<and>
      (\<forall>d. ws_queue_depth e = Some d \<and> d \<noteq> 0 \<and> mw_queue_depth_avg measured \<noteq> 0 \<longrightarrow>
         of_int d * (7 / 10) \<le> mw_queue_depth_avg measured \<and>
         mw_queue_depth_avg measured \<le> of_int d * (13 / 10)) \<and>
      (\<forall>r. seq_ratio = Some r \<and> ws_pattern e = Some ''sequential'' \<longrightarrow> 8 / 10 \<le> r) \<and>
      (\<forall>r. seq_ratio = Some r \<and> ws_pattern e = Some ''random'' \<longrightarrow> r \<le> 2 / 10))"
proof -
  from assms obtain e where e: "expected = Some e"
    and io: "0 < mw_iops measured \<or> mw_io_size_dominant measured \<noteq> 0"
    and none: "size_reasons e measured = []" "rw_reasons e measured = []"
      "depth_reasons e measured = []" "pattern_reasons e seq_ratio = []"
    by (auto simp: compare_def Let_def split: option.splits if_splits)
  have words: "lower ''read'' = ''read''" "lower ''randread'' = ''randread''"
    "lower ''write'' = ''write''" "lower ''randwrite'' = ''randwrite''"
    "\<not> sublist ''write'' ''read''" "\<not> sublist ''write'' ''randread''" "sublist ''read'' ''randread''"
    "\<not> sublist ''read'' ''write''" "\<not> sublist ''read'' ''randwrite''" "sublist ''write'' ''randwrite''"
    by code_simp+
  have "ws_rw e \<in> {Some ''read'', Some ''randread''} \<longrightarrow> mw_write_ratio measured \<le> 5 / 100"
    "ws_rw e \<in> {Some ''write'', Some ''randwrite''} \<longrightarrow> mw_read_ratio measured \<le> 5 / 100"
    using none(2) by (auto simp: rw_reasons_def Let_def words split: if_splits)
  moreover have "\<forall>n. ws_io_size e = Some n \<and> n \<noteq> 0 \<and> mw_io_size_dominant measured \<noteq> 0 \<longrightarrow>
      mw_io_size_dominant measured = n"
    using none(1) by (auto simp: size_reasons_def split: if_splits)
  moreover have "\<forall>d. ws_queue_depth e = Some d \<and> d \<noteq> 0 \<and> mw_queue_depth_avg measured \<noteq> 0 \<longrightarrow>
      of_int d * (7 / 10) \<le> mw_queue_depth_avg measured \<and>
      mw_queue_depth_avg measured \<le> of_int d * (13 / 10)"
    using none(3) by (auto simp: depth_reasons_def split: if_splits)
  moreover have "\<forall>r. seq_ratio = Some r \<and> ws_pattern e = Some ''sequential'' \<longrightarrow> 8 / 10 \<le> r"
    "\<forall>r. seq_ratio = Some r \<and> ws_pattern e = Some ''random'' \<longrightarrow> r \<le> 2 / 10"
    using none(4) by (auto simp: pattern_reasons_def Let_def split: if_splits)
  moreover have "snd (compare expected measured seq_ratio) = []"
    using e io none by (auto simp: compare_def Let_def)
  ultimately show ?thesis using e io by blast
qed

theorem match_verdict_sound_witness:
  "fst (compare (Some (spec_from_opts [(''rw'', ''read''), (''bs'', ''4k'')]))
     (empty_workload\<lparr>mw_iops := 5, mw_io_size_dominant := 4096\<rparr>) None) = Some True \<and>
   snd (compare (Some (spec_from_opts [(''rw'', ''read''), (''bs'', ''4k'')]))
     (empty_workload\<lparr>mw_iops := 5, mw_io_size_dominant := 4096\<rparr>) None) = []"
proof -
  let ?e = "Some (spec_from_opts [(''rw'', ''read''), (''bs'', ''4k'')])"
  let ?m = "empty_workload\<lparr>mw_iops := 5, mw_io_size_dominant := 4096\<rparr>"
  have spec: "ws_io_size (spec_from_opts [(''rw'', ''read''), (''bs'', ''4k'')]) = Some 4096"
    "ws_queue_depth (spec_from_opts [(''rw'', ''read''), (''bs'', ''4k'')]) = None"
    by code_simp+
  have "fst (compare ?e ?m None) = Some True"
    by (simp add: compare_def Let_def size_reasons_def depth_reasons_def pattern_reasons_def spec
        rw_reasons_def empty_workload_def split: option.split)
  with match_verdict_sound [OF this] show ?thesis by blast
qed

end
