(* ===== verification/Targets.thy ===== *)
theory Targets
  imports Adapters
begin

unbundle bit_operations_syntax

text \<open>
  \<open>backend/targets.py\<close>: the target rules, the sessions and their identity, the attribution of device
  I/O and the persistence of the registry (\<open>TargetRegistry\<close>).

  The environment of a call is a record: the clock, the local time as text, \<open>re.search\<close> (which answers
  \<open>None\<close> for a malformed pattern), readable files, an exception inside an adapter, and whether each
  write of the state file succeeds.  The state file is the document that \<open>json.dump\<close> writes; a write
  goes to a temporary file that replaces the old one, so it happens completely or not at all.  The
  JSON text itself is not modelled.
\<close>

section \<open>Rules\<close>

definition VALID_KINDS :: "pystr list" where
  "VALID_KINDS = [''pid'', ''name'', ''name_pattern'', ''cmdline_pattern'']"

type_synonym re_search = "pystr \<Rightarrow> pystr \<Rightarrow> bool option"

definition rule_matches :: "re_search \<Rightarrow> TargetRule \<Rightarrow> ProcessInfo \<Rightarrow> bool" where
  "rule_matches search rule proc =
     (if tr_kind rule = ''pid'' then int_dec (pi_pid proc) = strip (tr_value rule)
      else if tr_kind rule = ''name'' then
        (let want = strip (tr_value rule)
         in pi_comm proc = want \<or> basename (pi_exe_path proc) = want)
      else if tr_kind rule = ''name_pattern'' then
        (case search (tr_value rule) (pi_comm proc) of
           None \<Rightarrow> False
         | Some hit \<Rightarrow> hit \<or> search (tr_value rule) (basename (pi_exe_path proc)) = Some True)
      else if tr_kind rule = ''cmdline_pattern'' then
        search (tr_value rule) (pi_cmdline proc) = Some True
      else False)"

section \<open>Session ids\<close>

definition numbered :: "pystr \<Rightarrow> nat \<Rightarrow> pystr" where
  "numbered c n = c @ ''_'' @ nat_dec n"

lemma numbered_inject [simp]: "numbered c m = numbered c n \<longleftrightarrow> m = n"
  by (simp add: numbered_def)

text \<open>The loop of \<open>_session_id\<close>; it ends because every taken id that it meets is met only once.\<close>

function first_free :: "pystr \<Rightarrow> pystr list \<Rightarrow> nat \<Rightarrow> pystr" where
  "first_free c taken n =
     (if numbered c n \<in> set taken then first_free c taken (n + 1) else numbered c n)"
  by pat_completeness auto
termination
proof (relation "measure (\<lambda>(c, taken, n). card {s \<in> set taken. \<exists>m \<ge> n. s = numbered c m})", goal_cases)
  case (2 c taken n)
  let ?S = "\<lambda>n. {s \<in> set taken. \<exists>m \<ge> n. s = numbered c m}"
  have "numbered c n \<in> ?S n" using 2 by auto
  moreover have "numbered c n \<notin> ?S (n + 1)" by auto
  moreover have "?S (n + 1) \<subseteq> ?S n" by (auto intro: le_trans [OF le_add1])
  ultimately have "?S (n + 1) \<subset> ?S n" by blast
  then have "card (?S (n + 1)) < card (?S n)" by (intro psubset_card_mono) auto
  then show ?case by simp
qed simp

declare first_free.simps [simp del]

definition session_id :: "pystr \<Rightarrow> int \<Rightarrow> int \<Rightarrow> pystr list \<Rightarrow> pystr" where
  "session_id stamp pid start_ns taken =
     (let base = ''sess_'' @ stamp @ ''_'' @ int_dec pid
      in if base \<notin> set taken then base
         else
           (let candidate = base @ ''_'' @ fmt_hex 4 (start_ns AND 0xFFFF)
            in if candidate \<notin> set taken then candidate else first_free candidate taken 2))"

section \<open>The registry and its file\<close>

record TargetRegistry =
  tg_max_finished :: nat
  tg_rules :: "TargetRule list"
  tg_sessions :: "(pystr, Session) dict"
  tg_by_identity :: "(int \<times> int, pystr) dict"

text \<open>A rule or session as the document holds it: any key may be missing in a file not written here.\<close>

record rule_doc =
  rd_kind :: "pystr option"
  rd_value :: "pystr option"
  rd_adapter :: "pystr option"

record session_doc =
  sd_session_id :: "pystr option"
  sd_pid :: "int option"
  sd_comm :: "pystr option"
  sd_cmdline :: "pystr option"
  sd_exe_path :: "pystr option"
  sd_adapter :: "pystr option"
  sd_start_time_ns :: "int option"
  sd_session_start_ns :: "int option"
  sd_session_end_ns :: "int option"
  sd_devices :: "pystr list option"
  sd_thread_count_active :: "int option"
  sd_matched_rule :: "pystr option"

type_synonym state_doc = "rule_doc list \<times> session_doc list"

definition rule_to_doc :: "TargetRule \<Rightarrow> rule_doc" where
  "rule_to_doc r = \<lparr>rd_kind = Some (tr_kind r), rd_value = Some (tr_value r), rd_adapter = tr_adapter r\<rparr>"

definition session_to_doc :: "Session \<Rightarrow> session_doc" where
  "session_to_doc s =
     \<lparr>sd_session_id = Some (se_session_id s), sd_pid = Some (se_pid s), sd_comm = Some (se_comm s),
      sd_cmdline = Some (se_cmdline s), sd_exe_path = Some (se_exe_path s),
      sd_adapter = Some (se_adapter s), sd_start_time_ns = Some (se_start_time_ns s),
      sd_session_start_ns = Some (se_session_start_ns s), sd_session_end_ns = se_session_end_ns s,
      sd_devices = Some (se_devices s), sd_thread_count_active = Some (se_thread_count_active s),
      sd_matched_rule = se_matched_rule s\<rparr>"

text \<open>
  \<open>_save\<close>: the document, and the file after the attempt to write it.  The status of a session is written
  too, but reading ignores it, so the document leaves it out.
\<close>

definition state_document :: "TargetRegistry \<Rightarrow> state_doc" where
  "state_document reg =
     (map rule_to_doc (tg_rules reg),
      map session_to_doc (last_n (tg_max_finished reg) (map snd (tg_sessions reg))))"

definition save :: "bool \<Rightarrow> TargetRegistry \<Rightarrow> state_doc option \<Rightarrow> state_doc option" where
  "save ok reg disk = (if ok then Some (state_document reg) else disk)"

text \<open>
  \<open>Session(**doc)\<close>: a document without one of the four required keys raises \<open>TypeError\<close> and is skipped;
  the restored session is finished and has no groups.
\<close>

definition session_of_doc :: "session_doc \<Rightarrow> Session option" where
  "session_of_doc d =
     (case (sd_session_id d, sd_pid d, sd_comm d, sd_cmdline d) of
        (Some sid, Some pid, Some comm, Some cmdline) \<Rightarrow>
          Some \<lparr>se_session_id = sid, se_pid = pid, se_comm = comm, se_cmdline = cmdline,
            se_exe_path = (case sd_exe_path d of None \<Rightarrow> [] | Some x \<Rightarrow> x),
            se_adapter = (case sd_adapter d of None \<Rightarrow> ''generic'' | Some x \<Rightarrow> x),
            se_status = ''finished'',
            se_start_time_ns = (case sd_start_time_ns d of None \<Rightarrow> 0 | Some x \<Rightarrow> x),
            se_session_start_ns = (case sd_session_start_ns d of None \<Rightarrow> 0 | Some x \<Rightarrow> x),
            se_session_end_ns = sd_session_end_ns d,
            se_devices = (case sd_devices d of None \<Rightarrow> [] | Some x \<Rightarrow> x),
            se_thread_count_active = (case sd_thread_count_active d of None \<Rightarrow> 0 | Some x \<Rightarrow> x),
            se_aggregate = None, se_logical_groups = [], se_matched_rule = sd_matched_rule d\<rparr>
      | _ \<Rightarrow> None)"

definition load_session :: "session_doc \<Rightarrow> TargetRegistry \<Rightarrow> TargetRegistry" where
  "load_session d reg =
     (case session_of_doc d of
        None \<Rightarrow> reg
      | Some s \<Rightarrow>
          reg\<lparr>tg_sessions := AList.update (se_session_id s) s (tg_sessions reg),
              tg_by_identity := AList.update (se_pid s, se_start_time_ns s) (se_session_id s)
                (tg_by_identity reg)\<rparr>)"

text \<open>A rule of a valid kind without a value raises \<open>KeyError\<close>, which nothing catches.\<close>

fun load_rules :: "rule_doc list \<Rightarrow> TargetRule list \<Rightarrow> exn + TargetRule list" where
  "load_rules [] acc = Inr acc"
| "load_rules (d # ds) acc =
     (case rd_kind d of
        None \<Rightarrow> load_rules ds acc
      | Some k \<Rightarrow>
          if k \<in> set VALID_KINDS then
            (case rd_value d of
               None \<Rightarrow> Inl LookupError
             | Some v \<Rightarrow> load_rules ds (acc @ [\<lparr>tr_kind = k, tr_value = v, tr_adapter = rd_adapter d\<rparr>]))
          else load_rules ds acc)"

definition empty_registry :: "nat \<Rightarrow> TargetRegistry" where
  "empty_registry max_finished =
     \<lparr>tg_max_finished = max_finished, tg_rules = [], tg_sessions = [], tg_by_identity = []\<rparr>"

text \<open>\<open>TargetRegistry(path)\<close>: \<open>None\<close> stands for a missing, unreadable or malformed file.\<close>

definition load :: "nat \<Rightarrow> state_doc option \<Rightarrow> exn + TargetRegistry" where
  "load max_finished disk =
     (case disk of
        None \<Rightarrow> Inr (empty_registry max_finished)
      | Some (rds, sds) \<Rightarrow>
          bindE (load_rules rds []) (\<lambda>rules.
            Inr (fold load_session sds ((empty_registry max_finished)\<lparr>tg_rules := rules\<rparr>))))"

section \<open>Changing the rules\<close>

fun set_rule_adapter :: "TargetRule \<Rightarrow> TargetRule list \<Rightarrow> TargetRule list option" where
  "set_rule_adapter rule [] = None"
| "set_rule_adapter rule (r # rs) =
     (if tr_kind r = tr_kind rule \<and> tr_value r = tr_value rule
      then Some (r\<lparr>tr_adapter := tr_adapter rule\<rparr> # rs)
      else map_option (Cons r) (set_rule_adapter rule rs))"

definition add_rule ::
  "bool \<Rightarrow> TargetRule \<Rightarrow> TargetRegistry \<Rightarrow> state_doc option \<Rightarrow> exn + TargetRegistry \<times> state_doc option" where
  "add_rule ok rule reg disk =
     (if tr_kind rule \<notin> set VALID_KINDS then Inl (ValueError (MsgRaw (tr_kind rule)))
      else
        (let rules = (case set_rule_adapter rule (tg_rules reg) of
                        Some rs \<Rightarrow> rs
                      | None \<Rightarrow> tg_rules reg @ [rule]);
             reg' = reg\<lparr>tg_rules := rules\<rparr>
         in Inr (reg', save ok reg' disk)))"

definition remove_rule ::
  "bool \<Rightarrow> pystr \<Rightarrow> pystr \<Rightarrow> TargetRegistry \<Rightarrow> state_doc option \<Rightarrow>
   bool \<times> TargetRegistry \<times> state_doc option" where
  "remove_rule ok kind value reg disk =
     (let rules = filter (\<lambda>r. \<not> (tr_kind r = kind \<and> tr_value r = value)) (tg_rules reg);
          changed = (length rules \<noteq> length (tg_rules reg));
          reg' = reg\<lparr>tg_rules := rules\<rparr>
      in (changed, reg', if changed then save ok reg' disk else disk))"

definition clear_rules :: "bool \<Rightarrow> TargetRegistry \<Rightarrow> state_doc option \<Rightarrow> TargetRegistry \<times> state_doc option" where
  "clear_rules ok reg disk = (let reg' = reg\<lparr>tg_rules := []\<rparr> in (reg', save ok reg' disk))"

definition resolve :: "re_search \<Rightarrow> TargetRegistry \<Rightarrow> ProcessInfo list \<Rightarrow> (int, TargetRule) dict" where
  "resolve search reg processes =
     fold (\<lambda>proc hits.
             case find (\<lambda>rule. rule_matches search rule proc) (tg_rules reg) of
               Some rule \<Rightarrow> AList.update (pi_pid proc) rule hits
             | None \<Rightarrow> hits) processes []"

section \<open>Refreshing the sessions\<close>

record refresh_env =
  rf_now_ns :: int
  rf_stamp :: "int \<Rightarrow> pystr"              \<comment> \<open>local time when the session of a pid gets its id\<close>
  rf_search :: re_search
  rf_files :: files
  rf_adapter_error :: "int \<Rightarrow> pystr option"  \<comment> \<open>an exception while grouping this pid's threads\<close>
  rf_save_ok :: "nat \<Rightarrow> bool"              \<comment> \<open>whether the n-th write of this call succeeds\<close>

text \<open>The state of a call: the registry, the file and the number of writes so far.\<close>

type_synonym reg_state = "TargetRegistry \<times> state_doc option \<times> nat"

definition save_step :: "refresh_env \<Rightarrow> reg_state \<Rightarrow> reg_state" where
  "save_step env = (\<lambda>(reg, disk, n). (reg, save (rf_save_ok env n) reg disk, n + 1))"

definition finish :: "int \<Rightarrow> Session \<Rightarrow> Session" where
  "finish now s = s\<lparr>se_status := ''finished'', se_session_end_ns := Some now\<rparr>"

definition close_stale :: "int \<Rightarrow> int \<Rightarrow> int \<Rightarrow> (pystr, Session) dict \<Rightarrow> (pystr, Session) dict" where
  "close_stale now pid start_ns sessions =
     map (\<lambda>(sid, s). (sid, if se_pid s = pid \<and> se_status s = ''active'' \<and> se_start_time_ns s \<noteq> start_ns
                           then finish now s else s)) sessions"

definition new_session :: "int \<Rightarrow> pystr \<Rightarrow> ProcessInfo \<Rightarrow> int \<Rightarrow> TargetRule \<Rightarrow> Session" where
  "new_session now sid proc pid rule =
     \<lparr>se_session_id = sid, se_pid = pid, se_comm = pi_comm proc, se_cmdline = pi_cmdline proc,
      se_exe_path = pi_exe_path proc, se_adapter = adapter_name (select_adapter proc (tr_adapter rule)),
      se_status = ''active'', se_start_time_ns = pi_start_time_ns proc, se_session_start_ns = now,
      se_session_end_ns = None, se_devices = [], se_thread_count_active = 0, se_aggregate = None,
      se_logical_groups = [], se_matched_rule = Some (tr_kind rule @ ''='' @ tr_value rule)\<rparr>"

text \<open>The known session of a process identity, if it is still kept.\<close>

definition known_session :: "TargetRegistry \<Rightarrow> int \<times> int \<Rightarrow> pystr option" where
  "known_session reg identity =
     (case map_of (tg_by_identity reg) identity of
        None \<Rightarrow> None
      | Some sid \<Rightarrow> if sid \<in> fst ` set (tg_sessions reg) then Some sid else None)"

definition ensure_session ::
  "refresh_env \<Rightarrow> int \<Rightarrow> ProcessInfo \<Rightarrow> TargetRule \<Rightarrow> reg_state \<Rightarrow> pystr \<times> reg_state" where
  "ensure_session env pid proc rule = (\<lambda>(reg, disk, n).
     (let identity = (pid, pi_start_time_ns proc)
      in case known_session reg identity of
           Some sid \<Rightarrow> (sid, (reg, disk, n))
         | None \<Rightarrow>
             (let closed = close_stale (rf_now_ns env) pid (pi_start_time_ns proc) (tg_sessions reg);
                  sid = session_id (rf_stamp env pid) pid (pi_start_time_ns proc) (map fst closed);
                  reg' = reg\<lparr>tg_sessions := AList.update sid (new_session (rf_now_ns env) sid proc pid rule) closed,
                             tg_by_identity := AList.update identity sid (tg_by_identity reg)\<rparr>
              in (sid, save_step env (reg', disk, n)))))"

definition fallback_group :: "ProcessInfo \<Rightarrow> int \<Rightarrow> pystr \<Rightarrow> LogicalGroup" where
  "fallback_group proc pid e =
     \<lparr>lg_name = (if pi_comm proc \<noteq> [] then pi_comm proc else ''pid'' @ int_dec pid),
      lg_type = ''process'', lg_source = ''fallback'', lg_thread_tids = map fst (pi_threads proc),
      lg_expected_workload = None, lg_measured_workload = None, lg_expectation_match = None,
      lg_mismatch_reasons = [MsgAdapterFailed e], lg_inferred = True, lg_progress_pct = None\<rparr>"

definition update_session ::
  "refresh_env \<Rightarrow> int \<Rightarrow> ProcessInfo \<Rightarrow> TargetRule \<Rightarrow> ProcessIoStat list \<Rightarrow> Session \<Rightarrow> Session" where
  "update_session env pid proc rule my_stats s =
     (let adapter = select_adapter proc (tr_adapter rule)
      in s\<lparr>se_session_end_ns := (if se_status s = ''finished'' then None else se_session_end_ns s),
           se_status := ''active'',
           se_comm := (if pi_comm proc \<noteq> [] then pi_comm proc else se_comm s),
           se_thread_count_active := pi_thread_count proc,
           se_devices := sort (remdups (map ps_device my_stats)),
           se_adapter := adapter_name adapter,
           se_logical_groups :=
             (case rf_adapter_error env pid of
                None \<Rightarrow> get_logical_groups adapter (rf_files env) proc my_stats
              | Some e \<Rightarrow> [fallback_group proc pid e]),
           se_aggregate := Some (measured_from_stats my_stats None)\<rparr>)"

definition stats_of_pid :: "ProcessIoStat list \<Rightarrow> int \<Rightarrow> ProcessIoStat list" where
  "stats_of_pid stats pid = filter (\<lambda>st. ps_pid st = pid) stats"

text \<open>\<open>by_pid[pid]\<close>: the last process of the list with this pid.\<close>

definition process_of_pid :: "ProcessInfo list \<Rightarrow> int \<Rightarrow> ProcessInfo" where
  "process_of_pid processes pid = last (filter (\<lambda>p. pi_pid p = pid) processes)"

definition refresh_target ::
  "refresh_env \<Rightarrow> ProcessInfo list \<Rightarrow> ProcessIoStat list \<Rightarrow> int \<times> TargetRule \<Rightarrow>
   reg_state \<times> pystr list \<Rightarrow> reg_state \<times> pystr list" where
  "refresh_target env processes stats = (\<lambda>(pid, rule) (st, active_ids).
     (let proc = process_of_pid processes pid;
          (sid, (reg, disk, n)) = ensure_session env pid proc rule st;
          reg' = reg\<lparr>tg_sessions := AList.map_entry sid
                   (update_session env pid proc rule (stats_of_pid stats pid)) (tg_sessions reg)\<rparr>
      in ((reg', disk, n), active_ids @ [sid])))"

text \<open>The loop that finishes the sessions whose process is gone, saving after each.\<close>

definition finish_step :: "refresh_env \<Rightarrow> pystr list \<Rightarrow> pystr \<Rightarrow> reg_state \<Rightarrow> reg_state" where
  "finish_step env active_ids sid = (\<lambda>(reg, disk, n).
     (case map_of (tg_sessions reg) sid of
        Some s \<Rightarrow>
          if se_status s = ''active'' \<and> sid \<notin> set active_ids
          then save_step env (reg\<lparr>tg_sessions := AList.map_entry sid (finish (rf_now_ns env)) (tg_sessions reg)\<rparr>, disk, n)
          else (reg, disk, n)
      | None \<Rightarrow> (reg, disk, n)))"

section \<open>Attribution\<close>

definition active_sessions :: "TargetRegistry \<Rightarrow> Session list" where
  "active_sessions reg = filter (\<lambda>s. se_status s = ''active'') (map snd (tg_sessions reg))"

definition empty_attribution :: "pystr \<Rightarrow> DeviceAttribution" where
  "empty_attribution name =
     \<lparr>da_name = name, da_total_iops = 0, da_attributed_iops = 0, da_unattributed_iops = 0,
      da_contributing_sessions = [], da_multi_process_warning = False\<rparr>"

text \<open>The inner loop: the ids of the pid's active sessions that are not listed yet.\<close>

definition add_contributors :: "Session list \<Rightarrow> int \<Rightarrow> pystr list \<Rightarrow> pystr list" where
  "add_contributors actives pid listed =
     fold (\<lambda>s ids. if se_pid s = pid \<and> se_session_id s \<notin> set ids then ids @ [se_session_id s] else ids)
       actives listed"

definition attribute_stat ::
  "Session list \<Rightarrow> ProcessIoStat \<Rightarrow> (pystr, DeviceAttribution) dict \<Rightarrow> (pystr, DeviceAttribution) dict" where
  "attribute_stat actives st devices =
     (let d = dict_get devices (ps_device st) (empty_attribution (ps_device st));
          d1 = d\<lparr>da_total_iops := da_total_iops d + ps_iops st\<rparr>;
          d2 = (if ps_pid st \<in> se_pid ` set actives
                then d1\<lparr>da_attributed_iops := da_attributed_iops d + ps_iops st,
                        da_contributing_sessions :=
                          add_contributors actives (ps_pid st) (da_contributing_sessions d)\<rparr>
                else d1\<lparr>da_unattributed_iops := da_unattributed_iops d + ps_iops st\<rparr>)
      in AList.update (ps_device st) d2 devices)"

definition unmonitored_of :: "Session list \<Rightarrow> ProcessIoStat list \<Rightarrow> UnmonitoredIo list" where
  "unmonitored_of actives stats =
     map (\<lambda>st. \<lparr>um_pid = ps_pid st, um_comm = ps_comm st, um_device = ps_device st,
                um_io_rate = ps_iops st, um_note = MsgUnmonitored\<rparr>)
       (filter (\<lambda>st. ps_pid st \<notin> se_pid ` set actives \<and> ps_iops st > 0) stats)"

definition busy_pids :: "ProcessIoStat list \<Rightarrow> pystr \<Rightarrow> int list" where
  "busy_pids stats name =
     remdups (map ps_pid (filter (\<lambda>st. ps_device st = name \<and> ps_iops st > 0) stats))"

definition device_attributions :: "Session list \<Rightarrow> ProcessIoStat list \<Rightarrow> DeviceAttribution list" where
  "device_attributions actives stats =
     sort_key da_name
       (map (\<lambda>(name, d). d\<lparr>da_multi_process_warning := length (busy_pids stats (da_name d)) > 1\<rparr>)
         (fold (attribute_stat actives) stats []))"

definition refresh ::
  "refresh_env \<Rightarrow> ProcessInfo list \<Rightarrow> ProcessIoStat list \<Rightarrow> TargetRegistry \<Rightarrow> state_doc option \<Rightarrow>
   ProfileSnapshot \<times> TargetRegistry \<times> state_doc option" where
  "refresh env processes stats reg0 disk0 =
     (let matched = sort_key fst (resolve (rf_search env) reg0 processes);
          (st1, active_ids) = fold (refresh_target env processes stats) matched ((reg0, disk0, 0), []);
          (reg, disk, n) = fold (finish_step env active_ids) (map fst (tg_sessions (fst st1))) st1;
          actives = active_sessions reg
      in (\<lparr>sn_schema_version = ''2.0'', sn_collected_at_ns = rf_now_ns env,
           sn_sessions = sort_key (\<lambda>s. (se_status s \<noteq> ''active'', - se_session_start_ns s))
             (map snd (tg_sessions reg)),
           sn_unmonitored_io = sort_key (\<lambda>u. - um_io_rate u) (unmonitored_of actives stats),
           sn_devices = device_attributions actives stats, sn_rules = tg_rules reg,
           sn_available = True, sn_error = None\<rparr>, reg, disk))"

end
