(* ===== verification/TargetSessions.thy ===== *)
theory TargetSessions
  imports Targets
begin

text \<open>
  Sessions of \<open>backend/targets.py\<close>: fresh ids, the one-to-one correspondence of sessions and process
  identities as an invariant of the registry, and what a whole \<open>refresh\<close> does to the sessions.
\<close>

section \<open>Fresh session ids\<close>

lemma first_free_fresh: "first_free c taken n \<notin> set taken"
  by (induction c taken n rule: first_free.induct) (subst first_free.simps, simp)

lemma session_id_not_taken: "session_id stamp pid start_ns taken \<notin> set taken"
  by (simp add: session_id_def Let_def first_free_fresh)

text \<open>
  A new session never takes over an existing one: the id search always ends, and the id it gives is
  not in use, even when the same pid is seen again within the same second; the plain form without a
  suffix is kept whenever it is free.
\<close>

theorem session_id_fresh:
  "session_id stamp pid start_ns taken \<notin> set taken \<and>
   (session_id stamp pid start_ns taken = ''sess_'' @ stamp @ ''_'' @ int_dec pid \<or>
    ''sess_'' @ stamp @ ''_'' @ int_dec pid \<in> set taken)"
  using session_id_not_taken [of stamp pid start_ns taken] by (simp add: session_id_def Let_def)

section \<open>The identity invariant\<close>

text \<open>
  A session belongs to one process, identified by its pid and start time.  The index of identities and the
  sessions describe the same one-to-one correspondence.
\<close>

definition ident :: "Session \<Rightarrow> int \<times> int" where
  "ident s = (se_pid s, se_start_time_ns s)"

definition registry_ok :: "TargetRegistry \<Rightarrow> bool" where
  "registry_ok reg \<longleftrightarrow> dict_ok (tg_sessions reg) \<and>
     (\<forall>sid s. map_of (tg_sessions reg) sid = Some s \<longrightarrow> se_session_id s = sid) \<and>
     (\<forall>i sid. map_of (tg_by_identity reg) i = Some sid \<longleftrightarrow>
        (\<exists>s. map_of (tg_sessions reg) sid = Some s \<and> ident s = i))"

text \<open>What a refresh may never change of a recorded session.\<close>

definition same_process :: "Session \<Rightarrow> Session \<Rightarrow> bool" where
  "same_process s s' \<longleftrightarrow> se_session_id s' = se_session_id s \<and> ident s' = ident s \<and>
     se_cmdline s' = se_cmdline s \<and> se_session_start_ns s' = se_session_start_ns s \<and>
     se_matched_rule s' = se_matched_rule s"

definition keeps_sessions :: "TargetRegistry \<Rightarrow> TargetRegistry \<Rightarrow> bool" where
  "keeps_sessions reg reg' \<longleftrightarrow> (\<forall>sid s. map_of (tg_sessions reg) sid = Some s \<longrightarrow>
     (\<exists>s'. map_of (tg_sessions reg') sid = Some s' \<and> same_process s s'))"

lemma same_process_refl [simp]: "same_process s s"
  by (simp add: same_process_def)

lemma same_process_trans: "same_process a b \<Longrightarrow> same_process b c \<Longrightarrow> same_process a c"
  by (simp add: same_process_def)

lemma keeps_sessions_refl [simp]: "keeps_sessions reg reg"
  by (auto simp: keeps_sessions_def)

lemma keeps_sessions_trans: "keeps_sessions a b \<Longrightarrow> keeps_sessions b c \<Longrightarrow> keeps_sessions a c"
  unfolding keeps_sessions_def by (meson same_process_trans)

lemma same_process_finish [simp]: "same_process s (finish now s)"
  by (simp add: same_process_def finish_def ident_def)

lemma same_process_update [simp]: "same_process s (update_session env pid proc rule sts s)"
  by (simp add: same_process_def update_session_def ident_def Let_def)

lemma ident_same: "same_process s s' \<Longrightarrow> ident s' = ident s \<and> se_session_id s' = se_session_id s"
  by (simp add: same_process_def)

text \<open>A change of every session that respects \<open>same_process\<close> keeps the invariant.\<close>

lemma registry_ok_map:
  assumes "registry_ok reg" and "map fst sessions' = map fst (tg_sessions reg)"
    and "\<And>sid. map_of sessions' sid = map_option (f sid) (map_of (tg_sessions reg) sid)"
    and "\<And>sid s. same_process s (f sid s)"
  shows "registry_ok (reg\<lparr>tg_sessions := sessions'\<rparr>) \<and> keeps_sessions reg (reg\<lparr>tg_sessions := sessions'\<rparr>)"
proof -
  have "dict_ok sessions'" using assms(1,2) by (simp add: registry_ok_def dict_ok_def)
  moreover have "ident (f sid s) = ident s" "se_session_id (f sid s) = se_session_id s" for sid s
    using ident_same [OF assms(4)] by auto
  ultimately show ?thesis
    using assms(1,4) by (auto simp: registry_ok_def keeps_sessions_def assms(3))
qed

lemma map_of_close_stale:
  "map_of (close_stale now pid start sessions) sid =
     map_option (\<lambda>s. if se_pid s = pid \<and> se_status s = ''active'' \<and> se_start_time_ns s \<noteq> start
                     then finish now s else s) (map_of sessions sid)"
  unfolding close_stale_def map_of_map by simp

lemma keys_close_stale [simp]: "map fst (close_stale now pid start sessions) = map fst sessions"
  by (simp add: close_stale_def comp_def case_prod_unfold)

lemma registry_index:
  "registry_ok reg \<Longrightarrow> map_of (tg_by_identity reg) i = Some sid \<longleftrightarrow>
     (\<exists>s. map_of (tg_sessions reg) sid = Some s \<and> ident s = i)"
  unfolding registry_ok_def by blast

lemma known_session_ok:
  assumes "registry_ok reg"
  shows "known_session reg i = Some sid \<longleftrightarrow> (\<exists>s. map_of (tg_sessions reg) sid = Some s \<and> ident s = i)"
proof (cases "map_of (tg_by_identity reg) i")
  case None
  then show ?thesis using registry_index [OF assms, of i sid] by (simp add: known_session_def)
next
  case (Some sid')
  with registry_index [OF assms, of i sid'] have "sid' \<in> fst ` set (tg_sessions reg)"
    by (metis domI dom_map_of_conv_image_fst)
  with Some registry_index [OF assms, of i sid] show ?thesis by (simp add: known_session_def)
qed

lemma save_step_fst [simp]: "fst (save_step env (reg, disk, n)) = reg"
  by (simp add: save_step_def)

lemma registry_ok_add:
  assumes ok: "registry_ok reg" and fresh: "map_of (tg_sessions reg) sid = None"
    and unknown: "\<And>sid' s. map_of (tg_sessions reg) sid' = Some s \<Longrightarrow> ident s \<noteq> i"
    and new: "ident new = i" "se_session_id new = sid"
  shows "registry_ok (reg\<lparr>tg_sessions := AList.update sid new (tg_sessions reg),
    tg_by_identity := AList.update i sid (tg_by_identity reg)\<rparr>)"
proof -
  have index: "map_of (tg_by_identity reg) j = Some sid' \<longleftrightarrow>
      (\<exists>s. map_of (tg_sessions reg) sid' = Some s \<and> ident s = j)" for j sid'
    using registry_index [OF ok] .
  have "(if j = i then Some sid else map_of (tg_by_identity reg) j) = Some sid' \<longleftrightarrow>
      (\<exists>s. (if sid' = sid then Some new else map_of (tg_sessions reg) sid') = Some s \<and> ident s = j)"
    for j sid'
  proof (cases "j = i")
    case True
    then show ?thesis using new(1) unknown [of sid'] by auto
  next
    case False
    then show ?thesis using new(1) fresh index [of j sid'] by auto
  qed
  then show ?thesis
    using ok new(2) by (auto simp: registry_ok_def map_of_update dict_ok_update split: if_splits)
qed

lemma ensure_session_ok:
  assumes ok: "registry_ok reg"
    and e: "ensure_session env pid proc rule (reg, disk, n) = (sid, st)"
  shows "registry_ok (fst st) \<and> keeps_sessions reg (fst st) \<and>
    (\<exists>s. map_of (tg_sessions (fst st)) sid = Some s \<and> ident s = (pid, pi_start_time_ns proc)) \<and>
    (\<forall>sid' s. map_of (tg_sessions reg) sid' = Some s \<and> se_pid s \<noteq> pid \<longrightarrow>
      map_of (tg_sessions (fst st)) sid' = Some s)"
proof (cases "known_session reg (pid, pi_start_time_ns proc)")
  case (Some sid')
  with e have "sid' = sid" "st = (reg, disk, n)" by (auto simp: ensure_session_def Let_def)
  with Some ok known_session_ok [OF ok] show ?thesis by auto
next
  case None
  let ?i = "(pid, pi_start_time_ns proc)"
  let ?closed = "close_stale (rf_now_ns env) pid (pi_start_time_ns proc) (tg_sessions reg)"
  let ?regc = "reg\<lparr>tg_sessions := ?closed\<rparr>"
  let ?new = "new_session (rf_now_ns env) sid proc pid rule"
  from None e have sid: "sid = session_id (rf_stamp env pid) pid (pi_start_time_ns proc) (map fst ?closed)"
    and reg': "fst st = ?regc\<lparr>tg_sessions := AList.update sid ?new (tg_sessions ?regc),
      tg_by_identity := AList.update ?i sid (tg_by_identity ?regc)\<rparr>"
    by (auto simp: ensure_session_def Let_def save_step_def)
  have closed: "registry_ok ?regc" "keeps_sessions reg ?regc"
    using registry_ok_map [OF ok keys_close_stale map_of_close_stale] by simp_all
  have "sid \<notin> set (map fst ?closed)"
    unfolding sid by (rule session_id_not_taken)
  then have fresh: "map_of ?closed sid = None"
    by (simp add: map_of_eq_None_iff del: keys_close_stale)
  have new: "ident ?new = ?i" "se_session_id ?new = sid" by (simp_all add: new_session_def ident_def)
  have unknown: "ident s \<noteq> ?i" if "map_of ?closed sid' = Some s" for sid' s
  proof -
    from that obtain s0 where "map_of (tg_sessions reg) sid' = Some s0" "ident s = ident s0"
      by (auto simp: map_of_close_stale ident_def finish_def)
    with None known_session_ok [OF ok, of ?i sid'] show ?thesis by auto
  qed
  have "registry_ok (fst st)"
    unfolding reg' by (rule registry_ok_add) (use closed fresh unknown new in auto)
  moreover have "keeps_sessions ?regc (fst st)"
    using fresh by (auto simp: keeps_sessions_def reg' map_of_update)
  moreover have "map_of (tg_sessions (fst st)) sid' = Some s"
    if "map_of (tg_sessions reg) sid' = Some s" "se_pid s \<noteq> pid" for sid' s
    using that fresh by (auto simp: reg' map_of_update map_of_close_stale)
  ultimately show ?thesis
    using new(1) keeps_sessions_trans [OF closed(2)] by (auto simp: reg' map_of_update)
qed

section \<open>A whole refresh\<close>

text \<open>What the loop over the matched processes maintains for the pids handled so far.\<close>

definition handled :: "ProcessInfo list \<Rightarrow> TargetRegistry \<Rightarrow> int \<Rightarrow> pystr \<Rightarrow> bool" where
  "handled processes reg pid sid \<longleftrightarrow>
     (\<exists>s. map_of (tg_sessions reg) sid = Some s \<and> se_status s = ''active'' \<and>
        ident s = (pid, pi_start_time_ns (process_of_pid processes pid)))"

lemma refresh_target_ok:
  assumes ok: "registry_ok (fst st)"
    and r: "refresh_target env processes stats (pid, rule) (st, ids) = (st', ids')"
  shows "registry_ok (fst st') \<and> keeps_sessions (fst st) (fst st') \<and>
    (\<exists>sid. ids' = ids @ [sid] \<and> handled processes (fst st') pid sid) \<and>
    (\<forall>pid' sid'. pid' \<noteq> pid \<and> handled processes (fst st) pid' sid' \<longrightarrow> handled processes (fst st') pid' sid')"
proof -
  obtain reg disk n where st: "st = (reg, disk, n)" by (cases st)
  let ?proc = "process_of_pid processes pid"
  obtain sid st1 where e: "ensure_session env pid ?proc rule (reg, disk, n) = (sid, st1)"
    by (cases "ensure_session env pid ?proc rule (reg, disk, n)")
  obtain reg1 disk1 n1 where st1: "st1 = (reg1, disk1, n1)" by (cases st1)
  let ?u = "update_session env pid ?proc rule (stats_of_pid stats pid)"
  let ?sess = "AList.map_entry sid ?u (tg_sessions reg1)"
  from r e st st1 have res: "fst st' = reg1\<lparr>tg_sessions := ?sess\<rparr>" "ids' = ids @ [sid]"
    by (auto simp: refresh_target_def Let_def)
  from ensure_session_ok [OF _ e] ok st st1 have e1: "registry_ok reg1" "keeps_sessions reg reg1"
    and own: "\<exists>s. map_of (tg_sessions reg1) sid = Some s \<and> ident s = (pid, pi_start_time_ns ?proc)"
    and other: "\<And>sid' s. map_of (tg_sessions reg) sid' = Some s \<Longrightarrow> se_pid s \<noteq> pid \<Longrightarrow>
      map_of (tg_sessions reg1) sid' = Some s"
    by auto
  have upd: "registry_ok (fst st')" "keeps_sessions reg1 (fst st')"
    using registry_ok_map [OF e1(1) keys_map_entry map_of_map_entry, of sid ?u] unfolding res(1)
    by simp_all
  have active: "se_status (?u s) = ''active''" "ident (?u s) = ident s" for s
    by (simp_all add: update_session_def ident_def Let_def)
  have "handled processes (fst st') pid sid"
    using own active by (auto simp: handled_def res(1) map_of_map_entry)
  moreover have "handled processes (fst st') pid' sid'"
    if h: "pid' \<noteq> pid" "handled processes (fst st) pid' sid'" for pid' sid'
  proof -
    from h st obtain s where s: "map_of (tg_sessions reg) sid' = Some s" "se_status s = ''active''"
      "ident s = (pid', pi_start_time_ns (process_of_pid processes pid'))" by (auto simp: handled_def)
    with h(1) other have "map_of (tg_sessions reg1) sid' = Some s" by (auto simp: ident_def)
    with s active show ?thesis by (auto simp: handled_def res(1) map_of_map_entry)
  qed
  ultimately show ?thesis
    using upd keeps_sessions_trans [OF e1(2)] res(2) st by auto
qed

lemma refresh_targets_ok:
  assumes "registry_ok (fst st)" and "distinct (map fst ms)"
    and "fold (refresh_target env processes stats) ms (st, []) = (st', ids')"
  shows "registry_ok (fst st') \<and> keeps_sessions (fst st) (fst st') \<and>
    list_all2 (handled processes (fst st')) (map fst ms) ids'"
  using assms(2,3)
proof (induction ms arbitrary: st' ids' rule: rev_induct)
  case Nil
  with assms(1) show ?case by simp
next
  case (snoc m ms)
  obtain pid rule where m: "m = (pid, rule)" by (cases m)
  obtain st1 ids1 where f: "fold (refresh_target env processes stats) ms (st, []) = (st1, ids1)" by fastforce
  from snoc.IH [OF _ f] snoc.prems(1)
  have IH: "registry_ok (fst st1)" "keeps_sessions (fst st) (fst st1)"
    "list_all2 (handled processes (fst st1)) (map fst ms) ids1" by auto
  from snoc.prems(2) f m have r: "refresh_target env processes stats (pid, rule) (st1, ids1) = (st', ids')"
    by simp
  note step = refresh_target_ok [OF IH(1) r]
  then obtain sid where sid: "ids' = ids1 @ [sid]" "handled processes (fst st') pid sid" by blast
  have "list_all2 (handled processes (fst st')) (map fst ms) ids1"
    using IH(3)
  proof (rule list.rel_mono_strong)
    fix pid' sid' assume "pid' \<in> set (map fst ms)" "handled processes (fst st1) pid' sid'"
    moreover from this(1) snoc.prems(1) m have "pid' \<noteq> pid" by auto
    ultimately show "handled processes (fst st') pid' sid'" using step by blast
  qed
  with sid m step keeps_sessions_trans [OF IH(2)] show ?case by (auto intro: list_all2_appendI)
qed


definition finish_gone :: "int \<Rightarrow> pystr list \<Rightarrow> pystr list \<Rightarrow> pystr \<Rightarrow> Session \<Rightarrow> Session" where
  "finish_gone now keys ids sid s =
     (if sid \<in> set keys \<and> se_status s = ''active'' \<and> sid \<notin> set ids then finish now s else s)"

lemma finish_step_sessions:
  "\<exists>X. fst (finish_step env ids k st) = (fst st)\<lparr>tg_sessions := X\<rparr> \<and>
     map fst X = map fst (tg_sessions (fst st)) \<and>
     (\<forall>sid. map_of X sid =
        map_option (finish_gone (rf_now_ns env) [k] ids sid) (map_of (tg_sessions (fst st)) sid))"
proof -
  obtain reg disk n where st: "st = (reg, disk, n)" by (cases st)
  show ?thesis
  proof (cases "\<exists>s. map_of (tg_sessions reg) k = Some s \<and> se_status s = ''active'' \<and> k \<notin> set ids")
    case True
    let ?X = "AList.map_entry k (finish (rf_now_ns env)) (tg_sessions reg)"
    from True have "fst (finish_step env ids k st) = reg\<lparr>tg_sessions := ?X\<rparr>"
      by (auto simp: st finish_step_def)
    moreover have "map_of ?X sid = map_option (finish_gone (rf_now_ns env) [k] ids sid)
        (map_of (tg_sessions reg) sid)" for sid
      using True by (cases "map_of (tg_sessions reg) sid") (auto simp: map_of_map_entry finish_gone_def)
    ultimately show ?thesis unfolding st by (intro exI [of _ ?X]) simp
  next
    case False
    then have "fst (finish_step env ids k st) = reg"
      by (auto simp: st finish_step_def split: option.split)
    moreover have "map_of (tg_sessions reg) sid = map_option (finish_gone (rf_now_ns env) [k] ids sid)
        (map_of (tg_sessions reg) sid)" for sid
      using False by (cases "map_of (tg_sessions reg) sid") (auto simp: finish_gone_def)
    ultimately show ?thesis unfolding st by (intro exI [of _ "tg_sessions reg"]) simp
  qed
qed

lemma finish_gone_twice:
  "finish_gone now [k] ids sid (finish_gone now keys ids sid s) = finish_gone now (keys @ [k]) ids sid s"
proof (cases "se_status s = ''active'' \<and> sid \<notin> set ids")
  case True
  then have gone: "finish_gone now ks ids sid s = (if sid \<in> set ks then finish now s else s)" for ks
    by (simp add: finish_gone_def)
  have "finish_gone now ks ids sid (finish now s) = finish now s" for ks
  proof -
    have "se_status (finish now s) \<noteq> ''active''" by (simp add: finish_def)
    then show ?thesis by (simp only: finish_gone_def simp_thms if_False)
  qed
  then show ?thesis by (cases "sid \<in> set keys") (simp_all add: gone)
next
  case False
  then have "finish_gone now ks ids sid s = s" for ks
    by (simp only: finish_gone_def if_False de_Morgan_conj simp_thms)  auto
  then show ?thesis by (simp only:)
qed

lemma finish_loop_sessions:
  "\<exists>X. fst (fold (finish_step env ids) keys st) = (fst st)\<lparr>tg_sessions := X\<rparr> \<and>
     map fst X = map fst (tg_sessions (fst st)) \<and>
     (\<forall>sid. map_of X sid =
        map_option (finish_gone (rf_now_ns env) keys ids sid) (map_of (tg_sessions (fst st)) sid))"
proof (induction keys rule: rev_induct)
  case Nil
  show ?case
    by (intro exI [of _ "tg_sessions (fst st)"]) (simp add: finish_gone_def option.map_ident)
next
  case (snoc k keys)
  let ?st = "fold (finish_step env ids) keys st"
  from snoc obtain X where X: "fst ?st = (fst st)\<lparr>tg_sessions := X\<rparr>"
    "map fst X = map fst (tg_sessions (fst st))"
    "\<forall>sid. map_of X sid = map_option (finish_gone (rf_now_ns env) keys ids sid) (map_of (tg_sessions (fst st)) sid)"
    by blast
  from finish_step_sessions [of env ids k ?st] X obtain Y where
    Y: "fst (finish_step env ids k ?st) = (fst st)\<lparr>tg_sessions := Y\<rparr>" "map fst Y = map fst X"
    "\<forall>sid. map_of Y sid = map_option (finish_gone (rf_now_ns env) [k] ids sid) (map_of X sid)" by auto
  with X show ?case
    by (intro exI [of _ Y]) (simp add: option.map_comp comp_def finish_gone_twice)
qed

lemma same_process_finish_gone: "same_process s (finish_gone now keys ids sid s)"
  by (simp add: finish_gone_def)

lemma finish_gone_active:
  assumes "sid \<in> set keys"
  shows "finish_gone now keys ids sid s' = s \<and> se_status s = ''active'' \<longleftrightarrow>
    sid \<in> set ids \<and> s' = s \<and> se_status s = ''active''"
proof -
  have "se_status (finish now s') = ''finished''" by (simp add: finish_def)
  then show ?thesis using assms by (auto simp: finish_gone_def)
qed

lemma dict_ok_resolve: "dict_ok (resolve search reg processes)"
proof -
  have "dict_ok hits \<Longrightarrow> dict_ok (fold (\<lambda>proc hits.
      case find (\<lambda>rule. rule_matches search rule proc) (tg_rules reg) of
        Some rule \<Rightarrow> AList.update (pi_pid proc) rule hits | None \<Rightarrow> hits) processes hits)" for hits
    by (induction processes arbitrary: hits) (auto simp: dict_ok_update split: option.split)
  then show ?thesis by (simp add: resolve_def dict_ok_def)
qed

lemma handled_unique:
  assumes "list_all2 (handled processes reg) pids ids" "distinct pids"
    and "sid \<in> set ids" "sid' \<in> set ids"
    and "map_of (tg_sessions reg) sid = Some s" "map_of (tg_sessions reg) sid' = Some s'" "se_pid s = se_pid s'"
  shows "sid = sid'"
proof -
  from assms(3,4) obtain i j where ij: "i < length ids" "ids ! i = sid" "j < length ids" "ids ! j = sid'"
    by (auto simp: in_set_conv_nth)
  from assms(1) ij have "handled processes reg (pids ! i) sid" "handled processes reg (pids ! j) sid'"
    by (auto simp: list_all2_conv_all_nth)
  with assms(5-7) have "pids ! i = pids ! j" by (auto simp: handled_def ident_def)
  with assms(1,2) ij show ?thesis by (metis list_all2_lengthD nth_eq_iff_index_eq)
qed

text \<open>The active sessions of a registry whose dictionary is well formed, seen through the lookup.\<close>

lemma active_sessions_lookup:
  "dict_ok (tg_sessions reg) \<Longrightarrow>
   s \<in> set (active_sessions reg) \<longleftrightarrow> (\<exists>sid. map_of (tg_sessions reg) sid = Some s \<and> se_status s = ''active'')"
proof -
  assume "dict_ok (tg_sessions reg)"
  then have "map_of (tg_sessions reg) sid = Some s \<longleftrightarrow> (sid, s) \<in> set (tg_sessions reg)" for sid
    by (simp add: dict_ok_def)
  then show ?thesis by (force simp: active_sessions_def)
qed

lemma active_pids_distinct:
  assumes "dict_ok (tg_sessions reg)"
    and "\<And>sid s sid' s'. \<lbrakk>map_of (tg_sessions reg) sid = Some s; map_of (tg_sessions reg) sid' = Some s';
      se_status s = ''active''; se_status s' = ''active''; se_pid s = se_pid s'\<rbrakk> \<Longrightarrow> sid = sid'"
  shows "distinct (map se_pid (active_sessions reg))"
proof -
  let ?L = "filter (\<lambda>(sid, s). se_status s = ''active'') (tg_sessions reg)"
  have "active_sessions reg = map snd ?L"
    by (simp add: active_sessions_def filter_map comp_def case_prod_unfold)
  moreover have "distinct ?L" using assms(1) by (simp add: dict_ok_def distinct_map)
  moreover have "inj_on (se_pid \<circ> snd) (set ?L)"
  proof (rule inj_onI)
    fix x y assume xy: "x \<in> set ?L" "y \<in> set ?L" "(se_pid \<circ> snd) x = (se_pid \<circ> snd) y"
    obtain sid s sid' s' where p: "x = (sid, s)" "y = (sid', s')" by (cases x, cases y)
    with xy have act: "se_status s = ''active''" "se_status s' = ''active''" "se_pid s = se_pid s'" by simp_all
    from p xy assms(1) have m: "map_of (tg_sessions reg) sid = Some s" "map_of (tg_sessions reg) sid' = Some s'"
      by (auto simp: dict_ok_def)
    from assms(2) [OF m act] m p show "x = y" by simp
  qed
  ultimately show ?thesis by (simp add: distinct_map)
qed

text \<open>The active sessions after a refresh are the ids that the loop over the targets collected.\<close>

lemma finish_keeps_handled:
  fixes sid :: pystr
  assumes "keys = map fst (tg_sessions reg1)"
    and X: "\<And>sid. map_of X sid = map_option (finish_gone now keys ids sid) (map_of (tg_sessions reg1) sid)"
  shows "map_of X sid = Some s \<and> se_status s = ''active'' \<longleftrightarrow>
      sid \<in> set ids \<and> map_of (tg_sessions reg1) sid = Some s \<and> se_status s = ''active''"
proof -
  have key: "map_of (tg_sessions reg1) sid = Some s' \<Longrightarrow> sid \<in> set keys" for s'
    unfolding assms(1) by (auto dest: map_of_SomeD simp: rev_image_eqI)
  have "finish_gone now keys ids sid s' = s \<and> se_status s = ''active'' \<longleftrightarrow>
      sid \<in> set ids \<and> s' = s \<and> se_status s = ''active''"
    if "map_of (tg_sessions reg1) sid = Some s'" for s'
    using key [OF that] by (rule finish_gone_active)
  then show ?thesis by (cases "map_of (tg_sessions reg1) sid") (simp_all add: X)
qed

lemma refresh_active:
  assumes ok: "registry_ok reg0" and r: "refresh env processes stats reg0 disk0 = (snap, reg, disk)"
  obtains reg1 ids where "registry_ok reg" "keeps_sessions reg0 reg"
    "list_all2 (handled processes reg1)
       (map fst (sort_key fst (resolve (rf_search env) reg0 processes))) ids"
    "\<And>sid s. map_of (tg_sessions reg) sid = Some s \<and> se_status s = ''active'' \<longleftrightarrow>
      sid \<in> set ids \<and> map_of (tg_sessions reg1) sid = Some s \<and> se_status s = ''active''"
proof -
  let ?ms = "sort_key fst (resolve (rf_search env) reg0 processes)"
  obtain st1 ids where f: "fold (refresh_target env processes stats) ?ms ((reg0, disk0, 0), []) = (st1, ids)"
    by fastforce
  have "distinct (map fst ?ms)"
    using dict_ok_resolve by (simp add: dict_ok_def distinct_sort_map)
  from refresh_targets_ok [OF _ this f] ok
  have t: "registry_ok (fst st1)" "keeps_sessions reg0 (fst st1)"
    "list_all2 (handled processes (fst st1)) (map fst ?ms) ids" by auto
  let ?keys = "map fst (tg_sessions (fst st1))"
  from r f have reg: "reg = fst (fold (finish_step env ids) ?keys st1)"
    by (auto simp: refresh_def Let_def split: prod.splits)
  from finish_loop_sessions [of env ids ?keys st1] obtain X where
    X: "reg = (fst st1)\<lparr>tg_sessions := X\<rparr>" "map fst X = ?keys"
    "\<And>sid. map_of X sid = map_option (finish_gone (rf_now_ns env) ?keys ids sid) (map_of (tg_sessions (fst st1)) sid)"
    unfolding reg by blast
  from registry_ok_map [OF t(1) X(2,3) same_process_finish_gone]
  have fin: "registry_ok reg" "keeps_sessions (fst st1) reg" unfolding X(1) by blast+
  show thesis
    by (rule that [OF fin(1) keeps_sessions_trans [OF t(2) fin(2)] t(3)])
      (simp add: X(1) finish_keeps_handled [OF refl X(3)])
qed

lemma active_identities:
  assumes dict: "dict_ok (tg_sessions reg)" and h: "list_all2 (handled processes reg1) pids ids"
    and act: "\<And>sid s. map_of (tg_sessions reg) sid = Some s \<and> se_status s = ''active'' \<longleftrightarrow>
      sid \<in> set ids \<and> map_of (tg_sessions reg1) sid = Some s \<and> se_status s = ''active''"
  shows "ident ` set (active_sessions reg) =
    (\<lambda>pid. (pid, pi_start_time_ns (process_of_pid processes pid))) ` set pids"
proof (intro set_eqI iffI)
  fix i assume "i \<in> ident ` set (active_sessions reg)"
  then obtain sid s where "map_of (tg_sessions reg) sid = Some s \<and> se_status s = ''active''" "i = ident s"
    by (auto simp: active_sessions_lookup [OF dict])
  with act have "sid \<in> set ids" "map_of (tg_sessions reg1) sid = Some s" "i = ident s" by blast+
  moreover from this(1) h obtain pid where "pid \<in> set pids" "handled processes reg1 pid sid"
    by (metis in_set_conv_nth list_all2_conv_all_nth)
  ultimately show "i \<in> (\<lambda>pid. (pid, pi_start_time_ns (process_of_pid processes pid))) ` set pids"
    by (auto simp: handled_def)
next
  fix i assume "i \<in> (\<lambda>pid. (pid, pi_start_time_ns (process_of_pid processes pid))) ` set pids"
  then obtain pid where pid: "pid \<in> set pids" "i = (pid, pi_start_time_ns (process_of_pid processes pid))"
    by auto
  with h obtain sid where "sid \<in> set ids" "handled processes reg1 pid sid"
    by (metis in_set_conv_nth list_all2_conv_all_nth)
  with act pid(2) obtain s where "map_of (tg_sessions reg) sid = Some s \<and> se_status s = ''active''" "i = ident s"
    by (metis handled_def)
  then have "s \<in> set (active_sessions reg)" unfolding active_sessions_lookup [OF dict] by blast
  with \<open>i = ident s\<close> show "i \<in> ident ` set (active_sessions reg)" by simp
qed

text \<open>
  C8: sessions and processes correspond.  From a consistent registry, whatever processes and
  statistics a refresh sees: the registry stays consistent; every recorded session keeps its id, its
  process identity, its command line, its start and its rule (so a reused pid never mixes two processes);
  the active sessions are exactly the matched processes, by pid and start time, and no pid has two of
  them.
\<close>

theorem refresh_sessions_identity:
  assumes ok: "registry_ok reg0" and r: "refresh env processes stats reg0 disk0 = (snap, reg, disk)"
  shows "registry_ok reg \<and> keeps_sessions reg0 reg \<and>
    ident ` set (active_sessions reg) =
      (\<lambda>pid. (pid, pi_start_time_ns (process_of_pid processes pid))) `
        fst ` set (resolve (rf_search env) reg0 processes) \<and>
    distinct (map se_pid (active_sessions reg))"
proof -
  let ?pids = "map fst (sort_key fst (resolve (rf_search env) reg0 processes))"
  have dms: "distinct ?pids"
    using dict_ok_resolve by (simp add: dict_ok_def distinct_sort_map)
  obtain reg1 ids where reg: "registry_ok reg" "keeps_sessions reg0 reg"
    and h: "list_all2 (handled processes reg1) ?pids ids"
    and act: "\<And>sid s. map_of (tg_sessions reg) sid = Some s \<and> se_status s = ''active'' \<longleftrightarrow>
      sid \<in> set ids \<and> map_of (tg_sessions reg1) sid = Some s \<and> se_status s = ''active''"
    by (rule refresh_active [OF ok r]) blast
  have dict: "dict_ok (tg_sessions reg)" using reg(1) by (simp add: registry_ok_def)
  have "distinct (map se_pid (active_sessions reg))"
  proof (rule active_pids_distinct [OF dict])
    fix sid s sid' s'
    assume "map_of (tg_sessions reg) sid = Some s" "map_of (tg_sessions reg) sid' = Some s'"
      "se_status s = ''active''" "se_status s' = ''active''" and pid: "se_pid s = se_pid s'"
    with act have "sid \<in> set ids \<and> map_of (tg_sessions reg1) sid = Some s"
      "sid' \<in> set ids \<and> map_of (tg_sessions reg1) sid' = Some s'" by blast+
    with pid show "sid = sid'" by (blast intro: handled_unique [OF h dms])
  qed
  with active_identities [OF dict h act] reg show ?thesis by (simp add: image_image)
qed

text \<open>A refresh with one rule that matches one of two busy processes.\<close>

definition sample_env :: refresh_env where
  "sample_env = \<lparr>rf_now_ns = 9, rf_stamp = (\<lambda>_. ''t''), rf_search = (\<lambda>_ _. None), rf_files = (\<lambda>_. None),
     rf_adapter_error = (\<lambda>_. None), rf_save_ok = (\<lambda>_. True)\<rparr>"

definition sample_registry :: TargetRegistry where
  "sample_registry = (empty_registry 200)\<lparr>tg_rules := [\<lparr>tr_kind = ''name'', tr_value = ''fio'', tr_adapter = None\<rparr>]\<rparr>"

definition sample_processes :: "ProcessInfo list" where
  "sample_processes = [sample_process, sample_process\<lparr>pi_pid := 20, pi_comm := ''dd''\<rparr>]"

definition sample_stats :: "ProcessIoStat list" where
  "sample_stats = [sample_stat, sample_stat\<lparr>ps_pid := 20, ps_iops := 2\<rparr>]"

lemma sample_registry_ok: "registry_ok sample_registry"
  by (simp add: sample_registry_def empty_registry_def registry_ok_def dict_ok_def)

lemma sample_resolve: "map fst (resolve (rf_search sample_env) sample_registry sample_processes) = [10]"
  by code_simp

lemma sample_targets: "fst ` set (resolve (rf_search sample_env) sample_registry sample_processes) = {10}"
  using arg_cong [OF sample_resolve, of set] by simp

theorem refresh_sessions_identity_witness:
  "ident ` set (active_sessions (fst (snd (refresh sample_env sample_processes sample_stats sample_registry None)))) =
   {(10, 5)}"
proof -
  obtain snap reg disk where r:
    "refresh sample_env sample_processes sample_stats sample_registry None = (snap, reg, disk)"
    by (metis surj_pair)
  have "pi_start_time_ns (process_of_pid sample_processes 10) = 5"
    by (simp add: process_of_pid_def sample_processes_def sample_process_def)
  with refresh_sessions_identity [OF sample_registry_ok r] r show ?thesis
    by (simp add: sample_targets)
qed

end
