(* ===== verification/TargetAttribution.thy ===== *)
theory TargetAttribution
  imports TargetSessions
begin

text \<open>
  Attribution of device I/O in \<open>TargetRegistry.refresh\<close>: the accumulated rows account for every rate.
\<close>

section \<open>Attribution of device I/O\<close>

text \<open>The rate of the statistics of one device that satisfy \<open>P\<close>.\<close>

definition rate_where :: "(ProcessIoStat \<Rightarrow> bool) \<Rightarrow> pystr \<Rightarrow> ProcessIoStat list \<Rightarrow> pyfloat" where
  "rate_where P name stats = (\<Sum>st\<leftarrow>filter (\<lambda>st. ps_device st = name \<and> P st) stats. ps_iops st)"

lemma rate_where_Nil [simp]: "rate_where P name [] = 0"
  by (simp add: rate_where_def)

lemma rate_where_snoc [simp]:
  "rate_where P name (stats @ [st]) =
     rate_where P name stats + (if ps_device st = name \<and> P st then ps_iops st else 0)"
  by (simp add: rate_where_def)

lemma set_add_contributors:
  "set (add_contributors actives pid listed) =
     set listed \<union> se_session_id ` {s \<in> set actives. se_pid s = pid}"
  unfolding add_contributors_def by (induction actives arbitrary: listed) auto

lemma distinct_add_contributors: "distinct listed \<Longrightarrow> distinct (add_contributors actives pid listed)"
  unfolding add_contributors_def by (induction actives arbitrary: listed) auto

definition contributors :: "Session list \<Rightarrow> ProcessIoStat list \<Rightarrow> pystr \<Rightarrow> pystr set" where
  "contributors actives stats name =
     se_session_id ` {s \<in> set actives. \<exists>st \<in> set stats. ps_device st = name \<and> ps_pid st = se_pid s}"

lemma contributors_snoc:
  "contributors actives (stats @ [st]) name =
     contributors actives stats name \<union>
     (if ps_device st = name then se_session_id ` {s \<in> set actives. se_pid s = ps_pid st} else {})"
  by (auto simp: contributors_def)

text \<open>What the loop has accumulated for a device.\<close>

definition accounted :: "Session list \<Rightarrow> ProcessIoStat list \<Rightarrow> pystr \<Rightarrow> DeviceAttribution \<Rightarrow> bool" where
  "accounted actives stats name d \<longleftrightarrow> da_name d = name \<and>
     da_total_iops d = rate_where (\<lambda>_. True) name stats \<and>
     da_attributed_iops d = rate_where (\<lambda>st. ps_pid st \<in> se_pid ` set actives) name stats \<and>
     da_unattributed_iops d = rate_where (\<lambda>st. ps_pid st \<notin> se_pid ` set actives) name stats \<and>
     set (da_contributing_sessions d) = contributors actives stats name \<and>
     distinct (da_contributing_sessions d)"

lemma rate_where_absent: "name \<notin> ps_device ` set stats \<Longrightarrow> rate_where P name stats = 0"
  by (induction stats) (auto simp: rate_where_def)

lemma accounted_empty:
  "name \<notin> ps_device ` set stats \<Longrightarrow> accounted actives stats name (empty_attribution name)"
  by (auto simp: accounted_def empty_attribution_def rate_where_absent contributors_def)

lemma accounted_other:
  "\<lbrakk>accounted actives stats name d; ps_device st \<noteq> name\<rbrakk> \<Longrightarrow> accounted actives (stats @ [st]) name d"
  by (simp add: accounted_def contributors_snoc)

lemma dict_ok_attribute_stat: "dict_ok m \<Longrightarrow> dict_ok (attribute_stat actives st m)"
  by (simp add: attribute_stat_def Let_def dict_ok_update)

lemma attribute_stat_entry:
  assumes d: "accounted actives stats (ps_device st) (dict_get m (ps_device st) (empty_attribution (ps_device st)))"
  obtains d' where
    "\<And>name. map_of (attribute_stat actives st m) name = (if name = ps_device st then Some d' else map_of m name)"
    "accounted actives (stats @ [st]) (ps_device st) d'"
proof (cases "ps_pid st \<in> se_pid ` set actives")
  case True
  with d show thesis
    by (intro that [of "the (map_of (attribute_stat actives st m) (ps_device st))"])
      (simp_all add: attribute_stat_def Let_def map_of_update accounted_def contributors_snoc
        set_add_contributors distinct_add_contributors)
next
  case False
  then have none: "{s \<in> set actives. se_pid s = ps_pid st} = {}" by force
  from False d show thesis
    by (intro that [of "the (map_of (attribute_stat actives st m) (ps_device st))"])
      (simp_all add: attribute_stat_def Let_def map_of_update accounted_def contributors_snoc none)
qed

lemma attribute_loop:
  "dict_ok (fold (attribute_stat actives) stats []) \<and>
   (\<forall>name. case map_of (fold (attribute_stat actives) stats []) name of
      None \<Rightarrow> name \<notin> ps_device ` set stats
    | Some d \<Rightarrow> name \<in> ps_device ` set stats \<and> accounted actives stats name d)"
proof (induction stats rule: rev_induct)
  case Nil
  show ?case by (simp add: dict_ok_def)
next
  case (snoc st stats)
  let ?m = "fold (attribute_stat actives) stats []" and ?n = "ps_device st"
  let ?d = "dict_get ?m ?n (empty_attribution ?n)"
  have d: "accounted actives stats ?n ?d"
  proof (cases "map_of ?m ?n")
    case None
    with snoc have "?n \<notin> ps_device ` set stats" by (metis (mono_tags, lifting) option.case(1))
    then show ?thesis using None by (simp add: dict_get_def accounted_empty)
  next
    case (Some d)
    with snoc have "accounted actives stats ?n d" by (metis (mono_tags, lifting) option.case(2))
    then show ?thesis using Some by (simp add: dict_get_def)
  qed
  let ?m' = "attribute_stat actives st ?m"
  obtain d' where upd: "\<And>name. map_of ?m' name = (if name = ?n then Some d' else map_of ?m name)"
    and d': "accounted actives (stats @ [st]) ?n d'"
    using attribute_stat_entry [OF d] by blast
  have "case map_of ?m' name of
      None \<Rightarrow> name \<notin> ps_device ` set (stats @ [st])
    | Some d \<Rightarrow> name \<in> ps_device ` set (stats @ [st]) \<and> accounted actives (stats @ [st]) name d" for name
  proof (cases "name = ?n")
    case True
    then show ?thesis using d' upd [of name] by simp
  next
    case False
    have "case map_of ?m name of None \<Rightarrow> name \<notin> ps_device ` set stats
      | Some d \<Rightarrow> name \<in> ps_device ` set stats \<and> accounted actives stats name d" using snoc by blast
    with False upd [of name] show ?thesis
      by (cases "map_of ?m name") (simp_all add: accounted_other)
  qed
  with snoc show ?case by (simp add: dict_ok_attribute_stat)
qed

lemma device_attributions_names:
  "map da_name (device_attributions actives stats) = sorted_list_of_set (ps_device ` set stats)"
proof -
  let ?m = "fold (attribute_stat actives) stats []"
  have ok: "dict_ok ?m" and loop: "\<And>name. case map_of ?m name of
      None \<Rightarrow> name \<notin> ps_device ` set stats
    | Some d \<Rightarrow> name \<in> ps_device ` set stats \<and> accounted actives stats name d"
    using attribute_loop [of actives stats] by auto
  have names: "map (\<lambda>(n, d). da_name d) ?m = map fst ?m"
    using loop ok by (fastforce simp: accounted_def dict_ok_def split: option.splits)
  have keys: "fst ` set ?m = ps_device ` set stats"
    using loop by (force simp: map_of_eq_None_iff split: option.splits)
  have "map da_name (device_attributions actives stats) = sort (map (\<lambda>(n, d). da_name d) ?m)"
    unfolding device_attributions_def
    by (intro properties_for_sort [symmetric])
      (simp_all only: mset_map mset_sort, simp_all add: image_mset.compositionality comp_def case_prod_unfold)
  then show ?thesis
    using ok sorted_list_of_set_sort_remdups [of "map fst ?m"] keys
    by (simp add: names dict_ok_def distinct_remdups_id)
qed

lemma device_attributions_accounted:
  assumes "d \<in> set (device_attributions actives stats)"
  shows "accounted actives stats (da_name d) d \<and>
    (da_multi_process_warning d \<longleftrightarrow> 1 < card (set (busy_pids stats (da_name d))))"
proof -
  let ?m = "fold (attribute_stat actives) stats []"
  from assms obtain name d0 where d0: "(name, d0) \<in> set ?m"
    "d = d0\<lparr>da_multi_process_warning := length (busy_pids stats (da_name d0)) > 1\<rparr>"
    by (auto simp: device_attributions_def)
  have "map_of ?m name = Some d0"
    using d0(1) attribute_loop [of actives stats] by (simp add: dict_ok_def)
  then have "accounted actives stats name d0"
    using attribute_loop [of actives stats] by (metis (mono_tags, lifting) option.case(2))
  moreover have "length (busy_pids stats n) = card (set (busy_pids stats n))" for n
    by (simp add: busy_pids_def distinct_card [symmetric])
  ultimately show ?thesis by (simp add: d0(2) accounted_def)
qed

lemma refresh_active_pids:
  assumes ok: "registry_ok reg0" and r: "refresh env processes stats reg0 disk0 = (snap, reg, disk)"
  shows "se_pid ` set (active_sessions reg) = fst ` set (resolve (rf_search env) reg0 processes)"
proof -
  let ?pids = "map fst (sort_key fst (resolve (rf_search env) reg0 processes))"
  obtain reg1 ids where reg: "registry_ok reg" and h: "list_all2 (handled processes reg1) ?pids ids"
    and act: "\<And>sid s. map_of (tg_sessions reg) sid = Some s \<and> se_status s = ''active'' \<longleftrightarrow>
      sid \<in> set ids \<and> map_of (tg_sessions reg1) sid = Some s \<and> se_status s = ''active''"
    by (rule refresh_active [OF ok r]) blast
  have "fst ` ident ` set (active_sessions reg) = set ?pids"
    using active_identities [OF _ h act] reg by (simp add: registry_ok_def image_image)
  then show ?thesis by (simp add: image_image ident_def)
qed

lemma refresh_snapshot:
  assumes "refresh env processes stats reg0 disk0 = (snap, reg, disk)"
  shows "sn_devices snap = device_attributions (active_sessions reg) stats"
    and "sn_unmonitored_io snap = sort_key (\<lambda>u. - um_io_rate u) (unmonitored_of (active_sessions reg) stats)"
    and "mset (sn_sessions snap) = mset (map snd (tg_sessions reg))"
    and "sn_rules snap = tg_rules reg"
  using assms by (auto simp: refresh_def Let_def split: prod.splits)

text \<open>
  C9: the I/O of a device is split between targets and others without loss.  After a refresh from a
  consistent registry there is one row per device seen, ordered by name; its total is the sum of the
  rates of all processes on it, the attributed part that of the processes that some rule matches, the
  rest is unattributed; the contributing sessions are listed once; the warning is set exactly when two
  processes are busy on the device; and the unmonitored rows are the busy processes that no rule matches,
  largest rate first.
\<close>

theorem refresh_attribution:
  assumes ok: "registry_ok reg0" and r: "refresh env processes stats reg0 disk0 = (snap, reg, disk)"
  shows "map da_name (sn_devices snap) = sorted_list_of_set (ps_device ` set stats) \<and>
    (\<forall>d \<in> set (sn_devices snap).
       da_total_iops d = rate_where (\<lambda>_. True) (da_name d) stats \<and>
       da_attributed_iops d =
         rate_where (\<lambda>st. ps_pid st \<in> fst ` set (resolve (rf_search env) reg0 processes)) (da_name d) stats \<and>
       da_total_iops d = da_attributed_iops d + da_unattributed_iops d \<and>
       distinct (da_contributing_sessions d) \<and>
       (da_multi_process_warning d \<longleftrightarrow> 1 < card (set (busy_pids stats (da_name d))))) \<and>
    mset (map (\<lambda>u. (um_pid u, um_device u, um_io_rate u)) (sn_unmonitored_io snap)) =
      mset (map (\<lambda>st. (ps_pid st, ps_device st, ps_iops st))
        (filter (\<lambda>st. ps_pid st \<notin> fst ` set (resolve (rf_search env) reg0 processes) \<and> 0 < ps_iops st) stats)) \<and>
    sorted_wrt (\<lambda>u u'. um_io_rate u' \<le> um_io_rate u) (sn_unmonitored_io snap)"
proof -
  let ?T = "fst ` set (resolve (rf_search env) reg0 processes)"
  note snap = refresh_snapshot [OF r]
  have split: "rate_where (\<lambda>_. True) n stats = rate_where P n stats + rate_where (\<lambda>st. \<not> P st) n stats" for P n
    by (induction stats) (auto simp: rate_where_def)
  have sorted: "sorted_wrt (\<lambda>u u'. um_io_rate u' \<le> um_io_rate u) (sort_key (\<lambda>u. - um_io_rate u) us)" for us
    using sorted_sort_key [of "\<lambda>u. - um_io_rate u" us] by (simp add: sorted_wrt_map)
  have um: "mset (map (\<lambda>u. (um_pid u, um_device u, um_io_rate u)) (sn_unmonitored_io snap)) =
      mset (map (\<lambda>st. (ps_pid st, ps_device st, ps_iops st))
        (filter (\<lambda>st. ps_pid st \<notin> ?T \<and> 0 < ps_iops st) stats))"
    by (simp add: snap(2) unmonitored_of_def refresh_active_pids [OF ok r]
        image_mset.compositionality comp_def)
  show ?thesis
    using device_attributions_accounted split sorted um unfolding snap(1)
    by (auto simp: accounted_def refresh_active_pids [OF ok r] device_attributions_names snap(2))
qed

theorem refresh_attribution_witness:
  "map (\<lambda>d. (da_name d, da_total_iops d, da_attributed_iops d))
     (sn_devices (fst (refresh sample_env sample_processes sample_stats sample_registry None))) =
   [(''nvme0'', 9, 7)]"
proof -
  obtain snap reg disk where r:
    "refresh sample_env sample_processes sample_stats sample_registry None = (snap, reg, disk)"
    by (metis surj_pair)
  note attribution = refresh_attribution [OF sample_registry_ok r, unfolded sample_targets]
  have "map da_name (sn_devices snap) = [''nvme0'']"
    using attribution by (simp add: sample_stats_def sample_stat_def)
  then obtain d where d: "sn_devices snap = [d]" "da_name d = ''nvme0''" by auto
  with attribution have "da_total_iops d = rate_where (\<lambda>_. True) ''nvme0'' sample_stats"
    "da_attributed_iops d = rate_where (\<lambda>st. ps_pid st \<in> {10}) ''nvme0'' sample_stats" by simp_all
  with d r show ?thesis by (simp add: rate_where_def sample_stats_def sample_stat_def)
qed

end
