(* ===== verification/TargetStore.thy ===== *)
theory TargetStore
  imports TargetSessions
begin

text \<open>
  The rules of \<open>TargetRegistry\<close> as a map (locale \<open>rule_store\<close>, interpreted on the code's rule list) and the
  state file: what a restart restores.
\<close>

section \<open>The rules as a store\<close>

text \<open>
  What the services rely on: at most one rule per kind and value, adding replaces the adapter of an
  existing rule, and removing takes away exactly the named rule.
\<close>

locale rule_store =
  fixes lookup :: "'s \<Rightarrow> 'k \<Rightarrow> 'v option"
    and inv :: "'s \<Rightarrow> bool"
    and put :: "'k \<Rightarrow> 'v \<Rightarrow> 's \<Rightarrow> 's"
    and drop_key :: "'k \<Rightarrow> 's \<Rightarrow> 's"
    and valid :: "'k \<Rightarrow> bool"
  assumes put_inv: "\<lbrakk>inv s; valid k\<rbrakk> \<Longrightarrow> inv (put k v s)"
    and lookup_put: "\<lbrakk>inv s; valid k\<rbrakk> \<Longrightarrow> lookup (put k v s) = (lookup s)(k \<mapsto> v)"
    and drop_inv: "inv s \<Longrightarrow> inv (drop_key k s)"
    and lookup_drop: "inv s \<Longrightarrow> lookup (drop_key k s) = (lookup s)(k := None)"
begin

lemma put_put: "\<lbrakk>inv s; valid k\<rbrakk> \<Longrightarrow> lookup (put k w (put k v s)) = lookup (put k w s)"
  by (simp add: put_inv lookup_put)

lemma drop_put: "\<lbrakk>inv s; valid k\<rbrakk> \<Longrightarrow> lookup (drop_key k (put k v s)) = (lookup s)(k := None)"
  by (simp add: put_inv lookup_put lookup_drop)

lemma put_other: "\<lbrakk>inv s; valid k; k' \<noteq> k\<rbrakk> \<Longrightarrow> lookup (put k v s) k' = lookup s k'"
  by (simp add: lookup_put)

end

definition rule_key :: "TargetRule \<Rightarrow> pystr \<times> pystr" where
  "rule_key r = (tr_kind r, tr_value r)"

definition rule_map :: "TargetRule list \<Rightarrow> pystr \<times> pystr \<Rightarrow> pystr option option" where
  "rule_map rules = map_of (map (\<lambda>r. (rule_key r, tr_adapter r)) rules)"

definition rules_ok :: "TargetRule list \<Rightarrow> bool" where
  "rules_ok rules \<longleftrightarrow> distinct (map rule_key rules) \<and> tr_kind ` set rules \<subseteq> set VALID_KINDS"

definition put_rule :: "TargetRule \<Rightarrow> TargetRule list \<Rightarrow> TargetRule list" where
  "put_rule rule rules = (case set_rule_adapter rule rules of Some rs \<Rightarrow> rs | None \<Rightarrow> rules @ [rule])"

definition drop_rule :: "pystr \<times> pystr \<Rightarrow> TargetRule list \<Rightarrow> TargetRule list" where
  "drop_rule k rules = filter (\<lambda>r. rule_key r \<noteq> k) rules"

lemma set_rule_adapter_None: "set_rule_adapter rule rules = None \<longleftrightarrow> rule_key rule \<notin> rule_key ` set rules"
  by (induction rules) (auto simp: rule_key_def)

lemma set_rule_adapter_Some:
  "set_rule_adapter rule rules = Some rs \<Longrightarrow>
   map rule_key rs = map rule_key rules \<and> rule_map rs = (rule_map rules)(rule_key rule \<mapsto> tr_adapter rule)"
  by (induction rules arbitrary: rs) (auto simp: rule_key_def rule_map_def split: if_splits)

lemma valid_kinds_keys: "tr_kind ` set rules = fst ` set (map rule_key rules)"
  by (simp add: rule_key_def image_image)

lemma put_rule_ok:
  assumes "rules_ok rules" "tr_kind rule \<in> set VALID_KINDS"
  shows "rules_ok (put_rule rule rules)"
proof (cases "set_rule_adapter rule rules")
  case None
  then have "put_rule rule rules = rules @ [rule]" by (simp add: put_rule_def)
  with None assms show ?thesis by (auto simp: rules_ok_def set_rule_adapter_None)
next
  case (Some rs)
  from set_rule_adapter_Some [OF Some] have keys: "map rule_key rs = map rule_key rules" by simp
  then have "tr_kind ` set rs = tr_kind ` set rules" unfolding valid_kinds_keys by simp
  with Some assms(1) keys show ?thesis by (simp add: put_rule_def rules_ok_def)
qed

lemma rule_map_None: "rule_map rules k = None \<longleftrightarrow> k \<notin> rule_key ` set rules"
  by (simp add: rule_map_def map_of_eq_None_iff image_image)

lemma rule_map_put: "rule_map (put_rule rule rules) = (rule_map rules)(rule_key rule \<mapsto> tr_adapter rule)"
proof (cases "set_rule_adapter rule rules")
  case None
  then have "rule_map rules (rule_key rule) = None"
    by (simp add: rule_map_None set_rule_adapter_None)
  with None show ?thesis
    by (auto simp: put_rule_def rule_map_def fun_eq_iff map_add_def split: option.split)
next
  case (Some rs)
  then show ?thesis using set_rule_adapter_Some [OF Some] by (simp add: put_rule_def)
qed

lemma drop_rule_ok: "rules_ok rules \<Longrightarrow> rules_ok (drop_rule k rules)"
  by (auto simp: rules_ok_def drop_rule_def distinct_map inj_on_def)

lemma rule_map_drop: "rule_map (drop_rule k rules) = (rule_map rules)(k := None)"
  by (induction rules) (auto simp: rule_map_def drop_rule_def fun_eq_iff)

interpretation target_rules: rule_store rule_map rules_ok
  "\<lambda>k a. put_rule \<lparr>tr_kind = fst k, tr_value = snd k, tr_adapter = a\<rparr>" drop_rule
  "\<lambda>k. fst k \<in> set VALID_KINDS"
  by unfold_locales (simp_all add: put_rule_ok rule_map_put rule_key_def drop_rule_ok rule_map_drop)

lemma add_rule_put:
  "tr_kind rule \<in> set VALID_KINDS \<Longrightarrow>
   add_rule ok rule reg disk =
     Inr (reg\<lparr>tg_rules := put_rule rule (tg_rules reg)\<rparr>,
          save ok (reg\<lparr>tg_rules := put_rule rule (tg_rules reg)\<rparr>) disk)"
  by (simp add: add_rule_def put_rule_def Let_def)

lemma remove_rule_drop:
  "remove_rule ok kind value reg disk =
     (rule_map (tg_rules reg) (kind, value) \<noteq> None,
      reg\<lparr>tg_rules := drop_rule (kind, value) (tg_rules reg)\<rparr>,
      if rule_map (tg_rules reg) (kind, value) \<noteq> None
      then save ok (reg\<lparr>tg_rules := drop_rule (kind, value) (tg_rules reg)\<rparr>) disk else disk)"
proof -
  have drop: "filter (\<lambda>r. tr_kind r = kind \<longrightarrow> tr_value r \<noteq> value) rules = drop_rule (kind, value) rules"
    for rules by (simp add: drop_rule_def rule_key_def)
  have "length (drop_rule k rules) \<noteq> length rules \<longleftrightarrow> rule_map rules k \<noteq> None" for k rules
  proof (cases "\<exists>r \<in> set rules. rule_key r = k")
    case True
    then have "length (drop_rule k rules) < length rules"
      unfolding drop_rule_def by (blast intro: length_filter_less)
    with True show ?thesis by (auto simp: rule_map_None)
  next
    case False
    then have "drop_rule k rules = rules" by (simp add: drop_rule_def)
    with False show ?thesis by (auto simp: rule_map_None)
  qed
  then show ?thesis by (simp add: remove_rule_def Let_def drop)
qed

text \<open>
  C22: the rules behave as a map from kind and value to adapter.  Adding a rule of a known kind
  keeps the rules well formed, sets exactly that entry and, when the write succeeds, leaves a file that
  describes the new registry; a rule of an unknown kind is refused with \<open>ValueError\<close>.  Removing clears exactly
  the named entry and reports whether there was one.  Sessions are not touched.
\<close>

theorem rule_changes:
  assumes "rules_ok (tg_rules reg)"
  shows "(case add_rule ok rule reg disk of
       Inl e \<Rightarrow> tr_kind rule \<notin> set VALID_KINDS \<and> e = ValueError (MsgRaw (tr_kind rule))
     | Inr (reg', disk') \<Rightarrow> tr_kind rule \<in> set VALID_KINDS \<and> rules_ok (tg_rules reg') \<and>
         rule_map (tg_rules reg') = (rule_map (tg_rules reg))(rule_key rule \<mapsto> tr_adapter rule) \<and>
         tg_sessions reg' = tg_sessions reg \<and> (ok \<longrightarrow> disk' = Some (state_document reg'))) \<and>
   (case remove_rule ok kind v reg disk of
      (changed, reg', disk') \<Rightarrow> rules_ok (tg_rules reg') \<and>
         rule_map (tg_rules reg') = (rule_map (tg_rules reg))((kind, v) := None) \<and>
         (changed \<longleftrightarrow> (kind, v) \<in> dom (rule_map (tg_rules reg))) \<and>
         tg_sessions reg' = tg_sessions reg \<and> (ok \<and> changed \<longrightarrow> disk' = Some (state_document reg')))"
proof (intro conjI)
  show "case add_rule ok rule reg disk of
       Inl e \<Rightarrow> tr_kind rule \<notin> set VALID_KINDS \<and> e = ValueError (MsgRaw (tr_kind rule))
     | Inr (reg', disk') \<Rightarrow> tr_kind rule \<in> set VALID_KINDS \<and> rules_ok (tg_rules reg') \<and>
         rule_map (tg_rules reg') = (rule_map (tg_rules reg))(rule_key rule \<mapsto> tr_adapter rule) \<and>
         tg_sessions reg' = tg_sessions reg \<and> (ok \<longrightarrow> disk' = Some (state_document reg'))"
  proof (cases "tr_kind rule \<in> set VALID_KINDS")
    case True
    have r: "rule = \<lparr>tr_kind = fst (rule_key rule), tr_value = snd (rule_key rule), tr_adapter = tr_adapter rule\<rparr>"
      by (simp add: rule_key_def)
    have "fst (rule_key rule) \<in> set VALID_KINDS" using True by (simp add: rule_key_def)
    from target_rules.put_inv [OF assms this, of "tr_adapter rule"]
      target_rules.lookup_put [OF assms this, of "tr_adapter rule"] True
    show ?thesis by (simp add: add_rule_put save_def flip: r)
  next
    case False
    then show ?thesis by (simp add: add_rule_def)
  qed
  show "case remove_rule ok kind v reg disk of
      (changed, reg', disk') \<Rightarrow> rules_ok (tg_rules reg') \<and>
         rule_map (tg_rules reg') = (rule_map (tg_rules reg))((kind, v) := None) \<and>
         (changed \<longleftrightarrow> (kind, v) \<in> dom (rule_map (tg_rules reg))) \<and>
         tg_sessions reg' = tg_sessions reg \<and> (ok \<and> changed \<longrightarrow> disk' = Some (state_document reg'))"
    using target_rules.drop_inv [OF assms] target_rules.lookup_drop [OF assms]
    by (auto simp: remove_rule_drop save_def)
qed

theorem rule_changes_witness:
  "(case remove_rule True ''name'' ''fio'' sample_registry None of
      (changed, reg', disk') \<Rightarrow> changed \<and> rule_map (tg_rules reg') (''name'', ''fio'') = None)"
proof -
  have "rules_ok (tg_rules sample_registry)"
    by (simp add: sample_registry_def rules_ok_def VALID_KINDS_def)
  from rule_changes [OF this, where kind = "''name''" and v = "''fio''" and ok = True and disk = None]
  show ?thesis
    by (auto simp: sample_registry_def empty_registry_def rule_map_def rule_key_def split: prod.splits)
qed

section \<open>Restart\<close>

text \<open>A session as it comes back from the file.\<close>

definition restored :: "Session \<Rightarrow> Session" where
  "restored s = s\<lparr>se_status := ''finished'', se_aggregate := None, se_logical_groups := []\<rparr>"

lemma session_of_doc_to_doc [simp]: "session_of_doc (session_to_doc s) = Some (restored s)"
  by (simp add: session_of_doc_def session_to_doc_def restored_def)

lemma load_rules_docs:
  "tr_kind ` set rules \<subseteq> set VALID_KINDS \<Longrightarrow> load_rules (map rule_to_doc rules) acc = Inr (acc @ rules)"
  by (induction rules arbitrary: acc) (simp_all add: rule_to_doc_def)

lemma restored_ident [simp]: "ident (restored s) = ident s" "se_session_id (restored s) = se_session_id s"
  by (simp_all add: restored_def ident_def)

lemma load_session_rules [simp]: "tg_rules (load_session d reg) = tg_rules reg"
  by (simp add: load_session_def split: option.split)

lemma load_sessions_docs:
  assumes "registry_ok reg" "tg_sessions reg = []" "distinct (map se_session_id ss)" "distinct (map ident ss)"
  shows "\<exists>reg'. fold load_session (map session_to_doc ss) reg = reg' \<and> registry_ok reg' \<and>
    tg_rules reg' = tg_rules reg \<and> tg_sessions reg' = map (\<lambda>s. (se_session_id s, restored s)) ss"
  using assms(3,4)
proof (induction ss rule: rev_induct)
  case Nil
  with assms show ?case by simp
next
  case (snoc s ss)
  let ?reg = "fold load_session (map session_to_doc ss) reg"
  from snoc have IH: "registry_ok ?reg" "tg_rules ?reg = tg_rules reg"
    "tg_sessions ?reg = map (\<lambda>s. (se_session_id s, restored s)) ss" by auto
  have new: "se_session_id s \<notin> fst ` set (tg_sessions ?reg)"
    using snoc.prems(1) IH(3) by (auto simp: image_image)
  have "registry_ok (load_session (session_to_doc s) ?reg)"
  proof -
    have "registry_ok (?reg\<lparr>tg_sessions := AList.update (se_session_id s) (restored s) (tg_sessions ?reg),
        tg_by_identity := AList.update (ident s) (se_session_id s) (tg_by_identity ?reg)\<rparr>)"
    proof (rule registry_ok_add [OF IH(1)])
      show "map_of (tg_sessions ?reg) (se_session_id s) = None"
        using new by (simp add: map_of_eq_None_iff)
      fix sid' t assume "map_of (tg_sessions ?reg) sid' = Some t"
      then have "(sid', t) \<in> set (tg_sessions ?reg)" by (rule map_of_SomeD)
      with IH(3) obtain sa where "sa \<in> set ss" "t = restored sa" by auto
      then show "ident t \<noteq> ident s" using snoc.prems(2) by (metis distinct_map_snoc restored_ident(1))
    qed simp_all
    then show ?thesis by (simp add: load_session_def ident_def restored_def)
  qed
  moreover have "tg_sessions (load_session (session_to_doc s) ?reg) = tg_sessions ?reg @ [(se_session_id s, restored s)]"
    using update_fresh [OF new] by (simp add: load_session_def)
  ultimately show ?case using IH(2,3) by simp
qed

lemma registry_sessions_distinct:
  assumes "registry_ok reg"
  shows "distinct (map se_session_id (map snd (tg_sessions reg)))" "distinct (map ident (map snd (tg_sessions reg)))"
proof -
  let ?m = "tg_sessions reg"
  have dict: "dict_ok ?m" using assms by (simp add: registry_ok_def)
  have entry: "(sid, s) \<in> set ?m \<Longrightarrow> map_of ?m sid = Some s" for sid s
    using dict by (simp add: dict_ok_def)
  have "map se_session_id (map snd ?m) = map fst ?m"
    using assms entry by (fastforce simp: registry_ok_def)
  then show "distinct (map se_session_id (map snd ?m))"
    using dict unfolding dict_ok_def by (simp only:)
  have "inj_on (\<lambda>p. ident (snd p)) (set ?m)"
  proof (rule inj_onI)
    fix x y assume xy: "x \<in> set ?m" "y \<in> set ?m" "ident (snd x) = ident (snd y)"
    with entry have m: "map_of ?m (fst x) = Some (snd x)" "map_of ?m (fst y) = Some (snd y)"
      by (metis prod.collapse)+
    with registry_index [OF assms, of "ident (snd x)"] xy(3) have "fst x = fst y"
      by (metis option.inject)
    with m show "x = y" by (simp add: prod_eq_iff)
  qed
  with dict show "distinct (map ident (map snd ?m))"
    by (simp add: distinct_map dict_ok_def comp_def)
qed

lemma load_document:
  assumes "registry_ok reg" "rules_ok (tg_rules reg)"
  obtains reg' where "load max_finished (Some (state_document reg)) = Inr reg'" "registry_ok reg'"
    "tg_rules reg' = tg_rules reg"
    "tg_sessions reg' = map (\<lambda>s. (se_session_id s, restored s))
      (last_n (tg_max_finished reg) (map snd (tg_sessions reg)))"
proof -
  let ?ss = "last_n (tg_max_finished reg) (map snd (tg_sessions reg))"
  let ?reg0 = "(empty_registry max_finished)\<lparr>tg_rules := tg_rules reg\<rparr>"
  have "registry_ok ?reg0" "tg_sessions ?reg0 = []"
    by (simp_all add: empty_registry_def registry_ok_def dict_ok_def)
  from load_sessions_docs [OF this distinct_map_last_n distinct_map_last_n, OF registry_sessions_distinct [OF assms(1)]]
  obtain reg' where reg': "fold load_session (map session_to_doc ?ss) ?reg0 = reg'" "registry_ok reg'"
    "tg_rules reg' = tg_rules reg" "tg_sessions reg' = map (\<lambda>s. (se_session_id s, restored s)) ?ss"
    by auto
  show thesis
    by (rule that [OF _ reg'(2,3,4)])
      (use assms(2) reg'(1) in \<open>simp add: load_def state_document_def load_rules_docs rules_ok_def\<close>)
qed

text \<open>
  C16: nothing is lost over a restart.  A registry built from the file that a save wrote has the same
  rules and the last \<open>max_finished\<close> sessions, finished and without their groups, in the same order; it is
  consistent again, and a process that is still running is recognised by its pid and start time as the
  session it had before.
\<close>

theorem restart_restores:
  assumes "registry_ok reg" "rules_ok (tg_rules reg)"
  shows "\<exists>reg'. load max_finished (Some (state_document reg)) = Inr reg' \<and> registry_ok reg' \<and>
    tg_rules reg' = tg_rules reg \<and>
    tg_sessions reg' = map (\<lambda>s. (se_session_id s, restored s))
      (last_n (tg_max_finished reg) (map snd (tg_sessions reg))) \<and>
    (\<forall>s \<in> set (last_n (tg_max_finished reg) (map snd (tg_sessions reg))).
       known_session reg' (ident s) = Some (se_session_id s))"
proof -
  let ?ss = "last_n (tg_max_finished reg) (map snd (tg_sessions reg))"
  obtain reg' where reg': "load max_finished (Some (state_document reg)) = Inr reg'" "registry_ok reg'"
    "tg_rules reg' = tg_rules reg" "tg_sessions reg' = map (\<lambda>s. (se_session_id s, restored s)) ?ss"
    using load_document [OF assms] by blast
  have "known_session reg' (ident s) = Some (se_session_id s)" if "s \<in> set ?ss" for s
  proof -
    from that reg'(4) have "(se_session_id s, restored s) \<in> set (tg_sessions reg')" by auto
    then have "map_of (tg_sessions reg') (se_session_id s) = Some (restored s)"
      using reg'(2) by (simp add: registry_ok_def dict_ok_def)
    then show ?thesis using known_session_ok [OF reg'(2)] by auto
  qed
  with reg' show ?thesis by auto
qed

definition sample_saved :: TargetRegistry where
  "sample_saved = sample_registry
     \<lparr>tg_sessions := AList.update ''s1'' (new_session 9 ''s1'' sample_process 10 (hd (tg_rules sample_registry)))
        (tg_sessions sample_registry),
      tg_by_identity := AList.update (10, 5) ''s1'' (tg_by_identity sample_registry)\<rparr>"

theorem restart_restores_witness:
  "\<exists>reg'. load 200 (Some (state_document sample_saved)) = Inr reg' \<and> known_session reg' (10, 5) = Some ''s1''"
proof -
  let ?s = "new_session 9 ''s1'' sample_process 10 (hd (tg_rules sample_registry))"
  have s: "ident (new_session 9 ''s1'' sample_process 10 r) = (10, 5)"
    "se_session_id (new_session 9 ''s1'' sample_process 10 r) = ''s1''" for r
    by (simp_all add: new_session_def ident_def sample_process_def)
  have "registry_ok sample_saved"
    unfolding sample_saved_def
    by (rule registry_ok_add [OF sample_registry_ok])
      (simp_all add: s sample_registry_def empty_registry_def)
  moreover have "rules_ok (tg_rules sample_saved)"
    by (simp add: sample_saved_def sample_registry_def rules_ok_def VALID_KINDS_def)
  moreover have "last_n (tg_max_finished sample_saved) (map snd (tg_sessions sample_saved)) = [?s]"
    by (simp add: sample_saved_def sample_registry_def empty_registry_def last_n_def)
  ultimately show ?thesis using restart_restores [of sample_saved 200] s by auto
qed

end
