(* ===== verification/TtlCache.thy ===== *)
theory TtlCache
  imports Prelude
begin

text \<open>
  \<open>AdaptiveTtlCache\<close> of \<open>platform/cache.py\<close>.  The clock and the \<open>compute\<close> callback are the
  environment: a call gets the clock reading \<open>now\<close> taken on entry, the outcome of \<open>compute()\<close> (an
  exception or a value) and the clock reading \<open>finished\<close> taken after it; the last two are used only
  when the call really computes.  Keys are any hashable value.
\<close>

record ('k, 'v) AdaptiveTtlCache =
  min_ttl :: pyfloat
  duration_factor :: pyfloat
  entries :: "('k, pyfloat \<times> 'v \<times> pyfloat) dict"

definition new_cache :: "pyfloat \<Rightarrow> pyfloat \<Rightarrow> ('k, 'v) AdaptiveTtlCache" where
  "new_cache mttl factor = \<lparr>min_ttl = mttl, duration_factor = factor, entries = []\<rparr>"

text \<open>The lookup half of \<open>get_or_compute\<close>: the stored value while it is younger than its TTL.\<close>

definition live_value :: "('k, 'v) AdaptiveTtlCache \<Rightarrow> 'k \<Rightarrow> pyfloat \<Rightarrow> 'v option" where
  "live_value c key now =
     (case map_of (entries c) key of
        None \<Rightarrow> None
      | Some (cached_at, value, ttl) \<Rightarrow> if now - cached_at < ttl then Some value else None)"

definition get_or_compute ::
  "('k, 'v) AdaptiveTtlCache \<Rightarrow> 'k \<Rightarrow> pyfloat \<Rightarrow> 'e + 'v \<Rightarrow> pyfloat \<Rightarrow>
   ('k, 'v) AdaptiveTtlCache \<times> ('e + 'v)" where
  "get_or_compute c key now outcome finished =
     (case live_value c key now of
        Some value \<Rightarrow> (c, Inr value)
      | None \<Rightarrow>
          (case outcome of
             Inl e \<Rightarrow> (c, Inl e)
           | Inr value \<Rightarrow>
               (let ttl = max (min_ttl c) ((finished - now) * duration_factor c)
                in (c\<lparr>entries := AList.update key (finished, value, ttl) (entries c)\<rparr>,
                    Inr value))))"

definition peek :: "('k, 'v) AdaptiveTtlCache \<Rightarrow> 'k \<Rightarrow> 'v option" where
  "peek c key = map_option (fst \<circ> snd) (map_of (entries c) key)"

definition ttl_of :: "('k, 'v) AdaptiveTtlCache \<Rightarrow> 'k \<Rightarrow> pyfloat option" where
  "ttl_of c key = map_option (snd \<circ> snd) (map_of (entries c) key)"

text \<open>\<open>invalidate(None)\<close> clears everything, \<open>invalidate(key)\<close> drops one key.\<close>

definition invalidate :: "'k option \<Rightarrow> ('k, 'v) AdaptiveTtlCache \<Rightarrow> ('k, 'v) AdaptiveTtlCache" where
  "invalidate k c =
     (case k of None \<Rightarrow> c\<lparr>entries := []\<rparr>
      | Some key \<Rightarrow> c\<lparr>entries := AList.delete key (entries c)\<rparr>)"

section \<open>One call\<close>

lemma get_or_compute_params [simp]:
  "min_ttl (fst (get_or_compute c k now o' fin)) = min_ttl c"
  "duration_factor (fst (get_or_compute c k now o' fin)) = duration_factor c"
  by (simp_all add: get_or_compute_def Let_def split: option.split sum.split)

lemma get_or_compute_hit:
  "live_value c k now = Some v \<Longrightarrow> get_or_compute c k now o' fin = (c, Inr v)"
  by (simp add: get_or_compute_def)

lemma get_or_compute_miss:
  "live_value c k now = None \<Longrightarrow>
   get_or_compute c k now (Inr v) fin =
     (c\<lparr>entries := AList.update k (fin, v, max (min_ttl c) ((fin - now) * duration_factor c))
          (entries c)\<rparr>, Inr v)"
  by (simp add: get_or_compute_def Let_def)

lemma entry_after_miss:
  "live_value c k now = None \<Longrightarrow>
   map_of (entries (fst (get_or_compute c k now (Inr v) fin))) k' =
     (if k' = k then Some (fin, v, max (min_ttl c) ((fin - now) * duration_factor c))
      else map_of (entries c) k')"
  by (simp add: get_or_compute_miss update_conv')

text \<open>
  A call never returns a value that is not justified: it is either the outcome of this very call's
  computation, or the value stored for this key, younger than the TTL stored with it; other keys are
  never touched.
\<close>

theorem get_or_compute_sound:
  "(case get_or_compute c k now outcome fin of (c', r) \<Rightarrow>
      (r = outcome \<or>
       (\<exists>t0 v ttl. map_of (entries c) k = Some (t0, v, ttl) \<and> now - t0 < ttl \<and> r = Inr v)) \<and>
      (\<forall>k'. k' = k \<or> map_of (entries c') k' = map_of (entries c) k'))"
  by (auto simp: get_or_compute_def live_value_def Let_def update_conv'
      split: option.split sum.split prod.split)

text \<open>
  A computation that raises is not cached: the exception reaches the caller, the cache is
  unchanged, and the next call for the key computes again whenever it comes.
\<close>

theorem failed_compute_not_cached:
  assumes "live_value c k now = None" and "now \<le> now2"
  shows "get_or_compute c k now (Inl e) fin = (c, Inl e) \<and>
    live_value (fst (get_or_compute c k now (Inl e) fin)) k now2 = None"
  using assms
  by (auto simp: get_or_compute_def live_value_def split: option.splits if_splits prod.splits)

theorem failed_compute_not_cached_witness:
  "get_or_compute (new_cache 30 3 :: (nat, nat) AdaptiveTtlCache) 7 1 (Inl ''fault'') 2 =
     (new_cache 30 3, Inl ''fault'') \<and>
   live_value (fst (get_or_compute (new_cache 30 3 :: (nat, nat) AdaptiveTtlCache) 7 1
     (Inl ''fault'') 2)) 7 3 = None"
  by (rule failed_compute_not_cached) (simp_all add: new_cache_def live_value_def)

section \<open>A sequence of calls\<close>

text \<open>
  Successful calls for one key, each given as \<open>(now, value, finished)\<close>.  \<open>computations\<close> lists the
  time intervals in which \<open>compute()\<close> really ran, oldest first.
\<close>

fun computations :: "'k \<Rightarrow> ('k, 'v) AdaptiveTtlCache \<Rightarrow> (pyfloat \<times> 'v \<times> pyfloat) list \<Rightarrow>
    (pyfloat \<times> pyfloat) list" where
  "computations key c [] = []"
| "computations key c ((now, v, fin) # calls) =
     (let c' = fst (get_or_compute c key now (Inr v :: unit + 'v) fin)
      in (if live_value c key now = None then [(now, fin)] else []) @ computations key c' calls)"

text \<open>Once an entry is stored, the next computation starts only after its TTL has run out.\<close>

lemma next_computation_waits:
  "\<lbrakk>map_of (entries c) k = Some (fin, v, ttl); computations k c calls = (s, f) # ivs\<rbrakk> \<Longrightarrow>
   ttl \<le> s - fin"
proof (induction calls arbitrary: c)
  case Nil
  then show ?case by simp
next
  case (Cons call calls)
  obtain now w fin' where call: "call = (now, w, fin')" by (cases call)
  show ?case
  proof (cases "live_value c k now")
    case None
    with Cons.prems call show ?thesis
      by (auto simp: Let_def live_value_def split: if_splits)
  next
    case (Some u)
    then have "get_or_compute c k now (Inr w :: unit + _) fin' = (c, Inr u)"
      by (rule get_or_compute_hit)
    with Cons call Some show ?thesis by (simp add: Let_def)
  qed
qed

fun busy :: "(pyfloat \<times> pyfloat) list \<Rightarrow> pyfloat" where
  "busy ivs = (\<Sum>(s, f)\<leftarrow>ivs. f - s)"

lemma computations_spread:
  "computations k c calls = (s, f) # ivs \<Longrightarrow>
   (1 + duration_factor c) * busy (butlast ((s, f) # ivs)) \<le> fst (last ((s, f) # ivs)) - s"
proof (induction calls arbitrary: c s f ivs)
  case Nil
  then show ?case by simp
next
  case (Cons call calls)
  obtain now w fin where call: "call = (now, w, fin)" by (cases call)
  let ?c' = "fst (get_or_compute c k now (Inr w :: unit + _) fin)"
  show ?case
  proof (cases "live_value c k now")
    case (Some u)
    then have "get_or_compute c k now (Inr w :: unit + _) fin = (c, Inr u)"
      by (rule get_or_compute_hit)
    with Cons call Some show ?thesis by (simp add: Let_def)
  next
    case None
    with Cons.prems call have iv: "now = s" "fin = f" "computations k ?c' calls = ivs"
      by (auto simp: Let_def)
    show ?thesis
    proof (cases ivs)
      case Nil
      then show ?thesis by simp
    next
      case (Cons iv2 ivs2)
      obtain s2 f2 where iv2: "iv2 = (s2, f2)" by (cases iv2)
      have "map_of (entries ?c') k =
          Some (fin, w, max (min_ttl c) ((fin - now) * duration_factor c))"
        using entry_after_miss [OF None, of w fin k] by simp
      from next_computation_waits [OF this] iv(3) Cons iv2
      have "(fin - now) * duration_factor c \<le> s2 - fin" by fastforce
      moreover have "(1 + duration_factor c) * busy (butlast ivs) \<le> fst (last ivs) - s2"
        using Cons.IH [of ?c' s2 f2 ivs2] iv(3) Cons iv2 by simp
      ultimately show ?thesis
        using Cons iv by (simp add: algebra_simps)
    qed
  qed
qed

text \<open>
  C38: the worker share.  Whatever the calls and the durations, the time that all computations of one
  key but the last took, times one plus the duration factor, fits between the first and the last
  start.  With the default factor 3 the lookup occupies the worker at most a quarter of the time.
\<close>

theorem computations_worker_share:
  assumes "computations k c calls = ivs" and "ivs \<noteq> []"
  shows "(1 + duration_factor c) * busy (butlast ivs) \<le> fst (last ivs) - fst (hd ivs)"
  using assms computations_spread [of k c calls "fst (hd ivs)" "snd (hd ivs)" "tl ivs"] by simp

theorem computations_worker_share_witness:
  "computations (1 :: nat) (new_cache 30 3) [(0, 5 :: nat, 20), (50, 6, 70), (90, 7, 110)] =
     [(0, 20), (90, 110)] \<and>
   (1 + 3) * busy (butlast [(0, 20), (90, 110)]) \<le> (90 :: pyfloat) - 0"
proof -
  have run: "computations (1 :: nat) (new_cache 30 3)
      [(0, 5 :: nat, 20), (50, 6, 70), (90, 7, 110)] = [(0, 20), (90, 110)]"
    by (simp add: new_cache_def live_value_def get_or_compute_def)
  from computations_worker_share [OF run] run show ?thesis
    by (simp add: new_cache_def)
qed

section \<open>Manual refresh\<close>

lemma invalidate_forces_compute:
  "live_value (invalidate None c) k now = None"
  "live_value (invalidate (Some k) c) k now = None"
  "k' \<noteq> k \<Longrightarrow> live_value (invalidate (Some k) c) k' now = live_value c k' now"
  by (simp_all add: invalidate_def live_value_def delete_conv')

lemma peek_after_compute:
  "live_value c k now = None \<Longrightarrow>
   peek (fst (get_or_compute c k now (Inr v) fin)) k = Some v \<and>
   ttl_of (fst (get_or_compute c k now (Inr v) fin)) k =
     Some (max (min_ttl c) ((fin - now) * duration_factor c))"
  by (simp add: peek_def ttl_of_def entry_after_miss)

end
