(* ===== verification/Profiler.thy ===== *)
theory Profiler
  imports TargetAttribution TargetStore TtlCache
begin

text \<open>
  \<open>services/profiler/service.py\<close> and its mock: the service that joins process information from the
  kernel, the collector's statistics and the target registry.

  A call works on a \<open>profiler_world\<close>: the service object with its lazily loaded registry, the cache of the
  kernel session, and the state file.  The environment of a call answers the two checks and the read of
  the collector log, the clock and the outcome of the kernel's task listing (used only when the cache
  has no live value), and what \<open>refresh\<close> needs.
\<close>

section \<open>State and environment\<close>

definition PROC_INFO_CACHE_KEY :: pystr where
  "PROC_INFO_CACHE_KEY = ''procinfo.list_processes''"

type_synonym proc_cache = "(pystr, ProcessInfo list) AdaptiveTtlCache"

record NvmeProfilerService =
  pf_log :: FileEbpfLogSource
  pf_targets :: "TargetRegistry option"

record profiler_world =
  pw_service :: NvmeProfilerService
  pw_cache :: proc_cache
  pw_disk :: "state_doc option"

record profiler_env =
  pe_check :: file_view        \<comment> \<open>\<open>available\<close> inside \<open>_process_stats\<close>\<close>
  pe_tail :: file_view         \<comment> \<open>the tail of the log\<close>
  pe_check2 :: file_view       \<comment> \<open>the second \<open>available\<close> of \<open>get_profile\<close>\<close>
  pe_now :: pyfloat
  pe_listing :: "exn + ProcessInfo list"
  pe_finished :: pyfloat
  pe_refresh :: refresh_env

definition new_profiler :: "FileEbpfLogSource \<Rightarrow> NvmeProfilerService" where
  "new_profiler src = \<lparr>pf_log = src, pf_targets = None\<rparr>"

section \<open>Helpers of the service\<close>

definition MAX_FINISHED :: nat where
  "MAX_FINISHED = 50"

definition registry :: "profiler_world \<Rightarrow> (exn + TargetRegistry) \<times> profiler_world" where
  "registry w =
     (case pf_targets (pw_service w) of
        Some reg \<Rightarrow> (Inr reg, w)
      | None \<Rightarrow>
          (case load MAX_FINISHED (pw_disk w) of
             Inl e \<Rightarrow> (Inl e, w)
           | Inr reg \<Rightarrow> (Inr reg, w\<lparr>pw_service := (pw_service w)\<lparr>pf_targets := Some reg\<rparr>\<rparr>)))"

text \<open>Writing a changed registry object back: the service holds the only reference to it.\<close>

definition put_registry :: "TargetRegistry \<Rightarrow> state_doc option \<Rightarrow> profiler_world \<Rightarrow> profiler_world" where
  "put_registry reg disk w =
     w\<lparr>pw_service := (pw_service w)\<lparr>pf_targets := Some reg\<rparr>, pw_disk := disk\<rparr>"

definition service_process_stats :: "profiler_env \<Rightarrow> NvmeProfilerService \<Rightarrow> ProcessIoStat list" where
  "service_process_stats env s =
     (if \<not> available (pf_log s) (pe_check env) then []
      else read_process_stats (LogSource (pf_log s)) (pe_tail env) None)"

definition proc_infos :: "profiler_env \<Rightarrow> profiler_world \<Rightarrow> (exn + ProcessInfo list) \<times> profiler_world" where
  "proc_infos env w =
     (let (cache, r) = get_or_compute (pw_cache w) PROC_INFO_CACHE_KEY (pe_now env) (pe_listing env) (pe_finished env)
      in (r, w\<lparr>pw_cache := cache\<rparr>))"

section \<open>Listing processes\<close>

record io_slot =
  io_rate :: pyfloat
  io_devices :: "pystr list"
  io_comm :: pystr

definition add_io :: "ProcessIoStat \<Rightarrow> (int, io_slot) dict \<Rightarrow> (int, io_slot) dict" where
  "add_io st io =
     (let e = dict_get io (ps_pid st) \<lparr>io_rate = 0, io_devices = [], io_comm = ps_comm st\<rparr>
      in AList.update (ps_pid st)
           (e\<lparr>io_rate := io_rate e + ps_iops st, io_devices := List.insert (ps_device st) (io_devices e)\<rparr>) io)"

definition io_by_pid :: "ProcessIoStat list \<Rightarrow> (int, io_slot) dict" where
  "io_by_pid stats = fold add_io stats []"

text \<open>Whether the reason names a kernel thread; of the program's own messages only one does.\<close>

definition is_kernel_thread :: "message option \<Rightarrow> bool" where
  "is_kernel_thread e \<longleftrightarrow> e = Some MsgKernelThread"

definition process_entry ::
  "re_search \<Rightarrow> TargetRule list \<Rightarrow> (int, io_slot) dict \<Rightarrow> ProcessInfo \<Rightarrow> ProcessListEntry" where
  "process_entry search rules io proc =
     (let slot = map_of io (pi_pid proc);
          matched = find (\<lambda>r. rule_matches search r proc) rules;
          entry =
            \<lparr>le_info = proc,
             le_io_active = (case slot of None \<Rightarrow> False | Some e \<Rightarrow> io_rate e > 0),
             le_io_rate = (case slot of None \<Rightarrow> 0 | Some e \<Rightarrow> io_rate e),
             le_target_devices = (case slot of None \<Rightarrow> [] | Some e \<Rightarrow> sort (io_devices e)),
             le_is_target = (matched \<noteq> None),
             le_matched_rule = map_option (\<lambda>r. tr_kind r @ ''='' @ tr_value r) matched,
             le_selectable = True, le_unselectable_reason = None\<rparr>
      in if is_kernel_thread (pi_error proc)
         then entry\<lparr>le_selectable := False, le_unselectable_reason := Some MsgNotATarget\<rparr>
         else entry)"

text \<open>\<open>ProcessInfo(pid=..., comm=..., error=...)\<close>: the other fields have their defaults.\<close>

definition vanished_info :: "int \<Rightarrow> pystr \<Rightarrow> ProcessInfo" where
  "vanished_info pid comm =
     \<lparr>pi_pid = pid, pi_comm = comm, pi_cmdline = [], pi_exe_path = [], pi_uid = - 1, pi_start_time_ns = 0,
      pi_thread_count = 0, pi_threads = [], pi_state = [], pi_error = Some MsgVanished\<rparr>"

definition vanished_entry :: "int \<times> io_slot \<Rightarrow> ProcessListEntry" where
  "vanished_entry = (\<lambda>(pid, e).
     \<lparr>le_info = vanished_info pid (io_comm e), le_io_active = (io_rate e > 0), le_io_rate = io_rate e,
      le_target_devices = sort (io_devices e), le_is_target = False, le_matched_rule = None,
      le_selectable = False, le_unselectable_reason = Some MsgAlreadyExited\<rparr>)"

definition entry_order :: "ProcessListEntry \<Rightarrow> pyfloat \<times> int" where
  "entry_order e = (- le_io_rate e, pi_pid (le_info e))"

definition process_list ::
  "re_search \<Rightarrow> TargetRule list \<Rightarrow> ProcessInfo list \<Rightarrow> ProcessIoStat list \<Rightarrow> bool \<Rightarrow> ProcessListEntry list" where
  "process_list search rules procs stats only_io =
     (let io = io_by_pid stats;
          entries = map (process_entry search rules io) procs
            @ map vanished_entry (filter (\<lambda>(pid, e). pid \<notin> pi_pid ` set procs) io);
          kept = (if only_io then filter le_io_active entries else entries)
      in sort_key entry_order kept)"

definition list_processes ::
  "profiler_env \<Rightarrow> bool \<Rightarrow> profiler_world \<Rightarrow> (exn + ProcessListEntry list) \<times> profiler_world" where
  "list_processes env only_io w =
     (let stats = service_process_stats env (pw_service w)
      in case proc_infos env w of
           (Inl e, w1) \<Rightarrow> (Inl e, w1)
         | (Inr procs, w1) \<Rightarrow>
             (case registry w1 of
                (Inl e, w2) \<Rightarrow> (Inl e, w2)
              | (Inr reg, w2) \<Rightarrow>
                  (Inr (process_list (rf_search (pe_refresh env)) (tg_rules reg) procs stats only_io), w2)))"

section \<open>Targets and the profile\<close>

definition list_targets :: "profiler_world \<Rightarrow> (exn + TargetRule list) \<times> profiler_world" where
  "list_targets w = (case registry w of (Inl e, w1) \<Rightarrow> (Inl e, w1) | (Inr reg, w1) \<Rightarrow> (Inr (tg_rules reg), w1))"

definition add_target ::
  "bool \<Rightarrow> TargetRule \<Rightarrow> profiler_world \<Rightarrow> (exn + TargetRule list) \<times> profiler_world" where
  "add_target ok rule w =
     (case registry w of
        (Inl e, w1) \<Rightarrow> (Inl e, w1)
      | (Inr reg, w1) \<Rightarrow>
          (case add_rule ok rule reg (pw_disk w1) of
             Inl e \<Rightarrow> (Inl e, w1)
           | Inr (reg', disk) \<Rightarrow> (Inr (tg_rules reg'), put_registry reg' disk w1)))"

definition remove_target ::
  "bool \<Rightarrow> pystr \<Rightarrow> pystr \<Rightarrow> profiler_world \<Rightarrow> (exn + TargetRule list) \<times> profiler_world" where
  "remove_target ok kind value w =
     (case registry w of
        (Inl e, w1) \<Rightarrow> (Inl e, w1)
      | (Inr reg, w1) \<Rightarrow>
          (case remove_rule ok kind value reg (pw_disk w1) of
             (_, reg', disk) \<Rightarrow> (Inr (tg_rules reg'), put_registry reg' disk w1)))"

definition get_profile ::
  "profiler_env \<Rightarrow> profiler_world \<Rightarrow> (exn + ProfileSnapshot) \<times> profiler_world" where
  "get_profile env w =
     (let stats = service_process_stats env (pw_service w);
          there = available (pf_log (pw_service w)) (pe_check2 env)
      in case registry w of
           (Inl e, w1) \<Rightarrow> (Inl e, w1)
         | (Inr reg, w1) \<Rightarrow>
             (case proc_infos env w1 of
                (Inl e, w2) \<Rightarrow> (Inl e, w2)
              | (Inr procs, w2) \<Rightarrow>
                  (case refresh (pe_refresh env) procs (if there then stats else []) reg (pw_disk w2) of
                     (snap, reg', disk) \<Rightarrow>
                       (Inr (if there then snap
                             else snap\<lparr>sn_available := False, sn_error := Some MsgNoCollectorProfile\<rparr>),
                        put_registry reg' disk w2))))"

section \<open>The mock service\<close>

text \<open>Synthetic processes and statistics; the registry is the real one.\<close>

definition mock_processes :: "ProcessInfo list" where
  "mock_processes =
     [\<lparr>pi_pid = 4821, pi_comm = ''ioworker'', pi_cmdline = ''./ioworker --threads 4'',
       pi_exe_path = ''/home/user/bin/ioworker'', pi_uid = 1000, pi_start_time_ns = 111000, pi_thread_count = 4,
       pi_threads = [(4821, ''ioworker''), (4822, ''worker_00''), (4823, ''worker_01''), (4824, ''worker_02'')],
       pi_state = [], pi_error = None\<rparr>,
      \<lparr>pi_pid = 5102, pi_comm = ''fio'',
       pi_cmdline = ''fio --name=randwrite --rw=randwrite --bs=4k --iodepth=32 --numjobs=4 --ioengine=io_uring --direct=1 --filename=/dev/nvme1n1'',
       pi_exe_path = ''/usr/bin/fio'', pi_uid = 1000, pi_start_time_ns = 222000, pi_thread_count = 1,
       pi_threads = [(5102, ''fio'')], pi_state = [], pi_error = None\<rparr>,
      \<lparr>pi_pid = 3390, pi_comm = ''fio'',
       pi_cmdline = ''fio --name=seqread --rw=read --bs=128k --iodepth=8 --ioengine=libaio --direct=1 --filename=/dev/nvme0n1'',
       pi_exe_path = ''/usr/bin/fio'', pi_uid = 1000, pi_start_time_ns = 333000, pi_thread_count = 1,
       pi_threads = [(3390, ''fio'')], pi_state = [], pi_error = None\<rparr>,
      \<lparr>pi_pid = 9, pi_comm = ''kworker/0:1'', pi_cmdline = [], pi_exe_path = [], pi_uid = - 1,
       pi_start_time_ns = 0, pi_thread_count = 1, pi_threads = [(9, ''kworker/0:1'')], pi_state = [],
       pi_error = Some MsgKernelThread\<rparr>]"

definition mock_proc_stats :: "ProcessIoStat list" where
  "mock_proc_stats =
     [\<lparr>ps_device = ''nvme0'', ps_pid = 4821, ps_comm = ''ioworker'', ps_iops = 2840, ps_read_iops = 1200,
       ps_write_iops = 1640, ps_bandwidth_bps = 46530560, ps_avg_latency_us = 118,
       ps_io_size_dominant = 16384, ps_io_size_hist = [(16384, 2840)], ps_queues = [(1, 1400), (2, 1440)],
       ps_queue_depth_est = 34 / 100, ps_seq_ratio = Some (9 / 10),
       ps_threads = [\<lparr>ts_tid = 4822, ts_comm = ''worker_00'', ts_iops = 1420\<rparr>,
                     \<lparr>ts_tid = 4823, ts_comm = ''worker_01'', ts_iops = 1420\<rparr>]\<rparr>,
      \<lparr>ps_device = ''nvme1'', ps_pid = 5102, ps_comm = ''fio'', ps_iops = 1120, ps_read_iops = 0,
       ps_write_iops = 1120, ps_bandwidth_bps = 4587520, ps_avg_latency_us = 28500,
       ps_io_size_dominant = 4096, ps_io_size_hist = [(4096, 1120)], ps_queues = [(3, 1120)],
       ps_queue_depth_est = 319 / 10, ps_seq_ratio = Some (2 / 100),
       ps_threads = [\<lparr>ts_tid = 5102, ts_comm = ''fio'', ts_iops = 1120\<rparr>]\<rparr>,
      \<lparr>ps_device = ''nvme0'', ps_pid = 3390, ps_comm = ''fio'', ps_iops = 640, ps_read_iops = 640,
       ps_write_iops = 0, ps_bandwidth_bps = 2621440, ps_avg_latency_us = 12500,
       ps_io_size_dominant = 4096, ps_io_size_hist = [(4096, 640)], ps_queues = [(4, 640)],
       ps_queue_depth_est = 8, ps_seq_ratio = Some (95 / 100),
       ps_threads = [\<lparr>ts_tid = 3390, ts_comm = ''fio'', ts_iops = 640\<rparr>]\<rparr>,
      \<lparr>ps_device = ''nvme0'', ps_pid = 9, ps_comm = ''kworker/0:1'', ps_iops = 12, ps_read_iops = 0,
       ps_write_iops = 12, ps_bandwidth_bps = 49152, ps_avg_latency_us = 800,
       ps_io_size_dominant = 4096, ps_io_size_hist = [(4096, 12)], ps_queues = [(1, 12)],
       ps_queue_depth_est = 1 / 100, ps_seq_ratio = Some (5 / 10), ps_threads = []\<rparr>]"

definition mock_list_processes ::
  "re_search \<Rightarrow> bool \<Rightarrow> profiler_world \<Rightarrow> (exn + ProcessListEntry list) \<times> profiler_world" where
  "mock_list_processes search only_io w =
     (case registry w of
        (Inl e, w1) \<Rightarrow> (Inl e, w1)
      | (Inr reg, w1) \<Rightarrow>
          (let es = map (process_entry search (tg_rules reg) (io_by_pid mock_proc_stats)) mock_processes;
               kept = (if only_io then filter le_io_active es else es)
           in (Inr (sort_key entry_order kept), w1)))"

definition mock_get_profile ::
  "refresh_env \<Rightarrow> profiler_world \<Rightarrow> (exn + ProfileSnapshot) \<times> profiler_world" where
  "mock_get_profile env w =
     (case registry w of
        (Inl e, w1) \<Rightarrow> (Inl e, w1)
      | (Inr reg, w1) \<Rightarrow>
          (case refresh env mock_processes mock_proc_stats reg (pw_disk w1) of
             (snap, reg', disk) \<Rightarrow> (Inr snap, put_registry reg' disk w1)))"
section \<open>No I/O is lost in the list\<close>

definition rate_of :: "(int, io_slot) dict \<Rightarrow> int \<Rightarrow> pyfloat" where
  "rate_of io pid = (case map_of io pid of None \<Rightarrow> 0 | Some e \<Rightarrow> io_rate e)"

definition total_rate :: "(int, io_slot) dict \<Rightarrow> pyfloat" where
  "total_rate io = (\<Sum>(pid, e)\<leftarrow>io. io_rate e)"

lemma total_rate_update:
  "dict_ok io \<Longrightarrow> total_rate (AList.update pid e io) = total_rate io - rate_of io pid + io_rate e"
  by (induction io) (auto simp: total_rate_def rate_of_def dict_ok_def image_iff map_of_eq_None_iff)

lemma io_by_pid_snoc: "io_by_pid (stats @ [st]) = add_io st (io_by_pid stats)"
  by (simp add: io_by_pid_def)

lemma rate_of_get: "rate_of io pid = io_rate (dict_get io pid \<lparr>io_rate = 0, io_devices = [], io_comm = c\<rparr>)"
  by (simp add: rate_of_def dict_get_def split: option.split)

lemma dict_ok_io_by_pid: "dict_ok (io_by_pid stats)"
  by (induction stats rule: rev_induct)
    (simp_all add: io_by_pid_snoc add_io_def Let_def dict_ok_update, simp add: io_by_pid_def dict_ok_def)

lemma total_rate_io_by_pid: "total_rate (io_by_pid stats) = (\<Sum>st\<leftarrow>stats. ps_iops st)"
proof (induction stats rule: rev_induct)
  case Nil
  show ?case by (simp add: io_by_pid_def total_rate_def)
next
  case (snoc st stats)
  then show ?case
    by (simp add: io_by_pid_snoc add_io_def Let_def total_rate_update dict_ok_io_by_pid
        rate_of_get [of "io_by_pid stats" "ps_pid st" "ps_comm st"])
qed

lemma rate_of_io_by_pid:
  "rate_of (io_by_pid stats) pid = (\<Sum>st\<leftarrow>filter (\<lambda>st. ps_pid st = pid) stats. ps_iops st)"
proof (induction stats rule: rev_induct)
  case Nil
  show ?case by (simp add: io_by_pid_def rate_of_def)
next
  case (snoc st stats)
  have "rate_of (io_by_pid (stats @ [st])) pid =
      (if pid = ps_pid st then rate_of (io_by_pid stats) pid + ps_iops st else rate_of (io_by_pid stats) pid)"
    by (simp add: rate_of_get [of "io_by_pid stats" "ps_pid st" "ps_comm st"])
      (simp add: io_by_pid_snoc add_io_def Let_def rate_of_def map_of_update)
  with snoc show ?case by auto
qed

text \<open>The rates of the listed pids and of the others make up the whole table.\<close>

lemma split_rates:
  assumes "dict_ok io" "distinct pids"
  shows "(\<Sum>pid\<leftarrow>pids. rate_of io pid) + total_rate (filter (\<lambda>(pid, e). pid \<notin> set pids) io) = total_rate io"
  using assms(1)
proof (induction io)
  case Nil
  show ?case by (simp add: rate_of_def total_rate_def)
next
  case (Cons p io)
  obtain pid e where p: "p = (pid, e)" by (cases p)
  from Cons.prems p have ok: "dict_ok io" and "map_of io pid = None"
    by (simp_all add: dict_ok_def map_of_eq_None_iff)
  then have new: "rate_of io pid = 0" by (simp add: rate_of_def)
  have "rate_of (p # io) q = (if q = pid then io_rate e else 0) + rate_of io q" for q
    using new by (simp add: p rate_of_def)
  then have "(\<Sum>q\<leftarrow>pids. rate_of (p # io) q) =
      (\<Sum>q\<in>set pids. if q = pid then io_rate e else 0) + (\<Sum>q\<leftarrow>pids. rate_of io q)"
    using assms(2) by (simp add: sum_list_distinct_conv_sum_set sum.distrib)
  with Cons.IH [OF ok] show ?case by (simp add: p total_rate_def)
qed

lemma process_entry_rate [simp]:
  "le_io_rate (process_entry search rules io proc) = rate_of io (pi_pid proc)"
  "le_io_active (process_entry search rules io proc) = (0 < rate_of io (pi_pid proc))"
  "le_info (process_entry search rules io proc) = proc"
  "le_is_target (process_entry search rules io proc) \<longleftrightarrow> (\<exists>r \<in> set rules. rule_matches search r proc)"
  by (simp_all add: process_entry_def Let_def rate_of_def find_ex split: option.split)

lemma vanished_entry_rate [simp]:
  "le_io_rate (vanished_entry p) = io_rate (snd p)" "le_io_active (vanished_entry p) = (0 < io_rate (snd p))"
  "pi_pid (le_info (vanished_entry p)) = fst p"
  by (simp_all add: vanished_entry_def vanished_info_def case_prod_unfold)

lemma vanished_target:
  "le_is_target (vanished_entry (pid, e)) = False"
  "pid \<notin> pi_pid ` set procs \<Longrightarrow> le_info (vanished_entry (pid, e)) \<notin> set procs"
   apply (simp add: vanished_entry_def)
  using vanished_entry_rate(3) [of "(pid, e)"] by (metis fst_conv imageI)

text \<open>The entries before they are filtered and sorted.\<close>

definition all_entries ::
  "re_search \<Rightarrow> TargetRule list \<Rightarrow> ProcessInfo list \<Rightarrow> ProcessIoStat list \<Rightarrow> ProcessListEntry list" where
  "all_entries search rules procs stats =
     map (process_entry search rules (io_by_pid stats)) procs
       @ map vanished_entry (filter (\<lambda>(pid, e). pid \<notin> pi_pid ` set procs) (io_by_pid stats))"

lemma process_list_entries:
  "process_list search rules procs stats only_io =
     sort_key entry_order (filter (\<lambda>e. only_io \<longrightarrow> le_io_active e) (all_entries search rules procs stats))"
  by (simp add: process_list_def all_entries_def Let_def)

lemma all_entries_rate:
  assumes "distinct (map pi_pid procs)"
  shows "(\<Sum>e\<leftarrow>all_entries search rules procs stats. le_io_rate e) = (\<Sum>st\<leftarrow>stats. ps_iops st)"
proof -
  have "(\<Sum>e\<leftarrow>all_entries search rules procs stats. le_io_rate e) = total_rate (io_by_pid stats)"
    using split_rates [OF dict_ok_io_by_pid assms, of stats]
    by (simp add: all_entries_def comp_def total_rate_def case_prod_unfold)
  then show ?thesis by (simp only: total_rate_io_by_pid)
qed

lemma all_entries_active:
  "e \<in> set (all_entries search rules procs stats) \<Longrightarrow> le_io_active e \<longleftrightarrow> 0 < le_io_rate e"
  by (auto simp: all_entries_def)

lemma all_entries_pids:
  assumes "distinct (map pi_pid procs)"
  shows "distinct (map (pi_pid \<circ> le_info) (all_entries search rules procs stats))"
    and "(pi_pid \<circ> le_info) ` set (all_entries search rules procs stats) = pi_pid ` set procs \<union> ps_pid ` set stats"
proof -
  have keys: "fst ` set (io_by_pid stats) = ps_pid ` set stats"
  proof (induction stats rule: rev_induct)
    case Nil
    show ?case by (simp add: io_by_pid_def)
  next
    case (snoc st stats)
    then show ?case by (simp add: io_by_pid_snoc add_io_def Let_def dom_update)
  qed
  show "distinct (map (pi_pid \<circ> le_info) (all_entries search rules procs stats))"
    using assms dict_ok_io_by_pid [of stats]
    by (auto simp: all_entries_def comp_def dict_ok_def case_prod_unfold distinct_map_filter)
  show "(pi_pid \<circ> le_info) ` set (all_entries search rules procs stats) = pi_pid ` set procs \<union> ps_pid ` set stats"
  proof -
    have "fst ` set (filter (\<lambda>(pid, e). pid \<notin> A) m) = fst ` set m - A" for A and m :: "(int, io_slot) dict"
      by force
    then show ?thesis
      unfolding keys [symmetric] by (simp add: all_entries_def image_Un image_image Un_Diff_cancel)
  qed
qed

text \<open>
  C24: the process list loses no I/O.  When the kernel lists each pid once, the list has exactly one
  entry for every process of the kernel and for every process the collector saw, in the order of
  falling rate; an entry's rate is the sum over its devices, so that all rates together are what the
  collector measured; an entry is a target exactly when a rule matches its process; and \<open>only_io\<close>
  leaves out exactly the entries without a positive rate.
\<close>

theorem process_list_complete:
  assumes "distinct (map pi_pid procs)"
  shows "let es = process_list search rules procs stats False in
    distinct (map (pi_pid \<circ> le_info) es) \<and>
    (pi_pid \<circ> le_info) ` set es = pi_pid ` set procs \<union> ps_pid ` set stats \<and>
    sorted_wrt (\<lambda>e e'. le_io_rate e' \<le> le_io_rate e) es \<and>
    (\<Sum>e\<leftarrow>es. le_io_rate e) = (\<Sum>st\<leftarrow>stats. ps_iops st) \<and>
    (\<forall>e \<in> set es. le_io_rate e = (\<Sum>st\<leftarrow>filter (\<lambda>st. ps_pid st = pi_pid (le_info e)) stats. ps_iops st) \<and>
       (le_is_target e \<longleftrightarrow> le_info e \<in> set procs \<and> (\<exists>r \<in> set rules. rule_matches search r (le_info e)))) \<and>
    process_list search rules procs stats True = filter (\<lambda>e. 0 < le_io_rate e) es"
proof -
  let ?all = "all_entries search rules procs stats"
  let ?es = "process_list search rules procs stats False"
  have es: "?es = sort_key entry_order ?all" by (simp add: process_list_entries)
  have m: "mset (map f ?es) = mset (map f ?all)" for f :: "ProcessListEntry \<Rightarrow> 'z" by (simp add: es)
  have "distinct (map (pi_pid \<circ> le_info) ?es)"
    using all_entries_pids(1) [OF assms] unfolding es distinct_sort_map .
  moreover have "(pi_pid \<circ> le_info) ` set ?es = pi_pid ` set procs \<union> ps_pid ` set stats"
    using all_entries_pids(2) [OF assms, of search rules stats] by (simp add: es)
  moreover have "sorted_wrt (\<lambda>e e'. le_io_rate e' \<le> le_io_rate e) ?es"
    using sorted_sort_key [of entry_order ?all] unfolding es sorted_map
    by (rule sorted_wrt_mono_rel [rotated]) (auto simp: entry_order_def)
  moreover have "(\<Sum>e\<leftarrow>?es. le_io_rate e) = (\<Sum>st\<leftarrow>stats. ps_iops st)"
    using all_entries_rate [OF assms, of search rules stats] arg_cong [OF m, of sum_mset le_io_rate]
    by (simp add: sum_mset_sum_list [symmetric] del: sum_mset_sum_list)
  moreover have "le_io_rate e = (\<Sum>st\<leftarrow>filter (\<lambda>st. ps_pid st = pi_pid (le_info e)) stats. ps_iops st)"
    if "e \<in> set ?es" for e
  proof -
    have "io_rate s = rate_of (io_by_pid stats) pid" if "(pid, s) \<in> set (io_by_pid stats)" for pid s
      using that dict_ok_io_by_pid [of stats] by (simp add: rate_of_def dict_ok_def)
    with that show ?thesis by (auto simp: es all_entries_def simp flip: rate_of_io_by_pid)
  qed
  moreover have "le_is_target e \<longleftrightarrow> le_info e \<in> set procs \<and> (\<exists>r \<in> set rules. rule_matches search r (le_info e))"
    if "e \<in> set ?es" for e
    using that by (auto simp: es all_entries_def vanished_target)
  moreover have "process_list search rules procs stats True = filter (\<lambda>e. 0 < le_io_rate e) ?es"
  proof -
    have "filter le_io_active ?all = filter (\<lambda>e. 0 < le_io_rate e) ?all"
      by (rule filter_cong) (simp_all add: all_entries_active)
    then show ?thesis by (simp add: process_list_entries filter_sort)
  qed
  ultimately show ?thesis unfolding Let_def by blast
qed

theorem process_list_complete_witness:
  "(\<Sum>e\<leftarrow>process_list (\<lambda>_ _. None) [] sample_processes (sample_stat\<lparr>ps_pid := 30\<rparr> # sample_stats) False. le_io_rate e) = 16"
proof -
  have "distinct (map pi_pid sample_processes)"
    by (simp add: sample_processes_def sample_process_def)
  from process_list_complete [OF this, of "\<lambda>_ _. None" "[]" "sample_stat\<lparr>ps_pid := 30\<rparr> # sample_stats"]
  show ?thesis by (simp add: Let_def sample_stats_def sample_stat_def)
qed
section \<open>Every reachable state is consistent, restarts included\<close>

text \<open>A file that the service may find: none, or the document of a consistent registry.\<close>

definition disk_ok :: "state_doc option \<Rightarrow> bool" where
  "disk_ok disk \<longleftrightarrow> disk = None \<or>
     (\<exists>reg. registry_ok reg \<and> rules_ok (tg_rules reg) \<and> disk = Some (state_document reg))"

definition reg_ok :: "TargetRegistry \<Rightarrow> bool" where
  "reg_ok reg \<longleftrightarrow> registry_ok reg \<and> rules_ok (tg_rules reg)"

definition reg_state_ok :: "reg_state \<Rightarrow> bool" where
  "reg_state_ok = (\<lambda>(reg, disk, n). reg_ok reg \<and> disk_ok disk)"

lemma save_disk_ok: "\<lbrakk>reg_ok reg; disk_ok disk\<rbrakk> \<Longrightarrow> disk_ok (save ok reg disk)"
  by (auto simp: save_def disk_ok_def reg_ok_def)

lemma save_step_ok: "reg_state_ok st \<Longrightarrow> reg_state_ok (save_step env st)"
  by (auto simp: reg_state_ok_def save_step_def save_disk_ok split: prod.splits)

lemma ensure_session_rules: "tg_rules (fst (snd (ensure_session env pid proc rule st))) = tg_rules (fst st)"
  by (auto simp: ensure_session_def Let_def save_step_def split: prod.split option.split)

lemma reg_state_okI: "\<lbrakk>reg_ok (fst st); disk_ok (fst (snd st))\<rbrakk> \<Longrightarrow> reg_state_ok st"
  by (cases st) (simp add: reg_state_ok_def)

lemma ensure_session_state_ok:
  assumes "reg_state_ok st"
  shows "reg_state_ok (snd (ensure_session env pid proc rule st))"
proof -
  obtain reg disk n where st: "st = (reg, disk, n)" by (cases st)
  obtain sid st1 where e: "ensure_session env pid proc rule (reg, disk, n) = (sid, st1)"
    by (cases "ensure_session env pid proc rule (reg, disk, n)")
  from assms st have ok: "reg_ok reg" "disk_ok disk" by (simp_all add: reg_state_ok_def)
  from ensure_session_ok [OF _ e] ok(1) ensure_session_rules [of env pid proc rule st]
  have reg1: "reg_ok (fst st1)" by (simp add: reg_ok_def e st)
  have "disk_ok (fst (snd st1))"
  proof (cases "known_session reg (pid, pi_start_time_ns proc)")
    case None
    with e have "fst (snd st1) = save (rf_save_ok env n) (fst st1) disk"
      by (auto simp: ensure_session_def Let_def save_step_def)
    with save_disk_ok [OF reg1 ok(2)] show ?thesis by simp
  next
    case (Some sid')
    with e ok show ?thesis by (auto simp: ensure_session_def Let_def)
  qed
  with reg1 show ?thesis by (simp add: e st reg_state_okI)
qed

lemma refresh_target_state_ok:
  assumes "reg_state_ok (fst acc)"
  shows "reg_state_ok (fst (refresh_target env processes stats m acc))"
proof -
  obtain pid rule where m: "m = (pid, rule)" by (cases m)
  obtain st ids where acc: "acc = (st, ids)" by (cases acc)
  let ?e = "ensure_session env pid (process_of_pid processes pid) rule st"
  obtain sid reg1 disk1 n1 where e: "?e = (sid, reg1, disk1, n1)" by (cases ?e)
  obtain st' ids' where r: "refresh_target env processes stats (pid, rule) (st, ids) = (st', ids')" by fastforce
  have e_ok: "reg_ok reg1" "disk_ok disk1"
    using ensure_session_state_ok [of st env pid "process_of_pid processes pid" rule] assms
    by (simp_all add: acc e reg_state_ok_def)
  from assms have "registry_ok (fst st)" by (cases st) (simp add: acc reg_state_ok_def reg_ok_def)
  from refresh_target_ok [OF this r] have "registry_ok (fst st')" by simp
  moreover from r e have "tg_rules (fst st') = tg_rules reg1" "fst (snd st') = disk1"
    by (auto simp: refresh_target_def Let_def)
  ultimately show ?thesis using e_ok by (simp add: m acc r reg_state_okI reg_ok_def)
qed

lemma finish_step_state_ok:
  assumes "reg_state_ok st"
  shows "reg_state_ok (finish_step env ids sid st)"
proof -
  obtain reg disk n where st: "st = (reg, disk, n)" by (cases st)
  let ?reg = "reg\<lparr>tg_sessions := AList.map_entry sid (finish (rf_now_ns env)) (tg_sessions reg)\<rparr>"
  from assms st have ok: "registry_ok reg" "rules_ok (tg_rules reg)" "disk_ok disk"
    by (simp_all add: reg_state_ok_def reg_ok_def)
  have "registry_ok ?reg"
    using registry_ok_map [OF ok(1) keys_map_entry map_of_map_entry, of sid "finish (rf_now_ns env)"] by simp
  with ok have "reg_state_ok (?reg, disk, n)" by (simp add: reg_state_ok_def reg_ok_def)
  then show ?thesis
    using assms save_step_ok by (auto simp: st finish_step_def split: option.split)
qed

lemma refresh_state_ok:
  assumes "reg_ok reg0" "disk_ok disk0" and r: "refresh env processes stats reg0 disk0 = (snap, reg, disk)"
  shows "reg_ok reg \<and> disk_ok disk"
proof -
  let ?ms = "sort_key fst (resolve (rf_search env) reg0 processes)"
  obtain st1 ids where t: "fold (refresh_target env processes stats) ?ms ((reg0, disk0, 0), []) = (st1, ids)"
    by (cases "fold (refresh_target env processes stats) ?ms ((reg0, disk0, 0), [])")
  obtain reg' disk' n where f: "fold (finish_step env ids) (map fst (tg_sessions (fst st1))) st1 = (reg', disk', n)"
    by (cases "fold (finish_step env ids) (map fst (tg_sessions (fst st1))) st1")
  from r t f have res: "reg = reg'" "disk = disk'" by (simp_all add: refresh_def Let_def)
  have "reg_state_ok (fst ((reg0, disk0, 0 :: nat), [] :: pystr list))" using assms(1,2) by (simp add: reg_state_ok_def)
  from fold_invariant [of "\<lambda>acc. reg_state_ok (fst acc)" "refresh_target env processes stats", OF refresh_target_state_ok this, of ?ms]
  have "reg_state_ok st1" by (simp add: t)
  from fold_invariant [of reg_state_ok "finish_step env ids", OF finish_step_state_ok this] f
  have "reg_state_ok (reg', disk', n)" by metis
  then show ?thesis by (simp add: res reg_state_ok_def)
qed

text \<open>
  The invariant of the service: a loaded registry is consistent, and so is the file.  A restart drops
  the object and its cache and keeps the file.
\<close>

definition world_ok :: "profiler_world \<Rightarrow> bool" where
  "world_ok w \<longleftrightarrow> disk_ok (pw_disk w) \<and> (case pf_targets (pw_service w) of None \<Rightarrow> True | Some reg \<Rightarrow> reg_ok reg)"

definition restart :: "profiler_world \<Rightarrow> profiler_world" where
  "restart w = w\<lparr>pw_service := new_profiler (pf_log (pw_service w)), pw_cache := new_cache 30 3\<rparr>"

inductive profiler_step :: "profiler_world \<Rightarrow> profiler_world \<Rightarrow> bool" where
  step_list: "list_processes env only_io w = (r, w') \<Longrightarrow> profiler_step w w'"
| step_targets: "list_targets w = (r, w') \<Longrightarrow> profiler_step w w'"
| step_add: "add_target ok rule w = (r, w') \<Longrightarrow> profiler_step w w'"
| step_remove: "remove_target ok kind v w = (r, w') \<Longrightarrow> profiler_step w w'"
| step_profile: "get_profile env w = (r, w') \<Longrightarrow> profiler_step w w'"
| step_restart: "profiler_step w (restart w)"

inductive profiler_reachable :: "FileEbpfLogSource \<Rightarrow> profiler_world \<Rightarrow> bool" for src where
  first: "profiler_reachable src \<lparr>pw_service = new_profiler src, pw_cache = new_cache 30 3, pw_disk = None\<rparr>"
| more: "\<lbrakk>profiler_reachable src w; profiler_step w w'\<rbrakk> \<Longrightarrow> profiler_reachable src w'"

lemma load_ok:
  assumes "disk_ok disk"
  shows "\<exists>reg. load mf disk = Inr reg \<and> reg_ok reg"
proof (cases disk)
  case None
  then show ?thesis
    by (simp add: load_def reg_ok_def empty_registry_def registry_ok_def dict_ok_def rules_ok_def)
next
  case (Some doc)
  with assms obtain reg where "registry_ok reg" "rules_ok (tg_rules reg)" "doc = state_document reg"
    by (auto simp: disk_ok_def)
  with Some show ?thesis by (metis load_document reg_ok_def)
qed

lemma registry_world_ok:
  assumes "world_ok w"
  shows "\<exists>reg w1. registry w = (Inr reg, w1) \<and> reg_ok reg \<and> world_ok w1"
proof (cases "pf_targets (pw_service w)")
  case None
  obtain reg where "load MAX_FINISHED (pw_disk w) = Inr reg" "reg_ok reg"
    using assms load_ok [of "pw_disk w" MAX_FINISHED] by (auto simp: world_ok_def)
  with None assms show ?thesis by (simp add: registry_def world_ok_def)
next
  case (Some reg)
  with assms show ?thesis by (simp add: registry_def world_ok_def)
qed

lemma put_registry_ok: "\<lbrakk>reg_ok reg; disk_ok disk\<rbrakk> \<Longrightarrow> world_ok (put_registry reg disk w)"
  by (simp add: world_ok_def put_registry_def)

lemma proc_infos_world: "world_ok (snd (proc_infos env w)) = world_ok w"
  by (simp add: proc_infos_def world_ok_def split: prod.split)

lemma add_rule_ok:
  assumes "reg_ok reg" "disk_ok disk" "add_rule ok rule reg disk = Inr (reg', disk')"
  shows "reg_ok reg' \<and> disk_ok disk'"
proof -
  from assms(3) have kind: "tr_kind rule \<in> set VALID_KINDS" by (auto simp: add_rule_def split: if_splits)
  let ?reg = "reg\<lparr>tg_rules := put_rule rule (tg_rules reg)\<rparr>"
  have "reg_ok ?reg" using assms(1) put_rule_ok [OF _ kind] by (simp add: reg_ok_def registry_ok_def)
  with assms save_disk_ok [OF this, of disk ok] show ?thesis by (auto simp: add_rule_put [OF kind])
qed

lemma remove_rule_ok:
  assumes "reg_ok reg" "disk_ok disk" "remove_rule ok kind v reg disk = (c, reg', disk')"
  shows "reg_ok reg' \<and> disk_ok disk'"
proof -
  let ?reg = "reg\<lparr>tg_rules := drop_rule (kind, v) (tg_rules reg)\<rparr>"
  have "reg_ok ?reg" using assms(1) drop_rule_ok by (simp add: reg_ok_def registry_ok_def)
  with assms save_disk_ok [OF this, of disk ok] show ?thesis
    by (auto simp: remove_rule_drop split: if_splits)
qed

lemma list_processes_ok: "world_ok w \<Longrightarrow> world_ok (snd (list_processes env only_io w))"
proof -
  assume "world_ok w"
  obtain pr w1 where p: "proc_infos env w = (pr, w1)" by (cases "proc_infos env w")
  with \<open>world_ok w\<close> proc_infos_world [of env w] have "world_ok w1" by simp
  with registry_world_ok [OF this] p show ?thesis
    by (auto simp: list_processes_def Let_def split: sum.split)
qed

lemma add_target_ok: "world_ok w \<Longrightarrow> world_ok (snd (add_target ok rule w))"
proof -
  assume "world_ok w"
  from registry_world_ok [OF this] obtain reg w1 where
    reg: "registry w = (Inr reg, w1)" "reg_ok reg" "world_ok w1" by blast
  then have disk: "disk_ok (pw_disk w1)" by (simp add: world_ok_def)
  show ?thesis
  proof (cases "add_rule ok rule reg (pw_disk w1)")
    case (Inl e)
    with reg show ?thesis by (simp add: add_target_def)
  next
    case (Inr res)
    then obtain reg' disk' where x: "add_rule ok rule reg (pw_disk w1) = Inr (reg', disk')" by (cases res) simp
    from add_rule_ok [OF reg(2) disk x] reg(1) x show ?thesis by (simp add: add_target_def put_registry_ok)
  qed
qed

lemma remove_target_ok: "world_ok w \<Longrightarrow> world_ok (snd (remove_target ok kind v w))"
proof -
  assume "world_ok w"
  from registry_world_ok [OF this] obtain reg w1 where
    reg: "registry w = (Inr reg, w1)" "reg_ok reg" "world_ok w1" by blast
  then have disk: "disk_ok (pw_disk w1)" by (simp add: world_ok_def)
  obtain c reg' disk' where x: "remove_rule ok kind v reg (pw_disk w1) = (c, reg', disk')"
    by (cases "remove_rule ok kind v reg (pw_disk w1)")
  from remove_rule_ok [OF reg(2) disk x] reg(1) x show ?thesis by (simp add: remove_target_def put_registry_ok)
qed

lemma get_profile_ok: "world_ok w \<Longrightarrow> world_ok (snd (get_profile env w))"
proof -
  assume "world_ok w"
  from registry_world_ok [OF this] obtain reg w1 where
    reg: "registry w = (Inr reg, w1)" "reg_ok reg" "world_ok w1" by blast
  obtain pr w2 where p: "proc_infos env w1 = (pr, w2)" by (cases "proc_infos env w1")
  with reg(3) proc_infos_world [of env w1] have w2: "world_ok w2" by simp
  show ?thesis
  proof (cases pr)
    case (Inl e)
    with reg p w2 show ?thesis by (simp add: get_profile_def Let_def)
  next
    case (Inr procs)
    let ?stats = "if available (pf_log (pw_service w)) (pe_check2 env) then service_process_stats env (pw_service w) else []"
    obtain snap reg' disk' where x: "refresh (pe_refresh env) procs ?stats reg (pw_disk w2) = (snap, reg', disk')"
      by (cases "refresh (pe_refresh env) procs ?stats reg (pw_disk w2)")
    have "disk_ok (pw_disk w2)" using w2 by (simp add: world_ok_def)
    from refresh_state_ok [OF reg(2) this x] have "world_ok (put_registry reg' disk' w2)"
      by (simp add: put_registry_ok)
    moreover from reg p Inr x have "snd (get_profile env w) = put_registry reg' disk' w2"
      by (simp add: get_profile_def Let_def)
    ultimately show ?thesis by simp
  qed
qed

lemma profiler_step_ok:
  assumes "profiler_step w w'" "world_ok w"
  shows "world_ok w'"
  using assms
proof (induction rule: profiler_step.induct)
  case (step_targets w r w')
  from registry_world_ok [OF step_targets.prems] step_targets.hyps show ?case
    by (auto simp: list_targets_def)
next
  case (step_restart w)
  then show ?case by (simp add: restart_def world_ok_def new_profiler_def)
qed (metis list_processes_ok snd_conv, metis add_target_ok snd_conv, metis remove_target_ok snd_conv,
    metis get_profile_ok snd_conv)

lemma profiler_reachable_ok: "profiler_reachable src w \<Longrightarrow> world_ok w"
proof (induction rule: profiler_reachable.induct)
  case first
  show ?case by (simp add: world_ok_def disk_ok_def new_profiler_def)
next
  case (more w w')
  then show ?case by (blast intro: profiler_step_ok)
qed

text \<open>
  C23: the service never corrupts its own state.  In every state reachable from an empty directory by
  any sequence of calls and restarts, with any outcome of the writes, the registry can be loaded and is
  consistent (one session per process identity, unique rules of known kinds); so listing the targets
  succeeds, and a profile fails only when the kernel's task listing does.
\<close>

theorem profiler_state_consistent:
  assumes "profiler_reachable src w"
  shows "(\<exists>reg. fst (registry w) = Inr reg \<and> registry_ok reg \<and> rules_ok (tg_rules reg) \<and>
      fst (list_targets w) = Inr (tg_rules reg)) \<and>
    (\<forall>env e. fst (get_profile env w) = Inl e \<longrightarrow> pe_listing env = Inl e)"
proof -
  from registry_world_ok [OF profiler_reachable_ok [OF assms]] obtain reg w1 where
    reg: "registry w = (Inr reg, w1)" "reg_ok reg" by blast
  have "pe_listing env = Inl e" if "fst (get_profile env w) = Inl e" for env e
    using that reg
    by (auto simp: get_profile_def Let_def proc_infos_def get_or_compute_def
        split: sum.splits prod.splits option.splits)
  with reg show ?thesis by (auto simp: list_targets_def reg_ok_def)
qed

definition sample_world :: profiler_world where
  "sample_world = \<lparr>pw_service = new_profiler \<lparr>src_path = None\<rparr>, pw_cache = new_cache 30 3, pw_disk = None\<rparr>"

theorem profiler_state_consistent_witness:
  "\<exists>reg. fst (registry (restart (snd (add_target True \<lparr>tr_kind = ''pid'', tr_value = ''7'', tr_adapter = None\<rparr> sample_world)))) =
     Inr reg \<and> registry_ok reg"
proof -
  let ?r = "\<lparr>tr_kind = ''pid'', tr_value = ''7'', tr_adapter = None\<rparr>"
  have "profiler_reachable \<lparr>src_path = None\<rparr> sample_world"
    unfolding sample_world_def by (rule first)
  moreover have "profiler_step sample_world (snd (add_target True ?r sample_world))"
    by (rule step_add) (rule prod.collapse [symmetric])
  ultimately have "profiler_reachable \<lparr>src_path = None\<rparr> (restart (snd (add_target True ?r sample_world)))"
    by (blast intro: more step_restart)
  from profiler_state_consistent [OF this] show ?thesis by blast
qed

lemma registry_cache: "pw_cache (snd (registry w)) = pw_cache w"
  by (simp add: registry_def split: option.split sum.split)

lemma list_processes_cache:
  "pw_cache (snd (list_processes env only_io w)) =
     fst (get_or_compute (pw_cache w) PROC_INFO_CACHE_KEY (pe_now env) (pe_listing env) (pe_finished env))"
proof -
  obtain c r where g: "get_or_compute (pw_cache w) PROC_INFO_CACHE_KEY (pe_now env) (pe_listing env) (pe_finished env) = (c, r)"
    by (cases "get_or_compute (pw_cache w) PROC_INFO_CACHE_KEY (pe_now env) (pe_listing env) (pe_finished env)")
  obtain rr w2 where reg: "registry (w\<lparr>pw_cache := c\<rparr>) = (rr, w2)" by (cases "registry (w\<lparr>pw_cache := c\<rparr>)")
  with registry_cache [of "w\<lparr>pw_cache := c\<rparr>"] have "pw_cache w2 = c" by simp
  with g reg show ?thesis
    by (cases r; cases rr) (simp_all add: list_processes_def proc_infos_def Let_def)
qed

text \<open>
  The expensive listing is shared.  Once a call has listed the kernel's tasks, no call of either
  kind looks at the kernel again before the lifetime of the result has passed, which is at least
  \<open>duration_factor\<close> times what the listing took; the answers do not depend on what the
  kernel would say.
\<close>

theorem kernel_listing_shared:
  assumes "list_processes env only_io w = (Inr es, w1)"
    and "live_value (pw_cache w) PROC_INFO_CACHE_KEY (pe_now env) = None"
    and "pe_now env' - pe_finished env <
      max (min_ttl (pw_cache w)) ((pe_finished env - pe_now env) * duration_factor (pw_cache w))"
  shows "get_profile (env'\<lparr>pe_listing := x, pe_finished := y\<rparr>) w1 = get_profile env' w1 \<and>
    list_processes (env'\<lparr>pe_listing := x, pe_finished := y\<rparr>) only_io' w1 = list_processes env' only_io' w1 \<and>
    pw_cache (snd (get_profile env' w1)) = pw_cache w1"
proof -
  from assms(1,2) obtain v where v: "pe_listing env = Inr v"
    by (cases "pe_listing env") (auto simp: list_processes_def proc_infos_def get_or_compute_def Let_def)
  have cache: "pw_cache w1 = (pw_cache w)\<lparr>entries := AList.update PROC_INFO_CACHE_KEY
      (pe_finished env, v, max (min_ttl (pw_cache w)) ((pe_finished env - pe_now env) * duration_factor (pw_cache w)))
      (entries (pw_cache w))\<rparr>"
    using list_processes_cache [of env only_io w] by (simp add: assms(1) v get_or_compute_miss [OF assms(2)])
  have live: "live_value (pw_cache w1) PROC_INFO_CACHE_KEY (pe_now env') = Some v"
    using assms(3) by (simp add: cache live_value_def map_of_update)
  have hit: "proc_infos e w' = (Inr v, w')" if "pw_cache w' = pw_cache w1" "pe_now e = pe_now env'" for e w'
    using live that by (simp add: proc_infos_def get_or_compute_hit)
  show ?thesis
  proof (intro conjI)
    obtain rr w2 where reg: "registry w1 = (rr, w2)" by (cases "registry w1")
    with registry_cache [of w1] have w2: "pw_cache w2 = pw_cache w1" by simp
    show "get_profile (env'\<lparr>pe_listing := x, pe_finished := y\<rparr>) w1 = get_profile env' w1"
      using reg hit [OF w2] by (simp add: get_profile_def service_process_stats_def Let_def split: sum.split)
    show "list_processes (env'\<lparr>pe_listing := x, pe_finished := y\<rparr>) only_io' w1 = list_processes env' only_io' w1"
      using reg hit [of w1] by (simp add: list_processes_def service_process_stats_def Let_def split: sum.split)
    show "pw_cache (snd (get_profile env' w1)) = pw_cache w1"
      using reg hit [OF w2] w2
      by (simp add: get_profile_def put_registry_def Let_def split: sum.split prod.split)
  qed
qed

definition sample_profiler_env :: profiler_env where
  "sample_profiler_env = \<lparr>pe_check = \<lparr>fv_exists = False, fv_size = None, fv_content = None\<rparr>,
     pe_tail = \<lparr>fv_exists = False, fv_size = None, fv_content = None\<rparr>,
     pe_check2 = \<lparr>fv_exists = False, fv_size = None, fv_content = None\<rparr>,
     pe_now = 1, pe_listing = Inr [], pe_finished = 2, pe_refresh = sample_env\<rparr>"

theorem kernel_listing_shared_witness:
  "get_profile (sample_profiler_env\<lparr>pe_now := 20, pe_listing := Inl FaultError, pe_finished := 2\<rparr>)
     (snd (list_processes sample_profiler_env False sample_world)) =
   get_profile (sample_profiler_env\<lparr>pe_now := 20\<rparr>) (snd (list_processes sample_profiler_env False sample_world))"
proof -
  obtain es w1 where l: "list_processes sample_profiler_env False sample_world = (Inr es, w1)"
    by (simp add: list_processes_def proc_infos_def get_or_compute_def live_value_def sample_world_def
        new_cache_def new_profiler_def sample_profiler_env_def registry_def load_def Let_def)
  have "get_profile ((sample_profiler_env\<lparr>pe_now := 20\<rparr>)\<lparr>pe_listing := Inl FaultError, pe_finished := 2\<rparr>) w1 =
      get_profile (sample_profiler_env\<lparr>pe_now := 20\<rparr>) w1"
    using kernel_listing_shared [OF l, where env' = "sample_profiler_env\<lparr>pe_now := 20\<rparr>" and x = "Inl FaultError" and y = 2]
    by (simp add: live_value_def sample_world_def new_cache_def sample_profiler_env_def)
  then show ?thesis by (simp only: l snd_conv)
qed

end
