(* ===== verification/QueueDecode.thy ===== *)
theory QueueDecode
  imports NvmeConst
begin

unbundle bit_operations_syntax

text \<open>
  \<open>services/queues/decode.py\<close>: the window of recent ring slots, the decoding of PRP pages, the IOMMU
  test and the two layouts of \<open>cdw2\<close>/\<open>cdw3\<close>.

  drgn's \<open>Program.read(addr, n, physical=True)\<close> is a parameter: a function from an address and a
  length to an exception or the bytes.
\<close>

type_synonym phys_reader = "int \<Rightarrow> int \<Rightarrow> exn + pybytes"

section \<open>Ring windows\<close>

definition window_indices :: "int \<Rightarrow> int \<Rightarrow> int \<Rightarrow> int list" where
  "window_indices doorbell depth limit =
     (let n = (if limit \<noteq> 0 then min limit depth else depth)
      in map (\<lambda>i. (doorbell - 1 - i) mod depth) [0..n - 1])"

section \<open>PRP pages\<close>

definition read_page :: "phys_reader \<Rightarrow> int \<Rightarrow> int \<Rightarrow> int \<Rightarrow> bool \<Rightarrow> PrpPage" where
  "read_page rd phys offset nbytes0 is_list_page =
     (let nbytes = max 0 (min nbytes0 PAGE_SIZE);
          data = (case rd phys nbytes of Inl _ \<Rightarrow> [] | Inr bs \<Rightarrow> bs)
      in \<lparr>pp_phys_addr = phys, pp_offset_in_page = offset, pp_data = data,
          pp_is_list_page = is_list_page\<rparr>)"

text \<open>\<open>struct.unpack(f"<{n}Q", raw)\<close>: \<open>n\<close> little-endian 64-bit numbers, or an error when the
  buffer does not have exactly \<open>8 * n\<close> bytes.\<close>

fun le_value :: "pybytes \<Rightarrow> int" where
  "le_value [] = 0"
| "le_value (b # bs) = int (of_char b) + 256 * le_value bs"

fun unpack_q :: "nat \<Rightarrow> pybytes \<Rightarrow> int list option" where
  "unpack_q 0 raw = (if raw = [] then Some [] else None)"
| "unpack_q (Suc n) raw =
     (if length raw < 8 then None
      else map_option (Cons (le_value (take 8 raw))) (unpack_q n (drop 8 raw)))"

text \<open>The loop over the entries of the PRP list; \<open>i\<close> counts them and \<open>shown\<close> the bytes so far.\<close>

fun entry_pages :: "phys_reader \<Rightarrow> int \<Rightarrow> int \<Rightarrow> int \<Rightarrow> int list \<Rightarrow> PrpPage list" where
  "entry_pages rd remaining i shown [] = []"
| "entry_pages rd remaining i shown (entry_phys # entries) =
     (if shown \<ge> MAX_PAGE_DUMP then []
      else
        (let page_bytes = min PAGE_SIZE (min (remaining - i * PAGE_SIZE) (MAX_PAGE_DUMP - shown))
         in if page_bytes \<le> 0 then []
            else read_page rd entry_phys 0 page_bytes False #
              entry_pages rd remaining (i + 1) (shown + page_bytes) entries))"

definition list_entries :: "phys_reader \<Rightarrow> int \<Rightarrow> int \<Rightarrow> int list" where
  "list_entries rd prp2 show_n =
     (case rd prp2 (show_n * 8) of
        Inl _ \<Rightarrow> []
      | Inr raw \<Rightarrow> (case unpack_q (nat show_n) raw of None \<Rightarrow> [] | Some entries \<Rightarrow> entries))"

definition decode_prp_pages :: "phys_reader \<Rightarrow> int \<Rightarrow> int \<Rightarrow> int \<Rightarrow> PrpPage list" where
  "decode_prp_pages rd prp1 prp2 total_len =
     (if prp1 = 0 \<or> total_len \<le> 0 then []
      else
        (let offset = prp1 AND PAGE_MASK;
             first_page_bytes = min total_len (PAGE_SIZE - offset);
             first_bytes = min first_page_bytes MAX_PAGE_DUMP;
             first = read_page rd prp1 offset first_bytes False;
             remaining = total_len - first_page_bytes
         in if remaining \<le> 0 \<or> first_bytes \<ge> MAX_PAGE_DUMP then [first]
            else
              (let n_more = - ((- remaining) div PAGE_SIZE)
               in if n_more = 1 then
                    (let page_bytes = min remaining (MAX_PAGE_DUMP - first_bytes)
                     in if page_bytes > 0 then [first, read_page rd prp2 0 page_bytes False]
                        else [first])
                  else
                    (let list_page = read_page rd prp2 0 (min remaining PAGE_SIZE) True;
                         show_n = min n_more (min (PRPS_PER_PAGE - 1) 8)
                     in first # list_page #
                        entry_pages rd remaining 0 first_bytes (list_entries rd prp2 show_n)))))"

section \<open>Host and layout probes\<close>

text \<open>\<open>_iommu_enabled\<close>: the listing of \<open>/sys/class/iommu\<close>, \<open>None\<close> when the directory is missing.\<close>

definition iommu_enabled :: "pystr list option \<Rightarrow> bool" where
  "iommu_enabled dir = (case dir of None \<Rightarrow> False | Some entries \<Rightarrow> length entries > 0)"

text \<open>
  The four accesses of \<open>_cdw2_cdw3\<close>: \<open>cdw2\<close> and \<open>cdw3\<close> as separate fields, then \<open>cdw2[0]\<close> and
  \<open>cdw2[1]\<close>.
\<close>

definition cdw2_cdw3 :: "exn + int \<Rightarrow> exn + int \<Rightarrow> exn + int \<Rightarrow> exn + int \<Rightarrow> exn + int \<times> int" where
  "cdw2_cdw3 f2 f3 a0 a1 =
     (case bindE f2 (\<lambda>x. bindE f3 (\<lambda>y. Inr (x, y))) of
        Inr p \<Rightarrow> Inr p
      | Inl e \<Rightarrow>
          if e \<in> {AttributeError, LookupError, TypeError}
          then (case bindE a0 (\<lambda>x. bindE a1 (\<lambda>y. Inr (x, y))) of
                  Inr p \<Rightarrow> Inr p
                | Inl _ \<Rightarrow> Inr (0, 0))
          else Inl e)"

section \<open>The window as a ring-buffer view\<close>

lemma window_length:
  "0 < depth \<Longrightarrow> 0 \<le> limit \<Longrightarrow>
   length (window_indices doorbell depth limit) = nat (if limit = 0 then depth else min limit depth)"
  by (simp add: window_indices_def Let_def)

lemma window_nth:
  assumes "k < length (window_indices doorbell depth limit)"
  shows "window_indices doorbell depth limit ! k = (doorbell - 1 - int k) mod depth"
  using assms by (simp add: window_indices_def Let_def)

lemma window_bound: "k < length (window_indices doorbell depth limit) \<Longrightarrow> int k < depth"
  by (simp add: window_indices_def Let_def min_def split: if_splits)

text \<open>
  The specification: a producer has written the commands \<open>ws\<close> one after the other into the slots
  \<open>0, 1, 2, ...\<close> modulo the depth, starting from the ring's initial content.
\<close>

fun ring_write :: "int \<Rightarrow> (int \<Rightarrow> 'a) \<Rightarrow> int \<Rightarrow> 'a list \<Rightarrow> (int \<Rightarrow> 'a)" where
  "ring_write depth ring pos [] = ring"
| "ring_write depth ring pos (w # ws) = ring_write depth (ring(pos mod depth := w)) (pos + 1) ws"

lemma ring_write_snoc:
  "ring_write depth ring pos (ws @ [w]) =
     (ring_write depth ring pos ws)((pos + int (length ws)) mod depth := w)"
  by (induction ws arbitrary: ring pos) (simp_all add: algebra_simps)

lemma ring_recent:
  assumes "0 < depth" "int k < depth" "k < length ws"
  shows "ring_write depth ring 0 ws ((int (length ws) - 1 - int k) mod depth) = rev ws ! k"
  using assms
proof (induction ws arbitrary: k rule: rev_induct)
  case Nil
  then show ?case by simp
next
  case (snoc w ws)
  show ?case
  proof (cases k)
    case 0
    then show ?thesis by (simp add: ring_write_snoc)
  next
    case (Suc j)
    have "(int (length ws) - int k) mod depth \<noteq> int (length ws) mod depth"
    proof
      assume "(int (length ws) - int k) mod depth = int (length ws) mod depth"
      then have "depth dvd int k" by (simp add: mod_eq_dvd_iff)
      with snoc.prems Suc show False by (auto dest: zdvd_imp_le)
    qed
    then show ?thesis
      using snoc.IH [of j] snoc.prems Suc
      by (simp add: ring_write_snoc algebra_simps)
  qed
qed

lemma window_distinct:
  assumes "0 < depth"
  shows "distinct (window_indices doorbell depth limit)"
proof (rule distinct_conv_nth [THEN iffD2], intro allI impI notI)
  let ?w = "window_indices doorbell depth limit"
  fix j k assume jk: "j < length ?w" "k < length ?w" "j \<noteq> k" and eq: "?w ! j = ?w ! k"
  from eq have "depth dvd (int k - int j)"
    using window_nth [OF jk(1)] window_nth [OF jk(2)] by (simp add: mod_eq_dvd_iff)
  moreover have "\<bar>int k - int j\<bar> < depth"
    using window_bound [OF jk(1)] window_bound [OF jk(2)] by simp
  moreover have "int k - int j \<noteq> 0" using jk(3) by simp
  ultimately show False using dvd_imp_le_int [of "int k - int j" depth] by linarith
qed

lemma window_range:
  "0 < depth \<Longrightarrow> \<forall>i \<in> set (window_indices doorbell depth limit). 0 \<le> i \<and> i < depth"
  by (auto simp: window_indices_def Let_def)

text \<open>
  C7: the window is the recent history.  After any sequence of writes into a ring of positive
  depth, reading the slots of the window behind the doorbell gives the last \<open>n\<close> commands written,
  newest first, however often the ring has wrapped around; no slot is visited twice.
\<close>

theorem window_is_recent_history:
  assumes "0 < depth" and "0 < limit" and "min limit depth \<le> int (length ws)"
    and "doorbell = int (length ws) mod depth"
  shows "map (ring_write depth ring 0 ws) (window_indices doorbell depth limit) =
      take (nat (min limit depth)) (rev ws) \<and>
    distinct (window_indices doorbell depth limit) \<and>
    (\<forall>i \<in> set (window_indices doorbell depth limit). 0 \<le> i \<and> i < depth)"
proof -
  let ?w = "window_indices doorbell depth limit"
  have len: "length ?w = nat (min limit depth)"
    using window_length [OF assms(1), of limit doorbell] assms(2) by simp
  have nth: "?w ! k = (int (length ws) - 1 - int k) mod depth" if "k < length ?w" for k
  proof -
    have "?w ! k = (doorbell - (1 + int k)) mod depth"
      using window_nth [OF that] by (simp only: diff_diff_eq)
    also have "\<dots> = (int (length ws) - (1 + int k)) mod depth"
      unfolding assms(4) by (rule mod_diff_left_eq)
    finally show ?thesis by (simp only: diff_diff_eq)
  qed
  have "map (ring_write depth ring 0 ws) ?w = take (nat (min limit depth)) (rev ws)"
  proof (rule nth_equalityI)
    show "length (map (ring_write depth ring 0 ws) ?w) = length (take (nat (min limit depth)) (rev ws))"
      using assms(3) len by simp
    fix k assume "k < length (map (ring_write depth ring 0 ws) ?w)"
    then have k: "k < length ?w" by simp
    then have "k < length ws" using assms(3) len by simp
    with ring_recent [OF assms(1) window_bound [OF k]] k len nth [OF k]
    show "map (ring_write depth ring 0 ws) ?w ! k = take (nat (min limit depth)) (rev ws) ! k"
      by simp
  qed
  then show ?thesis using window_distinct window_range assms(1) by blast
qed

theorem window_is_recent_history_witness:
  "map (ring_write 4 (\<lambda>_. ''-'') 0 [''a'', ''b'', ''c'', ''d'', ''e'', ''f'']) (window_indices 2 4 3) =
   [''f'', ''e'', ''d'']"
proof -
  let ?ws = "[''a'', ''b'', ''c'', ''d'', ''e'', ''f'']"
  have "map (ring_write 4 (\<lambda>_. ''-'') 0 ?ws) (window_indices 2 4 3) = take (nat (min 3 4)) (rev ?ws)"
    by (rule conjunct1 [OF window_is_recent_history]) simp_all
  also have "\<dots> = [''f'', ''e'', ''d'']" by simp
  finally show ?thesis .
qed

text \<open>A limit of zero selects the whole ring; a negative one selects nothing.\<close>

lemma window_limit_zero: "window_indices d depth 0 = window_indices d depth depth"
  by (simp add: window_indices_def Let_def)

text \<open>
  A negative limit does not stand for the whole ring: the window is empty.
\<close>

theorem window_negative_limit:
  assumes "limit < 0"
  shows "window_indices doorbell depth limit = []"
  using assms by (simp add: window_indices_def Let_def)

theorem window_negative_limit_witness: "window_indices 3 8 (-1) = []"
  using window_negative_limit [of "-1" 3 8] by simp

section \<open>The payload as a PRP transfer\<close>

text \<open>
  The specification follows the NVMe rule for PRPs, one byte at a time.  Byte \<open>k\<close> of the transfer
  lies behind \<open>PRP1\<close> up to the end of that page; the rest lies in the page of \<open>PRP2\<close> when one page
  is enough, and otherwise in the pages whose addresses the list at \<open>PRP2\<close> holds.
\<close>

definition mem_bytes :: "(int \<Rightarrow> char) \<Rightarrow> int \<Rightarrow> int \<Rightarrow> pybytes" where
  "mem_bytes mem a n = map (\<lambda>i. mem (a + i)) [0..n - 1]"

definition prp_entry :: "(int \<Rightarrow> char) \<Rightarrow> int \<Rightarrow> int \<Rightarrow> int" where
  "prp_entry mem prp2 i = le_value (mem_bytes mem (prp2 + 8 * i) 8)"

definition prp_addr :: "(int \<Rightarrow> char) \<Rightarrow> int \<Rightarrow> int \<Rightarrow> int \<Rightarrow> int \<Rightarrow> int" where
  "prp_addr mem prp1 prp2 total_len k =
     (let first = min total_len (4096 - prp1 mod 4096); j = k - first
      in if k < first then prp1 + k
         else if total_len - first \<le> 4096 then prp2 + j
         else prp_entry mem prp2 (j div 4096) + j mod 4096)"

definition reads_memory :: "phys_reader \<Rightarrow> (int \<Rightarrow> char) \<Rightarrow> bool" where
  "reads_memory rd mem \<longleftrightarrow> (\<forall>a n. 0 \<le> n \<longrightarrow> rd a n = Inr (mem_bytes mem a n))"

definition payload_bytes :: "PrpPage list \<Rightarrow> pybytes" where
  "payload_bytes pages = concat (map pp_data (filter (\<lambda>p. \<not> pp_is_list_page p) pages))"

lemma upto_split: "0 \<le> m \<Longrightarrow> 0 \<le> n \<Longrightarrow> [0..m + n - 1] = [0..m - 1] @ map (\<lambda>i. m + i) [0..n - 1]"
proof -
  assume m: "0 \<le> m" and n: "0 \<le> n"
  have "[0..m + n - 1] = [0..m - 1] @ [m..m + n - 1]"
    using upto_split2 [of 0 "m - 1" "m + n - 1"] m n by (cases "m = 0") auto
  moreover have "[m..m + n - 1] = map (\<lambda>i. m + i) [0..n - 1]"
    by (rule nth_equalityI) (use n in auto)
  ultimately show ?thesis by simp
qed

lemma read_page_mem:
  assumes "reads_memory rd mem" "0 \<le> n" "n \<le> 4096"
  shows "read_page rd phys off n l =
    \<lparr>pp_phys_addr = phys, pp_offset_in_page = off, pp_data = mem_bytes mem phys n, pp_is_list_page = l\<rparr>"
  using assms by (simp add: read_page_def reads_memory_def PAGE_SIZE_def Let_def)

lemma length_mem_bytes [simp]: "length (mem_bytes mem a n) = nat n"
  by (simp add: mem_bytes_def)

lemma mem_bytes_split:
  "0 \<le> m \<Longrightarrow> 0 \<le> n \<Longrightarrow> mem_bytes mem a (m + n) = mem_bytes mem a m @ mem_bytes mem (a + m) n"
  by (simp add: mem_bytes_def upto_split comp_def add.assoc)

lemma first_list_entry:
  assumes "reads_memory rd mem" "0 < n"
  shows "\<exists>es. list_entries rd prp2 n = prp_entry mem prp2 0 # es"
proof -
  obtain k where k: "nat n = Suc k" using assms(2) by (cases "nat n") auto
  have "n * 8 = 8 + int k * 8" using k by simp
  then have raw: "rd prp2 (n * 8) = Inr (mem_bytes mem prp2 8 @ mem_bytes mem (prp2 + 8) (int k * 8))"
    using assms mem_bytes_split [of 8 "int k * 8" mem prp2] by (simp add: reads_memory_def)
  have unpack: "\<exists>es. unpack_q m (mem_bytes mem a (int m * 8)) = Some es" for m a
  proof (induction m arbitrary: a)
    case 0
    then show ?case by (simp add: mem_bytes_def)
  next
    case (Suc m)
    have "mem_bytes mem a (int (Suc m) * 8) = mem_bytes mem a 8 @ mem_bytes mem (a + 8) (int m * 8)"
      using mem_bytes_split [of 8 "int m * 8" mem a] by (simp add: algebra_simps)
    with Suc [of "a + 8"] show ?case by auto
  qed
  from unpack [of k "prp2 + 8"] raw k show ?thesis
    by (auto simp: list_entries_def prp_entry_def)
qed

text \<open>The three shapes of a transfer, with the ceiling division resolved.\<close>

lemma one_more_page:
  assumes "0 < (r :: int)"
  shows "(- ((- r) div 4096) = 1) = (r \<le> 4096)"
proof (cases "r \<le> 4096")
  case True
  then have "(- r) div 4096 = -1"
    using assms by (intro int_div_pos_eq [where r = "4096 - r"]) auto
  with True show ?thesis by simp
next
  case False
  then have "(- r) div 4096 \<le> (-4097) div 4096" by (intro zdiv_mono1) auto
  with False show ?thesis by simp
qed

lemma more_pages_pos: "0 < (r :: int) \<Longrightarrow> 0 < - ((- r) div 4096)"
  by (simp add: neg_imp_zdiv_neg_iff)

lemma decode_prp_pages_cases:
  assumes "0 < prp1" "0 < total_len"
    and off: "off = prp1 mod 4096" and fst: "first = min total_len (4096 - off)"
  shows "decode_prp_pages rd prp1 prp2 total_len =
    (if total_len - first \<le> 0 \<or> first \<ge> 4096 then [read_page rd prp1 off first False]
     else if total_len - first \<le> 4096 then
       [read_page rd prp1 off first False,
        read_page rd prp2 0 (min (total_len - first) (4096 - first)) False]
     else read_page rd prp1 off first False # read_page rd prp2 0 4096 True #
       entry_pages rd (total_len - first) 0 first
         (list_entries rd prp2 (min (- ((- (total_len - first)) div 4096)) 8)))"
proof -
  have "prp1 AND PAGE_MASK = off" by (simp add: off page_consts and_mask_mod)
  moreover have "0 \<le> off" by (simp add: off)
  moreover from this have "min first MAX_PAGE_DUMP = first" by (simp add: fst page_consts)
  ultimately have eq: "decode_prp_pages rd prp1 prp2 total_len =
    (if total_len - first \<le> 0 \<or> first \<ge> 4096 then [read_page rd prp1 off first False]
     else if - ((- (total_len - first)) div 4096) = 1 then
       (if min (total_len - first) (4096 - first) > 0
        then [read_page rd prp1 off first False,
              read_page rd prp2 0 (min (total_len - first) (4096 - first)) False]
        else [read_page rd prp1 off first False])
     else read_page rd prp1 off first False #
       read_page rd prp2 0 (min (total_len - first) 4096) True #
       entry_pages rd (total_len - first) 0 first
         (list_entries rd prp2 (min (- ((- (total_len - first)) div 4096)) (min 511 8))))"
    using assms(1,2) unfolding decode_prp_pages_def
    by (simp only: Let_def page_consts(1,4) fst [symmetric]) (simp add: page_consts)
  show ?thesis
    unfolding eq using one_more_page [of "total_len - first"] by auto
qed

lemma prp_transfer_split:
  assumes "0 < total_len" and fst: "first = min total_len (4096 - prp1 mod 4096)" and rst: "rest = min total_len 4096 - first"
  shows "map (\<lambda>k. mem (prp_addr mem prp1 prp2 total_len k)) [0..min total_len 4096 - 1] =
      mem_bytes mem prp1 first @
      mem_bytes mem (if total_len - first \<le> 4096 then prp2 else prp_entry mem prp2 0) rest"
proof -
  have "0 \<le> prp1 mod 4096" "prp1 mod 4096 < 4096" by simp_all
  then have bounds: "0 < first" "0 \<le> rest" "rest \<le> 4096"
    using assms(1) unfolding rst fst by linarith+
  have "[0..min total_len 4096 - 1] = [0..first - 1] @ map (\<lambda>i. first + i) [0..rest - 1]"
    using upto_split [of first rest] bounds by (simp add: rst)
  moreover have "map (\<lambda>k. mem (prp_addr mem prp1 prp2 total_len k)) [0..first - 1] =
      mem_bytes mem prp1 first"
    by (simp add: mem_bytes_def prp_addr_def Let_def fst [symmetric])
  moreover have "map (\<lambda>i. mem (prp_addr mem prp1 prp2 total_len (first + i))) [0..rest - 1] =
      mem_bytes mem (if total_len - first \<le> 4096 then prp2 else prp_entry mem prp2 0) rest"
    using bounds(3) by (auto simp: mem_bytes_def prp_addr_def Let_def fst [symmetric])
  ultimately show ?thesis by (simp add: comp_def)
qed

lemma list_transfer_pages:
  assumes "reads_memory rd mem" "4096 < remaining" "0 < shown" "shown < 4096"
  shows "entry_pages rd remaining 0 shown (list_entries rd prp2 (min (- ((- remaining) div 4096)) 8)) =
    [read_page rd (prp_entry mem prp2 0) 0 (4096 - shown) False]"
proof -
  have "0 < min (- ((- remaining) div 4096)) 8" using assms(2) more_pages_pos [of remaining] by simp
  from first_list_entry [OF assms(1) this, of prp2] obtain es where
    es: "list_entries rd prp2 (min (- ((- remaining) div 4096)) 8) = prp_entry mem prp2 0 # es" by blast
  have "min 4096 (min (remaining - 0) (4096 - shown)) = 4096 - shown" using assms by simp
  then show ?thesis
    unfolding es using assms by (cases es) (simp_all add: page_consts Let_def)
qed

text \<open>
  C6: the dump is the transfer.  When physical memory can be read, the data pages of a decoded
  payload hold, in order, exactly the first 4096 bytes of the command's PRP transfer (all of it when it is
  shorter), for a transfer inside one page, over two pages or through a PRP list, at any offset in
  the first page.
\<close>

theorem prp_payload_is_transfer:
  assumes "reads_memory rd mem" and "0 < prp1" and "0 < total_len"
  shows "payload_bytes (decode_prp_pages rd prp1 prp2 total_len) =
    map (\<lambda>k. mem (prp_addr mem prp1 prp2 total_len k)) [0..min total_len 4096 - 1]"
proof -
  define first where "first = min total_len (4096 - prp1 mod 4096)"
  define rest where "rest = min total_len 4096 - first"
  have "0 \<le> prp1 mod 4096" "prp1 mod 4096 < 4096" by simp_all
  then have first: "0 < first" "first \<le> 4096" using assms(3) by (auto simp: first_def)
  note spec = prp_transfer_split [OF assms(3) first_def rest_def]
  note shape = decode_prp_pages_cases [OF assms(2,3) refl first_def]
  note page = read_page_mem [OF assms(1)]
  consider (one) "total_len - first \<le> 0 \<or> first \<ge> 4096"
    | (two) "0 < total_len - first" "total_len - first \<le> 4096" "first < 4096"
    | (list) "4096 < total_len - first" "first < 4096" by linarith
  then show ?thesis
  proof cases
    case one
    then have "rest = 0" using first by (auto simp: rest_def first_def)
    with one first show ?thesis
      unfolding spec shape by (simp add: page payload_bytes_def mem_bytes_def)
  next
    case two
    then have "rest = min (total_len - first) (4096 - first)" by (simp add: rest_def)
    with two first show ?thesis
      unfolding spec shape by (simp add: page payload_bytes_def)
  next
    case list
    then have "rest = 4096 - first" using first by (simp add: rest_def min_def)
    with list first list_transfer_pages [OF assms(1) list(1) first(1) list(2)] show ?thesis
      unfolding spec shape by (simp add: page payload_bytes_def)
  qed
qed

theorem prp_payload_is_transfer_witness:
  "payload_bytes (decode_prp_pages
      (\<lambda>a n. Inr (mem_bytes (\<lambda>a. if a < 8192 then CHR ''x'' else CHR ''y'') a n)) 8190 20480 3) = ''xxy''"
proof -
  let ?mem = "\<lambda>a. if a < 8192 then CHR ''x'' else CHR ''y''"
  have "payload_bytes (decode_prp_pages (\<lambda>a n. Inr (mem_bytes ?mem a n)) 8190 20480 3) =
      map (\<lambda>k. ?mem (prp_addr ?mem 8190 20480 3 k)) [0..min 3 4096 - 1]"
    by (rule prp_payload_is_transfer) (simp_all add: reads_memory_def)
  also have "[0..min 3 4096 - 1] = [0, 1, 2::int]" by code_simp
  finally show ?thesis by (simp add: prp_addr_def Let_def)
qed

section \<open>The size of a dump\<close>

definition bounded_reader :: "phys_reader \<Rightarrow> bool" where
  "bounded_reader rd \<longleftrightarrow> (\<forall>a n bs. rd a n = Inr bs \<longrightarrow> int (length bs) \<le> max 0 n)"

lemma read_page_bounded:
  assumes "bounded_reader rd" "0 \<le> n"
  shows "int (length (pp_data (read_page rd a off n l))) \<le> n"
proof (cases "rd a (min n PAGE_SIZE)")
  case (Inr bs)
  with assms(1) have "int (length bs) \<le> max 0 (min n PAGE_SIZE)"
    unfolding bounded_reader_def by blast
  with Inr assms(2) show ?thesis by (simp add: read_page_def Let_def page_consts)
qed (use assms in \<open>simp add: read_page_def Let_def page_consts\<close>)

lemma payload_bytes_Cons:
  "payload_bytes (p # ps) = (if pp_is_list_page p then [] else pp_data p) @ payload_bytes ps"
  by (simp add: payload_bytes_def)

lemma payload_bytes_Nil [simp]: "payload_bytes [] = []"
  by (simp add: payload_bytes_def)

lemma read_page_list [simp]: "pp_is_list_page (read_page rd a off n l) = l"
  by (simp add: read_page_def Let_def)

lemma entry_pages_bounded:
  assumes "bounded_reader rd"
  shows "int (length (payload_bytes (entry_pages rd remaining i shown es))) \<le> max 0 (4096 - shown)"
proof (induction es arbitrary: i shown)
  case (Cons e es)
  let ?n = "min 4096 (min (remaining - i * 4096) (4096 - shown))"
  show ?case
  proof (cases "shown \<ge> 4096 \<or> ?n \<le> 0")
    case True
    then show ?thesis by (auto simp: page_consts Let_def)
  next
    case False
    define n where "n = ?n"
    have n: "0 < n" "n \<le> 4096 - shown" using False by (auto simp: n_def)
    have eq: "entry_pages rd remaining i shown (e # es) =
        read_page rd e 0 n False # entry_pages rd remaining (i + 1) (shown + n) es"
      using False by (simp add: page_consts Let_def n_def)
    from read_page_bounded [OF assms, of n e 0 False] Cons [of "i + 1" "shown + n"] n
    show ?thesis unfolding eq by (simp add: payload_bytes_Cons)
  qed
qed simp

text \<open>
  The dump is bounded.  Whatever the addresses and the length in the command are, and however
  reads fail, a decoded payload holds at most 4096 data bytes, as long as a read returns no more than
  it was asked for.
\<close>

theorem prp_dump_bounded:
  assumes "bounded_reader rd" and "0 \<le> prp1"
  shows "length (payload_bytes (decode_prp_pages rd prp1 prp2 total_len)) \<le> 4096"
proof (cases "prp1 = 0 \<or> total_len \<le> 0")
  case True
  then show ?thesis by (auto simp: decode_prp_pages_def)
next
  case False
  define off where "off = prp1 mod 4096"
  define first where "first = min total_len (4096 - off)"
  have first: "0 < first" "first \<le> 4096" using False by (auto simp: first_def off_def)
  have shape: "decode_prp_pages rd prp1 prp2 total_len =
    (if total_len - first \<le> 0 \<or> first \<ge> 4096 then [read_page rd prp1 off first False]
     else if total_len - first \<le> 4096 then
       [read_page rd prp1 off first False,
        read_page rd prp2 0 (min (total_len - first) (4096 - first)) False]
     else read_page rd prp1 off first False # read_page rd prp2 0 4096 True #
       entry_pages rd (total_len - first) 0 first
         (list_entries rd prp2 (min (- ((- (total_len - first)) div 4096)) 8)))"
    using decode_prp_pages_cases [OF _ _ off_def first_def] False assms(2) by simp
  define es where "es = list_entries rd prp2 (min (- ((- (total_len - first)) div 4096)) 8)"
  have "int (length (payload_bytes (entry_pages rd (total_len - first) 0 first es))) \<le> 4096 - first"
    using entry_pages_bounded [OF assms(1), of "total_len - first" 0 first es] first by simp
  moreover have "int (length (pp_data (read_page rd prp1 off first False))) \<le> first"
    using read_page_bounded [OF assms(1)] first by simp
  moreover have "int (length (pp_data (read_page rd prp2 0 (min (total_len - first) (4096 - first)) False)))
      \<le> 4096 - first" if "0 < total_len - first"
    using read_page_bounded [OF assms(1), of "min (total_len - first) (4096 - first)" prp2 0 False]
      first that by simp
  ultimately show ?thesis
    using first unfolding shape es_def [symmetric] by (auto simp: payload_bytes_Cons)
qed

theorem prp_dump_bounded_witness:
  "length (payload_bytes (decode_prp_pages (\<lambda>a n. Inl FaultError) 4100 8192 65536)) \<le> 4096"
  using prp_dump_bounded [of "\<lambda>a n. Inl FaultError" 4100 8192 65536]
  by (simp only: bounded_reader_def) simp

end
