(* ===== verification/ProcInfo.thy ===== *)
theory ProcInfo
  imports QueueDecode PyText
begin

unbundle bit_operations_syntax

text \<open>
  \<open>backend/procinfo.py\<close>: the process inventory read from the kernel's task list, with the manual
  x86-64 page-table walk for user memory.

  What drgn answers is a parameter: physical reads (\<open>phys_reader\<close>), the optional symbol
  \<open>page_offset_base\<close>, and per task the fields of \<open>task_struct\<close> and \<open>mm_struct\<close>, where \<open>None\<close> stands for an
  exception that \<open>_try\<close> turns into its default.
\<close>

section \<open>Page-table walk\<close>

definition PTE_PHYS_MASK :: int where "PTE_PHYS_MASK = 0x000FFFFFFFFFF000"
definition PTE_PRESENT :: int where "PTE_PRESENT = 1"
definition PTE_PSE :: int where "PTE_PSE = 0x80"
definition DEFAULT_PAGE_OFFSET :: int where "DEFAULT_PAGE_OFFSET = 0xFFFF888000000000"

definition page_offset_base :: "int option \<Rightarrow> int" where
  "page_offset_base symbol =
     (case symbol of None \<Rightarrow> DEFAULT_PAGE_OFFSET | Some v \<Rightarrow> if v \<noteq> 0 then v else DEFAULT_PAGE_OFFSET)"

definition table_entry :: "phys_reader \<Rightarrow> int \<Rightarrow> int \<Rightarrow> exn + int" where
  "table_entry rd table_pa index = bindE (rd (table_pa + index * 8) 8) (\<lambda>raw. Inr (le_value raw))"

definition present :: "int \<Rightarrow> bool" where
  "present e \<longleftrightarrow> e AND PTE_PRESENT \<noteq> 0"

text \<open>The physical address behind a mapping of size \<open>2 ^ k\<close>, and the bytes left in it.\<close>

definition in_page :: "nat \<Rightarrow> int \<Rightarrow> int \<Rightarrow> int \<times> int" where
  "in_page k e va =
     (let off = va AND (2 ^ k - 1) in ((e AND PTE_PHYS_MASK) + off, 2 ^ k - off))"

definition walk :: "phys_reader \<Rightarrow> int \<Rightarrow> int \<Rightarrow> exn + (int \<times> int) option" where
  "walk rd pgd_pa va =
     bindE (table_entry rd pgd_pa (drop_bit 39 va AND 0x1FF)) (\<lambda>e1.
       if \<not> present e1 then Inr None else
     bindE (table_entry rd (e1 AND PTE_PHYS_MASK) (drop_bit 30 va AND 0x1FF)) (\<lambda>e2.
       if \<not> present e2 then Inr None else
       if e2 AND PTE_PSE \<noteq> 0 then Inr (Some (in_page 30 e2 va)) else
     bindE (table_entry rd (e2 AND PTE_PHYS_MASK) (drop_bit 21 va AND 0x1FF)) (\<lambda>e3.
       if \<not> present e3 then Inr None else
       if e3 AND PTE_PSE \<noteq> 0 then Inr (Some (in_page 21 e3 va)) else
     bindE (table_entry rd (e3 AND PTE_PHYS_MASK) (drop_bit 12 va AND 0x1FF)) (\<lambda>e4.
       if \<not> present e4 then Inr None else Inr (Some (in_page 12 e4 va))))))"

lemma in_page_room: "in_page k e va = (pa, room) \<Longrightarrow> 0 < room"
  by (auto simp: in_page_def Let_def and_mask_mod_exp)

lemma walk_room: "walk rd pgd_pa va = Inr (Some (pa, room)) \<Longrightarrow> 0 < room"
  by (auto simp: walk_def bindE_Inr split: if_splits dest: in_page_room)

text \<open>The loop of \<open>_read_user_via_pagetable\<close>; every round advances by at least one byte.\<close>

function read_loop :: "phys_reader \<Rightarrow> int \<Rightarrow> int \<Rightarrow> int \<Rightarrow> pybytes \<Rightarrow> exn + pybytes" where
  "read_loop rd pgd_pa va remaining out =
     (if remaining \<le> 0 then Inr out
      else bindE (walk rd pgd_pa va) (\<lambda>t.
        case t of
          None \<Rightarrow> Inr out
        | Some (phys, room) \<Rightarrow>
            bindE (rd phys (min remaining room)) (\<lambda>data.
              read_loop rd pgd_pa (va + min remaining room) (remaining - min remaining room) (out @ data))))"
  by pat_completeness auto
termination
  by (relation "measure (\<lambda>(rd, pgd_pa, va, remaining, out). nat remaining)") (auto dest: walk_room)

declare read_loop.simps [simp del]

definition read_user_via_pagetable ::
  "phys_reader \<Rightarrow> int option \<Rightarrow> int \<Rightarrow> int \<Rightarrow> int \<Rightarrow> exn + pybytes" where
  "read_user_via_pagetable rd symbol pgd_va addr size' =
     (if pgd_va = 0 then Inl (ValueError MsgNoPgd)
      else read_loop rd (pgd_va - page_offset_base symbol) addr size' [])"

section \<open>The walk is a byte-wise translation\<close>

text \<open>Staying within a block of \<open>2 ^ k\<close> bytes keeps the higher part of the address.\<close>

lemma div_same_block:
  fixes va i :: int
  assumes "0 \<le> i" "i < 2 ^ k - va mod 2 ^ k" "k \<le> m"
  shows "(va + i) div 2 ^ m = va div 2 ^ m" "(va + i) mod 2 ^ k = va mod 2 ^ k + i"
proof -
  have low: "0 \<le> va mod 2 ^ k + i" "va mod 2 ^ k + i < 2 ^ k" using assms(1,2) by simp_all
  have va: "va + i = va div 2 ^ k * 2 ^ k + (va mod 2 ^ k + i)"
    using div_mult_mod_eq [of va "2 ^ k"] by linarith
  have k: "(va + i) div 2 ^ k = va div 2 ^ k"
    unfolding va using low by (simp add: div_pos_pos_trivial)
  show "(va + i) mod 2 ^ k = va mod 2 ^ k + i"
    unfolding va using low by (simp add: mod_pos_pos_trivial)
  have "(2::int) ^ m = 2 ^ k * 2 ^ (m - k)" using assms(3) by (simp flip: power_add)
  then show "(va + i) div 2 ^ m = va div 2 ^ m"
    using k by (simp add: zdiv_zmult2_eq)
qed

lemma in_page_mod: "in_page k e va = ((e AND PTE_PHYS_MASK) + va mod 2 ^ k, 2 ^ k - va mod 2 ^ k)"
  by (simp add: in_page_def Let_def and_mask_mod_exp)

lemma in_page_shift:
  assumes "in_page k e va = (pa, room)" "0 \<le> i" "i < room"
  shows "in_page k e (va + i) = (pa + i, room - i)"
    and "k \<le> m \<Longrightarrow> drop_bit m (va + i) = drop_bit m va"
  using assms div_same_block [of i k va k] div_same_block(1) [of i k va m]
  by (auto simp: in_page_mod drop_bit_eq_div)

lemma walk_shift:
  assumes w: "walk rd pgd_pa va = Inr (Some (pa, room))" and i: "0 \<le> i" "i < room"
  shows "walk rd pgd_pa (va + i) = Inr (Some (pa + i, room - i))"
proof -
  from w obtain k e where k: "in_page k e va = (pa, room)" "k \<in> {12, 21, 30}"
    and low: "\<And>va'. (\<And>m. k \<le> m \<Longrightarrow> drop_bit m va' = drop_bit m va) \<Longrightarrow>
      walk rd pgd_pa va' = Inr (Some (in_page k e va'))"
    by (auto simp: walk_def bindE_Inr split: if_splits)
  from low [of "va + i"] in_page_shift [OF k(1) i] show ?thesis by simp
qed

lemma walk_total:
  assumes "reads_memory rd mem"
  shows "\<exists>t. walk rd pgd_pa va = Inr t"
proof -
  have "table_entry rd t j = Inr (le_value (mem_bytes mem (t + j * 8) 8))" for t j
    using assms by (simp add: table_entry_def reads_memory_def)
  then show ?thesis by (simp add: walk_def)
qed

text \<open>The bytes \<open>bs\<close> are those that the translation finds from \<open>va\<close> on.\<close>

definition translated :: "phys_reader \<Rightarrow> (int \<Rightarrow> char) \<Rightarrow> int \<Rightarrow> int \<Rightarrow> pybytes \<Rightarrow> bool" where
  "translated rd mem pgd_pa va bs \<longleftrightarrow>
     (\<forall>i < length bs. \<exists>pa room. walk rd pgd_pa (va + int i) = Inr (Some (pa, room)) \<and> bs ! i = mem pa)"

lemma translated_append:
  assumes "translated rd mem pgd va xs" "translated rd mem pgd (va + int (length xs)) ys"
  shows "translated rd mem pgd va (xs @ ys)"
  unfolding translated_def
proof (intro allI impI)
  fix i assume i: "i < length (xs @ ys)"
  show "\<exists>pa room. walk rd pgd (va + int i) = Inr (Some (pa, room)) \<and> (xs @ ys) ! i = mem pa"
  proof (cases "i < length xs")
    case True
    with assms(1) show ?thesis by (auto simp: translated_def nth_append)
  next
    case False
    let ?j = "i - length xs"
    have "?j < length ys" "va + int (length xs) + int ?j = va + int i" using i False by simp_all
    with assms(2) have "\<exists>pa room. walk rd pgd (va + int i) = Inr (Some (pa, room)) \<and> ys ! ?j = mem pa"
      unfolding translated_def by metis
    with False show ?thesis by (simp add: nth_append)
  qed
qed

lemma translated_chunk:
  assumes "walk rd pgd va = Inr (Some (pa, room))" "n \<le> room"
  shows "translated rd mem pgd va (mem_bytes mem pa n)"
  using walk_shift [OF assms(1)] assms(2) by (auto simp: translated_def mem_bytes_def)

lemma read_loop_translates:
  assumes "reads_memory rd mem"
  shows "\<exists>bs. read_loop rd pgd va n out = Inr (out @ bs) \<and> int (length bs) \<le> max 0 n \<and>
    translated rd mem pgd va bs \<and>
    (int (length bs) < n \<longrightarrow> walk rd pgd (va + int (length bs)) = Inr None)"
proof (induction "nat n" arbitrary: va n out rule: less_induct)
  case less
  obtain t where t: "walk rd pgd va = Inr t" using walk_total [OF assms] by blast
  consider "n \<le> 0" | "0 < n" "t = None" | pa room where "0 < n" "t = Some (pa, room)"
    by (metis not_le option.exhaust surj_pair)
  then show ?case
  proof cases
    case 1
    then show ?thesis by (subst read_loop.simps) (simp add: translated_def)
  next
    case 2
    then show ?thesis using t by (subst read_loop.simps) (simp add: translated_def)
  next
    case 3
    let ?c = "min n room"
    from t 3 walk_room have c: "0 < ?c" by auto
    then have "rd pa ?c = Inr (mem_bytes mem pa ?c)" using assms by (simp add: reads_memory_def)
    with t 3 have step: "read_loop rd pgd va n out = read_loop rd pgd (va + ?c) (n - ?c) (out @ mem_bytes mem pa ?c)"
      by (subst read_loop.simps) simp
    have "nat (n - ?c) < nat n" using c 3 by simp
    from less [OF this, of "va + ?c" "out @ mem_bytes mem pa ?c"] obtain bs where
      bs: "read_loop rd pgd va n out = Inr (out @ mem_bytes mem pa ?c @ bs)" "int (length bs) \<le> max 0 (n - ?c)"
      "translated rd mem pgd (va + ?c) bs" "int (length bs) < n - ?c \<longrightarrow> walk rd pgd (va + ?c + int (length bs)) = Inr None"
      unfolding step by auto
    have len: "int (length (mem_bytes mem pa ?c)) = ?c" using c by simp
    have "translated rd mem pgd va (mem_bytes mem pa ?c @ bs)"
      using translated_append [OF translated_chunk [of rd pgd va pa room ?c mem]] t 3 bs(3) len by simp
    with bs c len show ?thesis by (intro exI [of _ "mem_bytes mem pa ?c @ bs"]) (auto simp: algebra_simps)
  qed
qed
section \<open>Tasks and processes\<close>

record mm_view =
  mm_arg_start :: "int option"
  mm_arg_end :: "int option"
  mm_pgd :: "exn + int"
  mm_exe :: "pystr option"      \<comment> \<open>\<open>d_path\<close> of \<open>exe_file\<close>\<close>

record task_view =
  tk_tgid :: "int option"
  tk_pid :: "int option"
  tk_comm :: "pystr option"
  tk_mm :: "mm_view option"
  tk_vm :: "int \<Rightarrow> int \<Rightarrow> pystr + pybytes option"   \<comment> \<open>\<open>access_process_vm\<close>, or the exception's class\<close>
  tk_uid :: "int option"
  tk_start_boottime :: "int option"

text \<open>The kernel seen through drgn during one listing.\<close>

record tasks_view =
  kv_read :: phys_reader
  kv_page_offset_base :: "int option"
  kv_tasks :: "task_view list"
  kv_exn_text :: "exn \<Rightarrow> pystr"

definition CMDLINE_MAX :: int where "CMDLINE_MAX = 4096"

definition or_default :: "'a option \<Rightarrow> 'a \<Rightarrow> 'a" where
  "or_default x d = (case x of None \<Rightarrow> d | Some v \<Rightarrow> v)"

definition comm_of :: "task_view \<Rightarrow> pystr" where
  "comm_of task = or_default (tk_comm task) []"

fun join_args :: "pystr list \<Rightarrow> pystr" where
  "join_args [] = []"
| "join_args [a] = a"
| "join_args (a # as) = a @ '' '' @ join_args as"

definition argv_text :: "pybytes \<Rightarrow> pystr" where
  "argv_text raw = join_args (filter (\<lambda>x. x \<noteq> []) (split_on (char_of (0 :: nat)) (utf8_replace raw)))"

definition cmdline_of :: "tasks_view \<Rightarrow> task_view \<Rightarrow> pystr \<times> message option" where
  "cmdline_of kv task =
     (case tk_mm task of
        None \<Rightarrow> ([], None)
      | Some mm \<Rightarrow>
          (let start = or_default (mm_arg_start mm) 0;
               end' = or_default (mm_arg_end mm) 0
           in if start = 0 \<or> end' \<le> start then ([], Some MsgArgRangeEmpty)
              else
                (let n = min (end' - start) CMDLINE_MAX
                 in case tk_vm task start n of
                      Inr None \<Rightarrow> ([], Some MsgUserEmpty)
                    | Inr (Some raw) \<Rightarrow> (argv_text raw, None)
                    | Inl helper_err \<Rightarrow>
                        (case bindE (mm_pgd mm) (\<lambda>pgd.
                           read_user_via_pagetable (kv_read kv) (kv_page_offset_base kv) pgd start n) of
                           Inl e \<Rightarrow> ([], Some (MsgUserReadFailed helper_err (kv_exn_text kv e)))
                         | Inr raw \<Rightarrow>
                             if raw = [] then ([], Some MsgUserUnmapped) else (argv_text raw, None)))))"

definition exe_path_of :: "task_view \<Rightarrow> pystr" where
  "exe_path_of task = (case tk_mm task of None \<Rightarrow> [] | Some mm \<Rightarrow> or_default (mm_exe mm) [])"

type_synonym task_group = "task_view option \<times> (int \<times> pystr) list"

definition add_task :: "task_view \<Rightarrow> (int, task_group) dict \<Rightarrow> (int, task_group) dict" where
  "add_task task groups =
     (case (tk_tgid task, tk_pid task) of
        (Some tgid, Some tid) \<Rightarrow>
          (let (leader, threads) = dict_get groups tgid (None, [])
           in AList.update tgid
                (if tid = tgid then Some task else leader, threads @ [(tid, comm_of task)]) groups)
      | _ \<Rightarrow> groups)"

definition process_info :: "tasks_view \<Rightarrow> bool \<Rightarrow> int \<times> task_group \<Rightarrow> ProcessInfo" where
  "process_info kv with_cmdline = (\<lambda>(tgid, leader', ts).
     (let threads = sort ts
      in case leader' of
           None \<Rightarrow>
             \<lparr>pi_pid = tgid, pi_comm = (if threads \<noteq> [] then snd (hd threads) else []), pi_cmdline = [],
              pi_exe_path = [], pi_uid = - 1, pi_start_time_ns = 0, pi_thread_count = int (length threads),
              pi_threads = threads, pi_state = [], pi_error = Some MsgNoLeader\<rparr>
         | Some leader \<Rightarrow>
             (let (cmdline, cmd_err) = (if with_cmdline then cmdline_of kv leader else ([], None));
                  exe_path = exe_path_of leader
              in \<lparr>pi_pid = tgid, pi_comm = comm_of leader, pi_cmdline = cmdline, pi_exe_path = exe_path,
                  pi_uid = or_default (tk_uid leader) (- 1),
                  pi_start_time_ns = or_default (tk_start_boottime leader) 0,
                  pi_thread_count = int (length threads), pi_threads = threads, pi_state = [],
                  pi_error = (if cmdline = [] \<and> exe_path = [] then Some MsgKernelThread else cmd_err)\<rparr>)))"

definition task_groups :: "task_view list \<Rightarrow> (int, task_group) dict" where
  "task_groups tasks = fold add_task tasks []"

definition kernel_list_processes :: "tasks_view \<Rightarrow> bool \<Rightarrow> ProcessInfo list" where
  "kernel_list_processes kv with_cmdline =
     sort_key pi_pid (map (process_info kv with_cmdline) (task_groups (kv_tasks kv)))"

definition find_process :: "tasks_view \<Rightarrow> int \<Rightarrow> ProcessInfo option" where
  "find_process kv pid = find (\<lambda>p. pi_pid p = pid) (kernel_list_processes kv True)"

section \<open>The inventory is complete\<close>

text \<open>The threads of a process among the tasks whose ids can be read, in task order.\<close>

definition threads_of :: "task_view list \<Rightarrow> int \<Rightarrow> (int \<times> pystr) list" where
  "threads_of tasks tgid =
     map (\<lambda>t. (the (tk_pid t), comm_of t)) (filter (\<lambda>t. tk_tgid t = Some tgid \<and> tk_pid t \<noteq> None) tasks)"

lemma task_groups_snoc: "task_groups (tasks @ [t]) = add_task t (task_groups tasks)"
  by (simp add: task_groups_def)

lemma dict_ok_add_task: "dict_ok groups \<Longrightarrow> dict_ok (add_task task groups)"
  by (simp add: add_task_def dict_ok_update Let_def case_prod_unfold split: option.split)

lemma task_groups_lookup:
  "map_option snd (map_of (task_groups tasks) tgid) =
     (if threads_of tasks tgid = [] then None else Some (threads_of tasks tgid))"
proof (induction tasks rule: rev_induct)
  case Nil
  show ?case by (simp add: task_groups_def threads_of_def)
next
  case (snoc t tasks)
  show ?case
  proof (cases "tk_tgid t = Some tgid \<and> tk_pid t \<noteq> None")
    case True
    then obtain tid where "tk_tgid t = Some tgid" "tk_pid t = Some tid" by auto
    moreover have "snd (dict_get (task_groups tasks) tgid (None, [])) = threads_of tasks tgid"
      using snoc by (auto simp: dict_get_def split: option.split if_splits)
    ultimately show ?thesis
      by (simp add: task_groups_snoc add_task_def Let_def case_prod_unfold map_of_update threads_of_def)
  next
    case False
    then have "threads_of (tasks @ [t]) tgid = threads_of tasks tgid" by (simp add: threads_of_def)
    moreover have "map_of (add_task t (task_groups tasks)) tgid = map_of (task_groups tasks) tgid"
      using False by (auto simp: add_task_def Let_def case_prod_unfold map_of_update split: option.split)
    ultimately show ?thesis using snoc by (simp add: task_groups_snoc)
  qed
qed

lemma dict_ok_task_groups: "dict_ok (task_groups tasks)"
proof (induction tasks rule: rev_induct)
  case Nil
  show ?case by (simp add: task_groups_def dict_ok_def)
next
  case (snoc t tasks)
  then show ?case by (simp add: task_groups_snoc dict_ok_add_task)
qed

lemma process_info_threads [simp]:
  "pi_pid (process_info kv wc g) = fst g" "pi_threads (process_info kv wc g) = sort (snd (snd g))"
  "pi_thread_count (process_info kv wc g) = int (length (snd (snd g)))"
  by (simp_all add: process_info_def case_prod_unfold Let_def split: option.split)

lemma task_groups_keys: "fst ` set (task_groups tasks) = {tgid. threads_of tasks tgid \<noteq> []}"
proof -
  have "tgid \<in> fst ` set (task_groups tasks) \<longleftrightarrow> threads_of tasks tgid \<noteq> []" for tgid
    using task_groups_lookup [of tasks tgid] map_of_eq_None_iff [of "task_groups tasks" tgid]
    by (cases "map_of (task_groups tasks) tgid") (auto split: if_splits)
  then show ?thesis by blast
qed

text \<open>
  The process inventory.  The list has exactly one entry per thread group of the tasks whose ids
  can be read, in the order of pids, and an entry lists exactly the threads of its group, sorted, with
  their number; a group whose leader was not seen is kept.
\<close>

theorem kernel_inventory:
  "map pi_pid (kernel_list_processes kv with_cmdline) =
     sorted_list_of_set {tgid. threads_of (kv_tasks kv) tgid \<noteq> []} \<and>
   (\<forall>p \<in> set (kernel_list_processes kv with_cmdline).
      pi_threads p = sort (threads_of (kv_tasks kv) (pi_pid p)) \<and>
      pi_thread_count p = int (length (threads_of (kv_tasks kv) (pi_pid p))))"
proof
  let ?g = "task_groups (kv_tasks kv)"
  have "map pi_pid (kernel_list_processes kv with_cmdline) = sort (map fst ?g)"
    unfolding kernel_list_processes_def
    by (intro properties_for_sort [symmetric])
      (simp_all only: mset_map mset_sort, simp_all add: image_mset.compositionality comp_def)
  also have "\<dots> = sorted_list_of_set (fst ` set ?g)"
    using dict_ok_task_groups [of "kv_tasks kv"] sorted_list_of_set_sort_remdups [of "map fst ?g"]
    by (simp add: dict_ok_def distinct_remdups_id)
  finally show "map pi_pid (kernel_list_processes kv with_cmdline) =
      sorted_list_of_set {tgid. threads_of (kv_tasks kv) tgid \<noteq> []}"
    by (simp add: task_groups_keys)
  have "snd (snd g) = threads_of (kv_tasks kv) (fst g)" if "g \<in> set ?g" for g
  proof -
    from that dict_ok_task_groups [of "kv_tasks kv"] have "map_of ?g (fst g) = Some (snd g)"
      by (simp add: dict_ok_def)
    then show ?thesis using task_groups_lookup [of "kv_tasks kv" "fst g"] by (auto split: if_splits)
  qed
  then show "\<forall>p \<in> set (kernel_list_processes kv with_cmdline).
      pi_threads p = sort (threads_of (kv_tasks kv) (pi_pid p)) \<and>
      pi_thread_count p = int (length (threads_of (kv_tasks kv) (pi_pid p)))"
    by (auto simp: kernel_list_processes_def)
qed

definition sample_task :: "int \<Rightarrow> int \<Rightarrow> pystr \<Rightarrow> task_view" where
  "sample_task tgid tid comm = \<lparr>tk_tgid = Some tgid, tk_pid = Some tid, tk_comm = Some comm, tk_mm = None,
     tk_vm = (\<lambda>_ _. Inr None), tk_uid = None, tk_start_boottime = Some 5\<rparr>"

definition sample_tasks :: tasks_view where
  "sample_tasks = \<lparr>kv_read = (\<lambda>_ _. Inl FaultError), kv_page_offset_base = None,
     kv_tasks = [sample_task 7 8 ''b'', sample_task 7 7 ''a'', sample_task 3 3 ''k''],
     kv_exn_text = (\<lambda>_. [])\<rparr>"

theorem kernel_inventory_witness:
  "\<exists>p \<in> set (kernel_list_processes sample_tasks True). pi_threads p = [(7, ''a''), (8, ''b'')]"
proof -
  have "map pi_pid (kernel_list_processes sample_tasks True) = [3, 7]" by code_simp
  then obtain p where p: "p \<in> set (kernel_list_processes sample_tasks True)" "pi_pid p = 7"
    by (metis image_iff insert_iff list.set(2) list.set_map)
  then have "pi_threads p = sort (threads_of (kv_tasks sample_tasks) 7)"
    using kernel_inventory [of sample_tasks True] by auto
  moreover have "sort (threads_of (kv_tasks sample_tasks) 7) = [(7, ''a''), (8, ''b'')]" by code_simp
  ultimately show ?thesis using p(1) by metis
qed


definition sample_memory :: "int \<Rightarrow> char" where
  "sample_memory a = (if a = 4096 then char_of (1 :: nat) else if a = 4097 then char_of (32 :: nat)
     else if a = 8192 then char_of (129 :: nat) else if 12288 \<le> a then CHR ''x'' else char_of (0 :: nat))"


text \<open>The same memory maps the three bytes through a 1 GiB page.\<close>

lemma sample_memory_read:
  "read_user_via_pagetable (\<lambda>a n. Inr (mem_bytes sample_memory a n)) (Some 1) 4097 12288 3 = Inr ''xxx''"
  by code_simp

end
