(* ===== verification/EventReader.thy ===== *)
theory EventReader
  imports EbpfLog
begin

text \<open>
  The part that \<open>TimeoutEventReader\<close> and \<open>ErrorEventReader\<close> share line by line: a cursor over the
  collector log, the line parser of the kind, and a buffer of the most recent events.  Each reader
  instantiates it with its own \<open>_parse_line\<close> (theories \<open>TimeoutEvents\<close> and \<open>ErrorEvents\<close>).
  Parsing a line reads the wall clock once, so a call gets the clock readings as a function of the
  line's position in the batch.

  The contract towards the event service is the locale \<open>event_source\<close>.
\<close>

record EventReader =
  er_cursor :: FileCursor
  er_max_events :: nat
  er_events :: "NvmeEvent list"

type_synonym line_parser = "pyfloat \<Rightarrow> pystr \<Rightarrow> NvmeEvent option"

definition new_reader :: "FileEbpfLogSource \<Rightarrow> nat \<Rightarrow> EventReader" where
  "new_reader src max_events =
     \<lparr>er_cursor = open_cursor src, er_max_events = max_events, er_events = []\<rparr>"

definition parse_lines :: "line_parser \<Rightarrow> (nat \<Rightarrow> pyfloat) \<Rightarrow> pystr list \<Rightarrow> NvmeEvent list" where
  "parse_lines parse clock ls =
     List.map_filter (\<lambda>(i, l). parse (clock i) l) (enumerate 0 ls)"

definition reader_poll ::
  "line_parser \<Rightarrow> file_view \<Rightarrow> (nat \<Rightarrow> pyfloat) \<Rightarrow> EventReader \<Rightarrow> EventReader" where
  "reader_poll parse v clock r =
     (let (c, ls) = read_new_lines v (er_cursor r);
          evs = er_events r @ parse_lines parse clock ls
      in r\<lparr>er_cursor := c,
           er_events := (if length evs > er_max_events r then last_n (er_max_events r) evs
                         else evs)\<rparr>)"

definition reader_events_for_device ::
  "line_parser \<Rightarrow> file_view \<Rightarrow> (nat \<Rightarrow> pyfloat) \<Rightarrow> pystr \<Rightarrow> EventReader \<Rightarrow>
   EventReader \<times> NvmeEvent list" where
  "reader_events_for_device parse v clock device r =
     (let r' = reader_poll parse v clock r
      in (r', filter (\<lambda>e. ev_device e = device) (er_events r')))"

section \<open>The contract of an event source\<close>

text \<open>
  What the event service relies on: a bounded buffer whose events all have the source's kind.
\<close>

locale event_source =
  fixes poll :: "file_view \<Rightarrow> (nat \<Rightarrow> pyfloat) \<Rightarrow> 'r \<Rightarrow> 'r"
    and held :: "'r \<Rightarrow> NvmeEvent list"
    and cap :: "'r \<Rightarrow> nat"
    and good :: "NvmeEvent \<Rightarrow> bool"
  assumes poll_cap: "cap (poll v clock r) = cap r"
    and poll_bound: "0 < cap r \<Longrightarrow> length (held (poll v clock r)) \<le> cap r"
    and poll_good: "\<lbrakk>\<forall>e \<in> set (held r). good e; e \<in> set (held (poll v clock r))\<rbrakk> \<Longrightarrow> good e"
begin

definition device_events :: "file_view \<Rightarrow> (nat \<Rightarrow> pyfloat) \<Rightarrow> pystr \<Rightarrow> 'r \<Rightarrow> NvmeEvent list" where
  "device_events v clock device r = filter (\<lambda>e. ev_device e = device) (held (poll v clock r))"

lemma device_events_bound: "0 < cap r \<Longrightarrow> length (device_events v clock device r) \<le> cap r"
  using poll_bound [of r v clock] length_filter_le [of _ "held (poll v clock r)"]
  unfolding device_events_def by (meson le_trans)

lemma device_events_good:
  "\<lbrakk>\<forall>e \<in> set (held r). good e; e \<in> set (device_events v clock device r)\<rbrakk> \<Longrightarrow>
   good e \<and> ev_device e = device"
  by (auto simp: device_events_def intro: poll_good)

end

section \<open>The shared reader\<close>

lemma map_filter_append [simp]:
  "List.map_filter f (xs @ ys) = List.map_filter f xs @ List.map_filter f ys"
  by (simp add: List.map_filter_def)

lemma set_map_filter: "y \<in> set (List.map_filter f xs) \<longleftrightarrow> (\<exists>x \<in> set xs. f x = Some y)"
  by (induction xs) (auto simp: List.map_filter_simps split: option.splits)

lemma reader_poll_trim:
  assumes "0 < er_max_events r"
  shows "er_events (reader_poll parse v clock r) =
    last_n (er_max_events r)
      (er_events r @ parse_lines parse clock (snd (read_new_lines v (er_cursor r))))"
  by (simp add: reader_poll_def Let_def last_n_short split: prod.split)

lemma reader_poll_cursor:
  "er_cursor (reader_poll parse v clock r) = fst (read_new_lines v (er_cursor r))"
  by (simp add: reader_poll_def Let_def split: prod.split)

lemma reader_poll_max [simp]:
  "er_max_events (reader_poll parse v clock r) = er_max_events r"
  by (simp add: reader_poll_def Let_def split: prod.split)

lemma reader_poll_bound:
  "0 < er_max_events r \<Longrightarrow> length (er_events (reader_poll parse v clock r)) \<le> er_max_events r"
  by (simp add: reader_poll_trim)

lemma parse_lines_elem:
  "e \<in> set (parse_lines parse clock ls) \<Longrightarrow> \<exists>i l. parse (clock i) l = Some e"
  by (auto simp: parse_lines_def set_map_filter)

lemma reader_poll_elem:
  "e \<in> set (er_events (reader_poll parse v clock r)) \<Longrightarrow>
   e \<in> set (er_events r) \<or> (\<exists>i l. parse (clock i) l = Some e)"
proof -
  assume e: "e \<in> set (er_events (reader_poll parse v clock r))"
  let ?new = "parse_lines parse clock (snd (read_new_lines v (er_cursor r)))"
  have "set (er_events (reader_poll parse v clock r)) \<subseteq> set (er_events r @ ?new)"
    using set_last_n [of "er_max_events r" "er_events r @ ?new"]
    by (auto simp: reader_poll_def Let_def split: prod.splits if_splits)
  with e show ?thesis by (auto dest: parse_lines_elem)
qed

section \<open>What the buffer holds\<close>

text \<open>
  A parser only stamps the clock reading on the event: it does not use it otherwise.
\<close>

definition stamps :: "line_parser \<Rightarrow> bool" where
  "stamps parse \<longleftrightarrow> (\<forall>t l. parse t l = map_option (ev_observed_at_update (\<lambda>_. t)) (parse 0 l))"

definition unstamped :: "NvmeEvent \<Rightarrow> NvmeEvent" where
  "unstamped e = e\<lparr>ev_observed_at := 0\<rparr>"

lemma unstamped_parse: "stamps parse \<Longrightarrow> map_option unstamped (parse t l) = map_option unstamped (parse 0 l)"
proof -
  assume "stamps parse"
  then have "parse t l = map_option (ev_observed_at_update (\<lambda>_. t)) (parse 0 l)"
    unfolding stamps_def by blast
  then show ?thesis
    by (cases "parse 0 l") (simp_all add: unstamped_def)
qed

lemma map_unstamped_parse_lines_from:
  assumes "stamps parse"
  shows "map unstamped (List.map_filter (\<lambda>(i, l). parse (clock i) l) (enumerate n ls)) =
    List.map_filter (\<lambda>l. map_option unstamped (parse 0 l)) ls"
proof (induction ls arbitrary: n)
  case Nil
  then show ?case by simp
next
  case (Cons l ls)
  from unstamped_parse [OF assms, of "clock n" l] Cons [of "Suc n"] show ?case
    by (cases "parse (clock n) l"; cases "parse 0 l") simp_all
qed

lemma map_unstamped_parse_lines:
  "stamps parse \<Longrightarrow>
   map unstamped (parse_lines parse clock ls) =
     List.map_filter (\<lambda>l. map_option unstamped (parse 0 l)) ls"
  unfolding parse_lines_def by (rule map_unstamped_parse_lines_from)

text \<open>Successive polls, each with its file view and its clock.\<close>

fun poll_reader ::
  "line_parser \<Rightarrow> (file_view \<times> (nat \<Rightarrow> pyfloat)) list \<Rightarrow> EventReader \<Rightarrow> EventReader" where
  "poll_reader parse [] r = r"
| "poll_reader parse ((v, clock) # ps) r = poll_reader parse ps (reader_poll parse v clock r)"

lemma map_last_n: "map f (last_n n xs) = last_n n (map f xs)"
  by (simp add: last_n_def drop_map)

lemma poll_reader_window:
  assumes "0 < er_max_events r" and "stamps parse"
  shows "map unstamped (er_events (poll_reader parse ps r)) =
    last_n (er_max_events r)
      (map unstamped (er_events r) @
       List.map_filter (\<lambda>l. map_option unstamped (parse 0 l))
         (concat (snd (poll_cursor (map fst ps) (er_cursor r)))))
    \<or> ps = []"
  using assms(1)
proof (induction ps arbitrary: r)
  case Nil
  then show ?case by simp
next
  case (Cons p ps)
  obtain v clock where p: "p = (v, clock)" by (cases p)
  obtain c ls where rd: "read_new_lines v (er_cursor r) = (c, ls)" by fastforce
  let ?r = "reader_poll parse v clock r"
  let ?old = "map unstamped (er_events r)"
  let ?f = "\<lambda>l. map_option unstamped (parse 0 l)"
  have ev: "map unstamped (er_events ?r) = last_n (er_max_events r) (?old @ List.map_filter ?f ls)"
    using Cons.prems rd
    by (simp add: reader_poll_trim map_last_n map_unstamped_parse_lines [OF assms(2)])
  have cur: "er_cursor ?r = c"
    by (simp add: reader_poll_cursor rd)
  show ?case
  proof (cases ps)
    case Nil
    with ev p rd show ?thesis by simp
  next
    case (Cons q qs)
    with Cons.IH [of ?r] Cons.prems ev cur
    have "map unstamped (er_events (poll_reader parse ps ?r)) =
      last_n (er_max_events r)
        (last_n (er_max_events r) (?old @ List.map_filter ?f ls) @
         List.map_filter ?f (concat (snd (poll_cursor (map fst ps) c))))"
      by simp
    with Cons.prems p rd show ?thesis
      by (simp add: last_n_append_trim split: prod.split)
  qed
qed

end
