(* ===== verification/TimeoutEvents.thy ===== *)
theory TimeoutEvents
  imports EventReader
begin

text \<open>
  \<open>backend/ebpf_timeout_events.py\<close>: the \<open>TIMEOUT_EVENT\<close> line of the collector and the reader of
  kind \<open>timeout\<close>.  The collector's side (the \<open>printf\<close> of \<open>kprobe:nvme_timeout\<close> in
  \<open>ebpf/nvme_perf.bt\<close>) is modelled too, so that printing and parsing can be related.
\<close>

definition KIND_timeout :: pystr where
  "KIND_timeout = ''timeout''"

definition TIMEOUT_EVENT_RE :: "tok list" where
  "TIMEOUT_EVENT_RE =
     [Lit ''TIMEOUT_EVENT ts_ns='', Dec, Lit '' ctrl='', SDec, Lit '' qid='', SDec,
      Lit '' tag='', SDec, Lit '' opcode='', SDec, Lit '' nsid='', SDec, Lit '' flags='', SDec,
      Lit '' cdw10='', Dec, Lit '' cdw11='', Dec, Lit '' cdw12='', Dec, Lit '' cdw13='', Dec,
      Lit '' cdw14='', Dec, Lit '' cdw15='', Dec, Lit '' elapsed_ns='', Dec, Ws0]"

definition elapsed_text_of :: "pyfloat \<Rightarrow> elapsed_text" where
  "elapsed_text_of elapsed_us =
     (if elapsed_us \<ge> 1000000 then Seconds (elapsed_us / 1000000)
      else Millis (elapsed_us / 1000))"

definition timeout_summary :: "TimeoutEventDetail \<Rightarrow> int \<Rightarrow> message" where
  "timeout_summary d qid =
     MsgTimeoutSummary (td_opcode_name d) (td_opcode d) (elapsed_text_of (td_elapsed_us d))
       qid (td_tag d) (td_nsid d)"

definition device_name :: "int \<Rightarrow> pystr" where
  "device_name ctrl = ''nvme'' @ int_dec ctrl"

text \<open>From the fourteen groups \<open>ts_ns, ctrl, qid, tag, opcode, nsid, flags, cdw10..15, elapsed_ns\<close>.\<close>

definition timeout_detail :: "int list \<Rightarrow> TimeoutEventDetail" where
  "timeout_detail g =
     \<lparr>td_tag = g ! 3, td_opcode = g ! 4, td_opcode_name = opcode_name (g ! 4) (g ! 2 = 0),
      td_nsid = g ! 5, td_flags = g ! 6,
      td_cdw10 = g ! 7, td_cdw11 = g ! 8, td_cdw12 = g ! 9,
      td_cdw13 = g ! 10, td_cdw14 = g ! 11, td_cdw15 = g ! 12,
      td_elapsed_us = of_int (g ! 13) / 1000\<rparr>"

definition timeout_parse_line :: line_parser where
  "timeout_parse_line now line =
     (case re_ints TIMEOUT_EVENT_RE (strip line) of
        None \<Rightarrow> None
      | Some g \<Rightarrow>
          (let qid = g ! 2; detail = timeout_detail g
           in Some \<lparr>ev_kind = KIND_timeout, ev_observed_at = now, ev_device = device_name (g ! 1),
                    ev_qid = qid, ev_summary = timeout_summary detail qid,
                    ev_timeout = Some detail, ev_error = None\<rparr>))"

definition new_timeout_reader :: "FileEbpfLogSource \<Rightarrow> nat \<Rightarrow> EventReader" where
  "new_timeout_reader src max_events = new_reader src max_events"

definition timeout_poll :: "file_view \<Rightarrow> (nat \<Rightarrow> pyfloat) \<Rightarrow> EventReader \<Rightarrow> EventReader" where
  "timeout_poll = reader_poll timeout_parse_line"

definition timeout_events_for_device ::
  "file_view \<Rightarrow> (nat \<Rightarrow> pyfloat) \<Rightarrow> pystr \<Rightarrow> EventReader \<Rightarrow> EventReader \<times> NvmeEvent list" where
  "timeout_events_for_device = reader_events_for_device timeout_parse_line"

section \<open>The collector's line\<close>

text \<open>
  \<open>printf("TIMEOUT_EVENT ts_ns=%lld ctrl=%d ...")\<close>: the same text with the conversions in the
  places of the groups.
\<close>

definition timeout_line :: "int list \<Rightarrow> pystr" where
  "timeout_line vs = print_toks (butlast TIMEOUT_EVENT_RE) vs"

lemma timeout_line_re: "timeout_line vs = print_toks TIMEOUT_EVENT_RE vs"
  unfolding timeout_line_def using print_toks_Ws0 [of "butlast TIMEOUT_EVENT_RE" vs]
  by (simp add: TIMEOUT_EVENT_RE_def)

lemma wf_TIMEOUT_EVENT_RE: "wf_fmt TIMEOUT_EVENT_RE"
  by (simp add: TIMEOUT_EVENT_RE_def is_digit_def)

lemma re_ints_timeout_line:
  assumes "fmt_args TIMEOUT_EVENT_RE vs"
  shows "re_ints TIMEOUT_EVENT_RE (strip (timeout_line vs)) = Some vs"
proof -
  have "strip (print_toks TIMEOUT_EVENT_RE vs) = print_toks TIMEOUT_EVENT_RE vs"
    using assms unfolding TIMEOUT_EVENT_RE_def
    by (intro strip_print_toks) (simp_all add: is_space_def)
  then show ?thesis
    by (simp add: timeout_line_re re_ints_print [OF wf_TIMEOUT_EVENT_RE assms])
qed

text \<open>
  Print and parse agree.  Every line the collector's \<open>printf\<close> produces (the time stamps and the
  six command dwords are unsigned, the other numbers may have any sign) is parsed into one
  \<open>timeout\<close> event that carries exactly the printed numbers, with the opcode named after the queue's
  command set and the elapsed time in microseconds.
\<close>

theorem timeout_line_roundtrip:
  assumes "0 \<le> ts" "0 \<le> c10" "0 \<le> c11" "0 \<le> c12" "0 \<le> c13" "0 \<le> c14" "0 \<le> c15" "0 \<le> el"
  shows "timeout_parse_line now
      (timeout_line [ts, ctrl, qid, tag, opc, nsid, fl, c10, c11, c12, c13, c14, c15, el]) =
    (let d = \<lparr>td_tag = tag, td_opcode = opc, td_opcode_name = opcode_name opc (qid = 0),
              td_nsid = nsid, td_flags = fl, td_cdw10 = c10, td_cdw11 = c11, td_cdw12 = c12,
              td_cdw13 = c13, td_cdw14 = c14, td_cdw15 = c15, td_elapsed_us = of_int el / 1000\<rparr>
     in Some \<lparr>ev_kind = ''timeout'', ev_observed_at = now, ev_device = ''nvme'' @ int_dec ctrl,
              ev_qid = qid, ev_summary = timeout_summary d qid, ev_timeout = Some d,
              ev_error = None\<rparr>)"
proof -
  have "fmt_args TIMEOUT_EVENT_RE
      [ts, ctrl, qid, tag, opc, nsid, fl, c10, c11, c12, c13, c14, c15, el]"
    using assms by (simp add: TIMEOUT_EVENT_RE_def)
  from re_ints_timeout_line [OF this] show ?thesis
    by (simp add: timeout_parse_line_def timeout_detail_def Let_def KIND_timeout_def device_name_def)
qed

theorem timeout_line_roundtrip_witness:
  "map_option ev_device (timeout_parse_line 5
     (timeout_line [10, 1, 2, 3, 2, 1, 0, 8, 0, 7, 0, 0, 0, 30000])) = Some ''nvme1''"
proof -
  have "int_dec 1 = ''1''" by code_simp
  then show ?thesis
    using timeout_line_roundtrip [of 10 8 0 7 0 0 0 30000 5 1 2 3 2 1 0] by (simp add: Let_def)
qed

section \<open>The reader as an event source\<close>

lemma timeout_parse_stamps: "stamps timeout_parse_line"
  by (auto simp: stamps_def timeout_parse_line_def Let_def split: option.split)

definition timeout_shaped :: "NvmeEvent \<Rightarrow> bool" where
  "timeout_shaped e \<longleftrightarrow> ev_kind e = KIND_timeout \<and> ev_timeout e \<noteq> None \<and> ev_error e = None"

lemma timeout_parse_shape: "timeout_parse_line now l = Some e \<Longrightarrow> timeout_shaped e"
  by (auto simp: timeout_parse_line_def timeout_shaped_def Let_def split: option.splits)

interpretation timeout_source: event_source timeout_poll er_events er_max_events timeout_shaped
proof (unfold_locales, goal_cases)
  case (1 v clock r)
  show ?case by (simp add: timeout_poll_def)
next
  case (2 r v clock)
  then show ?case by (simp add: timeout_poll_def reader_poll_bound)
next
  case (3 r e v clock)
  then show ?case
    by (auto simp: timeout_poll_def dest!: reader_poll_elem intro: timeout_parse_shape)
qed

lemma timeout_events_for_device_eq:
  "timeout_events_for_device v clock device r =
     (timeout_poll v clock r, timeout_source.device_events v clock device r)"
  unfolding timeout_source.device_events_def
  by (simp add: timeout_events_for_device_def reader_events_for_device_def timeout_poll_def Let_def)

end
