(* ===== verification/ErrorEvents.thy ===== *)
theory ErrorEvents
  imports TimeoutEvents
begin

unbundle bit_operations_syntax

text \<open>
  \<open>backend/ebpf_error_events.py\<close>: the \<open>ERROR_EVENT\<close> lines (commands completed with an error status)
  and the cumulative \<open>@err_count\<close> map of the collector, with the reader of kind \<open>error\<close> and
  \<open>read_error_stats\<close>.
\<close>

definition KIND_error :: pystr where
  "KIND_error = ''error''"

definition LBA_OPCODES :: "int list" where
  "LBA_OPCODES = [0x01, 0x02]"

definition ERROR_EVENT_RE :: "tok list" where
  "ERROR_EVENT_RE =
     [Lit ''ERROR_EVENT ts_ns='', Dec, Lit '' ctrl='', SDec, Lit '' qid='', SDec,
      Lit '' cid='', SDec, Lit '' tag='', SDec, Lit '' opcode='', SDec, Lit '' nsid='', SDec,
      Lit '' status='', SDec, Lit '' sct='', SDec, Lit '' sc='', SDec, Lit '' dnr='', SDec,
      Lit '' more='', SDec, Lit '' crd='', SDec, Lit '' slba='', Dec, Lit '' nlb='', SDec,
      Lit '' retries='', SDec, Lit '' cached='', SDec, Lit '' elapsed_ns='', Dec, Ws0]"

definition ERR_COUNT_RE :: "tok list" where
  "ERR_COUNT_RE =
     [Lit ''@err_count['', SDec, Lit '','', Ws0, SDec, Lit '','', Ws0, SDec, Lit '']:'', Ws0, Dec,
      Ws0]"

definition ERR_TAIL_BYTES :: nat where
  "ERR_TAIL_BYTES = 512 * 1024"

text \<open>The placeholder name of a command whose submission was not seen (two Hangul syllables).\<close>

definition opcode_unknown :: pystr where
  "opcode_unknown = [CHR 0xEB, CHR 0xAF, CHR 0xB8, CHR 0xEC, CHR 0x83, CHR 0x81]"

definition error_summary :: "ErrorEventDetail \<Rightarrow> int \<Rightarrow> message" where
  "error_summary d qid =
     MsgErrorSummary (ed_opcode_name d) (ed_opcode d) (ed_sct_name d) (ed_sc_name d) (ed_status d)
       (ed_dnr d) (ed_retries d) qid (ed_cid d) (ed_nsid d)
       (if ed_lba_valid d then Some (ed_slba d, ed_nlb d) else None)"

text \<open>
  From the eighteen groups \<open>ts_ns, ctrl, qid, cid, tag, opcode, nsid, status, sct, sc, dnr, more, crd,
  slba, nlb, retries, cached, elapsed_ns\<close>.  The printed \<open>sct\<close> to \<open>crd\<close> are ignored: \<open>status\<close> is
  decoded again.
\<close>

definition error_detail :: "int list \<Rightarrow> ErrorEventDetail" where
  "error_detail g =
     (let qid = g ! 2; opcode = g ! 5 AND 0xFF; nsid = g ! 6 AND 0xFFFFFFFF; status = g ! 7;
          cached = (g ! 16 \<noteq> 0); dec = decode_status status;
          lba_valid = (cached \<and> qid \<noteq> 0 \<and> opcode \<in> set LBA_OPCODES)
      in \<lparr>ed_cid = g ! 3, ed_tag = g ! 4, ed_opcode = opcode,
          ed_opcode_name = (if cached then opcode_name opcode (qid = 0) else opcode_unknown),
          ed_nsid = nsid, ed_status = status, ed_sct = st_sct dec, ed_sc = st_sc dec,
          ed_sct_name = st_sct_name dec, ed_sc_name = st_sc_name dec,
          ed_dnr = st_dnr dec, ed_more = st_more dec, ed_crd = st_crd dec,
          ed_retries = g ! 15, ed_slba = g ! 13, ed_nlb = g ! 14, ed_lba_valid = lba_valid,
          ed_submit_cached = cached, ed_elapsed_us = of_int (g ! 17) / 1000\<rparr>)"

definition error_parse_line :: line_parser where
  "error_parse_line now line =
     (case re_ints ERROR_EVENT_RE (strip line) of
        None \<Rightarrow> None
      | Some g \<Rightarrow>
          (let qid = g ! 2; detail = error_detail g
           in Some \<lparr>ev_kind = KIND_error, ev_observed_at = now, ev_device = device_name (g ! 1),
                    ev_qid = qid, ev_summary = error_summary detail qid,
                    ev_timeout = None, ev_error = Some detail\<rparr>))"

definition new_error_reader :: "FileEbpfLogSource \<Rightarrow> nat \<Rightarrow> EventReader" where
  "new_error_reader src max_events = new_reader src max_events"

definition error_poll :: "file_view \<Rightarrow> (nat \<Rightarrow> pyfloat) \<Rightarrow> EventReader \<Rightarrow> EventReader" where
  "error_poll = reader_poll error_parse_line"

definition error_events_for_device ::
  "file_view \<Rightarrow> (nat \<Rightarrow> pyfloat) \<Rightarrow> pystr \<Rightarrow> EventReader \<Rightarrow> EventReader \<times> NvmeEvent list" where
  "error_events_for_device = reader_events_for_device error_parse_line"

section \<open>Cumulative counters\<close>

text \<open>The entry of one line, if it is an \<open>@err_count\<close> line.\<close>

definition err_count_of_line :: "pystr \<Rightarrow> ((int \<times> int \<times> int) \<times> int) option" where
  "err_count_of_line line =
     map_option (\<lambda>g. ((g ! 0, g ! 1, g ! 2), g ! 3)) (re_ints ERR_COUNT_RE (strip line))"

definition parse_err_counts :: "pystr \<Rightarrow> (int \<times> int \<times> int, int) dict" where
  "parse_err_counts txt =
     fold (\<lambda>(k, n) counts. AList.update k n counts)
       (List.map_filter err_count_of_line (splitlines txt)) []"

definition device_instance :: "pystr \<Rightarrow> int option" where
  "device_instance device =
     map_option (cap_int \<circ> hd) (re_dollar [Lit ''nvme'', Dec] device)"

definition read_error_stats ::
  "FileEbpfLogSource \<Rightarrow> file_view \<Rightarrow> pystr \<Rightarrow> DeviceErrorStats" where
  "read_error_stats src v device =
     (case device_instance device of
        None \<Rightarrow> \<lparr>es_device = device, es_counts = [], es_total = 0, es_available = False,
                 es_error = Some (MsgBadDeviceName device)\<rparr>
      | Some inst \<Rightarrow>
          (if \<not> available src v then
             \<lparr>es_device = device, es_counts = [], es_total = 0, es_available = False,
              es_error = Some MsgNoCollectorLog\<rparr>
           else
             (let counts = parse_err_counts (read_tail src ERR_TAIL_BYTES v);
                  rows = map (\<lambda>((ctrl, sct, sc), n).
                           \<lparr>sc_sct = sct, sc_sc = sc, sc_sct_name = sct_name sct,
                            sc_sc_name = sc_name sct sc, sc_count = n\<rparr>)
                         (filter (\<lambda>((ctrl, sct, sc), n). ctrl = inst) counts);
                  sorted_rows = sort_key (\<lambda>r. (- sc_count r, sc_sct r, sc_sc r)) rows
              in \<lparr>es_device = device, es_counts = sorted_rows,
                  es_total = (\<Sum>r\<leftarrow>sorted_rows. sc_count r), es_available = True,
                  es_error = None\<rparr>)))"

section \<open>The collector's line\<close>

definition error_line :: "int list \<Rightarrow> pystr" where
  "error_line vs = print_toks (butlast ERROR_EVENT_RE) vs"

lemma error_line_re: "error_line vs = print_toks ERROR_EVENT_RE vs"
  unfolding error_line_def using print_toks_Ws0 [of "butlast ERROR_EVENT_RE" vs]
  by (simp add: ERROR_EVENT_RE_def)

lemma wf_ERROR_EVENT_RE: "wf_fmt ERROR_EVENT_RE"
  by (simp add: ERROR_EVENT_RE_def is_digit_def)

lemma re_ints_error_line:
  assumes "fmt_args ERROR_EVENT_RE vs"
  shows "re_ints ERROR_EVENT_RE (strip (error_line vs)) = Some vs"
proof -
  have "strip (print_toks ERROR_EVENT_RE vs) = print_toks ERROR_EVENT_RE vs"
    using assms unfolding ERROR_EVENT_RE_def
    by (intro strip_print_toks) (simp_all add: is_space_def)
  then show ?thesis
    by (simp add: error_line_re re_ints_print [OF wf_ERROR_EVENT_RE assms])
qed



section \<open>The reader as an event source\<close>

lemma error_parse_stamps: "stamps error_parse_line"
  by (auto simp: stamps_def error_parse_line_def Let_def split: option.split)

definition error_shaped :: "NvmeEvent \<Rightarrow> bool" where
  "error_shaped e \<longleftrightarrow> ev_kind e = KIND_error \<and> ev_error e \<noteq> None \<and> ev_timeout e = None"

lemma error_parse_shape: "error_parse_line now l = Some e \<Longrightarrow> error_shaped e"
  by (auto simp: error_parse_line_def error_shaped_def Let_def split: option.splits)

interpretation error_source: event_source error_poll er_events er_max_events error_shaped
proof (unfold_locales, goal_cases)
  case (1 v clock r)
  show ?case by (simp add: error_poll_def)
next
  case (2 r v clock)
  then show ?case by (simp add: error_poll_def reader_poll_bound)
next
  case (3 r e v clock)
  then show ?case
    by (auto simp: error_poll_def dest!: reader_poll_elem intro: error_parse_shape)
qed

lemma error_events_for_device_eq:
  "error_events_for_device v clock device r =
     (error_poll v clock r, error_source.device_events v clock device r)"
  unfolding error_source.device_events_def
  by (simp add: error_events_for_device_def reader_events_for_device_def error_poll_def Let_def)

section \<open>The counter table\<close>

text \<open>Specification: the value a key has in the last \<open>@err_count\<close> line that prints it.\<close>

definition last_count :: "((int \<times> int \<times> int) \<times> int) list \<Rightarrow> int \<times> int \<times> int \<Rightarrow> int option" where
  "last_count kns k = map_of (rev kns) k"

lemma fold_update_map_of:
  "map_of (fold (\<lambda>(k, n) m. AList.update k n m) kns m0) k =
     (case map_of (rev kns) k of Some n \<Rightarrow> Some n | None \<Rightarrow> map_of m0 k)"
proof (induction kns arbitrary: m0)
  case Nil
  then show ?case by simp
next
  case (Cons kn kns)
  obtain k' n where "kn = (k', n)" by (cases kn)
  with Cons show ?case
    by (auto simp: update_conv' map_add_def split: option.split)
qed

lemma fold_update_distinct:
  "distinct (map fst m0) \<Longrightarrow> distinct (map fst (fold (\<lambda>(k, n) m. AList.update k n m) kns m0))"
  by (induction kns arbitrary: m0) (auto intro: distinct_update split: prod.split)

lemma parse_err_counts_lookup:
  "((k, n) \<in> set (parse_err_counts txt)) =
     (last_count (List.map_filter err_count_of_line (splitlines txt)) k = Some n)"
proof -
  let ?kns = "List.map_filter err_count_of_line (splitlines txt)"
  have "distinct (map fst (parse_err_counts txt))"
    by (simp add: parse_err_counts_def fold_update_distinct)
  then have "((k, n) \<in> set (parse_err_counts txt)) = (map_of (parse_err_counts txt) k = Some n)"
    by simp
  also have "map_of (parse_err_counts txt) k = last_count ?kns k"
    using fold_update_map_of [of ?kns "[]" k]
    by (simp add: parse_err_counts_def last_count_def split: option.split)
  finally show ?thesis .
qed

lemma parse_err_counts_distinct: "distinct (map fst (parse_err_counts txt))"
  by (simp add: parse_err_counts_def fold_update_distinct)

lemma distinct_rows_of_instance:
  "distinct (map fst counts) \<Longrightarrow>
   distinct (map ((\<lambda>r. (sc_sct r, sc_sc r)) \<circ> (\<lambda>((ctrl, sct, sc), n).
       \<lparr>sc_sct = sct, sc_sc = sc, sc_sct_name = sct_name sct, sc_sc_name = sc_name sct sc,
        sc_count = n\<rparr>))
     (filter (\<lambda>((ctrl, sct, sc), n). ctrl = inst) counts))"
  by (induction counts) (auto simp: image_iff)

text \<open>
  The counter table of a device.  When the collector log is there and the device name is well
  formed, the table has exactly one row for every \<open>(sct, sc)\<close> pair of this controller, holding the
  number that the last \<open>@err_count\<close> line for it printed (cumulative totals are overwritten, never
  added), largest first, with the total as their sum.
\<close>

theorem read_error_stats_rows:
  assumes "device_instance device = Some inst" and "available src v"
  shows "(\<forall>r. r \<in> set (es_counts (read_error_stats src v device)) \<longleftrightarrow>
      last_count (List.map_filter err_count_of_line (splitlines (read_tail src ERR_TAIL_BYTES v)))
        (inst, sc_sct r, sc_sc r) = Some (sc_count r) \<and>
      sc_sct_name r = sct_name (sc_sct r) \<and> sc_sc_name r = sc_name (sc_sct r) (sc_sc r)) \<and>
    distinct (map (\<lambda>r. (sc_sct r, sc_sc r)) (es_counts (read_error_stats src v device))) \<and>
    sorted_wrt (\<lambda>a b. sc_count a \<ge> sc_count b) (es_counts (read_error_stats src v device)) \<and>
    es_total (read_error_stats src v device) =
      (\<Sum>r\<leftarrow>es_counts (read_error_stats src v device). sc_count r)"
proof -
  let ?rs = "es_counts (read_error_stats src v device)"
  let ?key = "\<lambda>r. (- sc_count r, sc_sct r, sc_sc r)"
  have "sorted (map ?key ?rs)"
    using assms by (simp add: read_error_stats_def Let_def)
  then have "sorted_wrt (\<lambda>a b. ?key a \<le> ?key b) ?rs"
    by (simp only: sorted_map)
  then have sorted: "sorted_wrt (\<lambda>a b. sc_count a \<ge> sc_count b) ?rs"
    by (rule sorted_wrt_mono_rel [rotated]) (auto simp: less_eq_prod_def)
  have rows: "r \<in> set ?rs \<longleftrightarrow>
      ((inst, sc_sct r, sc_sc r), sc_count r) \<in> set (parse_err_counts (read_tail src ERR_TAIL_BYTES v)) \<and>
      sc_sct_name r = sct_name (sc_sct r) \<and> sc_sc_name r = sc_name (sc_sct r) (sc_sc r)" for r
    using assms by (force simp: read_error_stats_def Let_def image_iff)
  have total: "es_total (read_error_stats src v device) = (\<Sum>r\<leftarrow>?rs. sc_count r)"
    using assms by (simp add: read_error_stats_def Let_def)
  have dist: "distinct (map (\<lambda>r. (sc_sct r, sc_sc r)) ?rs)"
    using assms parse_err_counts_distinct
    by (simp add: read_error_stats_def Let_def distinct_sort_map distinct_rows_of_instance)
  from sorted total dist show ?thesis
    by (simp add: rows parse_err_counts_lookup)
qed

theorem read_error_stats_rows_witness:
  "\<lparr>sc_sct = 2, sc_sc = 129, sc_sct_name = sct_name 2, sc_sc_name = sc_name 2 129, sc_count = 3\<rparr>
     \<in> set (es_counts (read_error_stats \<lparr>src_path = Some ''log''\<rparr>
         (view_of (''@err_count[0, 2, 129]: 1'' @ [nl] @ ''@err_count[1, 0, 4]: 7'' @ [nl] @
                   ''@err_count[0, 2, 129]: 3'' @ [nl])) ''nvme0''))"
proof -
  let ?src = "\<lparr>src_path = Some ''log''\<rparr>"
  let ?log = "''@err_count[0, 2, 129]: 1'' @ [nl] @ ''@err_count[1, 0, 4]: 7'' @ [nl] @
              ''@err_count[0, 2, 129]: 3'' @ [nl]"
  have inst: "device_instance ''nvme0'' = Some 0" by code_simp
  have avail: "available ?src (view_of ?log)" by (simp add: available_def has_path_def view_of_def)
  have tail: "read_tail ?src ERR_TAIL_BYTES (view_of ?log) = ?log"
    by (rule read_tail_view_of) (simp_all add: has_path_def ERR_TAIL_BYTES_def)
  have "last_count (List.map_filter err_count_of_line (splitlines ?log)) (0, 2, 129) = Some 3"
    by code_simp
  with read_error_stats_rows [OF inst avail] tail show ?thesis by simp
qed

end
