(* ===== verification/EventService.thy ===== *)
theory EventService
  imports ErrorEvents
begin

text \<open>
  The event service: \<open>services/events/service.py\<close> (\<open>EbpfEventService\<close>), its mock
  (\<open>services/events/mock.py\<close>) and the registry of event kinds (\<open>backend/event_registry.py\<close>).

  The service owns one reader per event kind, created at the first call and kept afterwards.  A call
  of \<open>get_events\<close> touches the file system three times (the availability test and one poll per
  reader), so it gets a file view for each, and each poll reads its own clock.
\<close>

section \<open>Registered kinds\<close>

definition REGISTRY :: "(pystr \<times> message \<times> pystr \<times> message) list" where
  "REGISTRY =
     [(KIND_timeout, MsgEventKind KIND_timeout, ''eBPF kprobe:nvme_timeout'',
       MsgEventKind KIND_timeout),
      (KIND_error, MsgEventKind KIND_error,
       ''eBPF tracepoint:nvme:nvme_complete_rq (status != 0)'', MsgEventKind KIND_error)]"

definition registered_event_kinds :: "bool \<Rightarrow> EventKindInfo list" where
  "registered_event_kinds active =
     map (\<lambda>(k, label, source, desc).
            \<lparr>ek_kind = k, ek_label = label, ek_source = source, ek_description = desc,
             ek_active = active\<rparr>) REGISTRY"

section \<open>The service\<close>

record EbpfEventService =
  svc_log :: FileEbpfLogSource
  svc_readers :: "(EventReader \<times> EventReader) option"  \<comment> \<open>timeout reader, error reader\<close>

definition new_event_service :: "FileEbpfLogSource \<Rightarrow> EbpfEventService" where
  "new_event_service src = \<lparr>svc_log = src, svc_readers = None\<rparr>"

definition MAX_EVENTS :: nat where
  "MAX_EVENTS = 200"

definition sources :: "EbpfEventService \<Rightarrow> EbpfEventService \<times> EventReader \<times> EventReader" where
  "sources s =
     (case svc_readers s of
        Some rs \<Rightarrow> (s, rs)
      | None \<Rightarrow>
          (let rs = (new_timeout_reader (svc_log s) MAX_EVENTS,
                     new_error_reader (svc_log s) MAX_EVENTS)
           in (s\<lparr>svc_readers := Some rs\<rparr>, rs)))"

text \<open>What the environment answers during one call of \<open>get_events\<close>.\<close>

record events_env =
  en_check :: file_view
  en_timeout :: file_view
  en_timeout_clock :: "nat \<Rightarrow> pyfloat"
  en_error :: file_view
  en_error_clock :: "nat \<Rightarrow> pyfloat"

definition get_events ::
  "events_env \<Rightarrow> pystr \<Rightarrow> EbpfEventService \<Rightarrow> EbpfEventService \<times> NvmeEvent list" where
  "get_events env device s =
     (if \<not> available (svc_log s) (en_check env) then (s, [])
      else
        (let (s1, t, e) = sources s;
             (t', tevs) = timeout_events_for_device (en_timeout env) (en_timeout_clock env) device t;
             (e', eevs) = error_events_for_device (en_error env) (en_error_clock env) device e
         in (s1\<lparr>svc_readers := Some (t', e')\<rparr>, sort_key ev_observed_at (tevs @ eevs))))"

definition get_error_stats ::
  "file_view \<Rightarrow> file_view \<Rightarrow> pystr \<Rightarrow> EbpfEventService \<Rightarrow> DeviceErrorStats" where
  "get_error_stats v v' device s =
     (if \<not> available (svc_log s) v then
        \<lparr>es_device = device, es_counts = [], es_total = 0, es_available = False,
         es_error = Some MsgNoCollectorLog\<rparr>
      else read_error_stats (svc_log s) v' device)"

definition list_event_kinds :: "file_view \<Rightarrow> EbpfEventService \<Rightarrow> EventKindInfo list" where
  "list_event_kinds v s = registered_event_kinds (available (svc_log s) v)"

section \<open>The mock service\<close>

definition mock_get_events :: "pystr \<Rightarrow> NvmeEvent list" where
  "mock_get_events device = []"

definition mock_get_error_stats :: "pystr \<Rightarrow> DeviceErrorStats" where
  "mock_get_error_stats device =
     \<lparr>es_device = device, es_counts = [], es_total = 0, es_available = True, es_error = None\<rparr>"

definition mock_list_event_kinds :: "EventKindInfo list" where
  "mock_list_event_kinds = registered_event_kinds False"

section \<open>Reachable service states\<close>

text \<open>The only operation that changes the service is \<open>get_events\<close>.\<close>

inductive reachable :: "FileEbpfLogSource \<Rightarrow> EbpfEventService \<Rightarrow> bool" for src where
  start: "reachable src (new_event_service src)"
| step: "\<lbrakk>reachable src s; get_events env device s = (s', evs)\<rbrakk> \<Longrightarrow> reachable src s'"

definition readers_ok :: "EventReader \<times> EventReader \<Rightarrow> bool" where
  "readers_ok = (\<lambda>(t, e). er_max_events t = MAX_EVENTS \<and> er_max_events e = MAX_EVENTS \<and>
     (\<forall>ev \<in> set (er_events t). timeout_shaped ev) \<and> (\<forall>ev \<in> set (er_events e). error_shaped ev))"

definition service_ok :: "EbpfEventService \<Rightarrow> bool" where
  "service_ok s \<longleftrightarrow> (case svc_readers s of None \<Rightarrow> True | Some rs \<Rightarrow> readers_ok rs)"

lemma readers_ok_new: "readers_ok (new_timeout_reader src MAX_EVENTS, new_error_reader src MAX_EVENTS)"
  by (simp add: readers_ok_def new_timeout_reader_def new_error_reader_def new_reader_def)

lemma sources_ok: "service_ok s \<Longrightarrow> readers_ok (snd (sources s))"
  by (auto simp: sources_def service_ok_def Let_def readers_ok_new split: option.splits)

lemma sources_log: "svc_log (fst (sources s)) = svc_log s"
  by (simp add: sources_def Let_def split: option.split)

text \<open>A call on an available log, in terms of the two event sources.\<close>

lemma get_events_available:
  assumes "available (svc_log s) (en_check env)" and "snd (sources s) = (t, e)"
  shows "get_events env device s =
    ((fst (sources s))\<lparr>svc_readers := Some (timeout_poll (en_timeout env) (en_timeout_clock env) t,
                                           error_poll (en_error env) (en_error_clock env) e)\<rparr>,
     sort_key ev_observed_at
       (timeout_source.device_events (en_timeout env) (en_timeout_clock env) device t @
        error_source.device_events (en_error env) (en_error_clock env) device e))"
  using assms
  by (cases "sources s")
    (simp add: get_events_def timeout_events_for_device_eq error_events_for_device_eq)

lemma readers_ok_poll:
  assumes "readers_ok (t, e)"
  shows "readers_ok (timeout_poll v clock t, error_poll v' clock' e)"
  using assms timeout_source.poll_good [of t _ v clock] error_source.poll_good [of e _ v' clock']
  by (auto simp: readers_ok_def timeout_source.poll_cap error_source.poll_cap)

lemma get_events_ok: "service_ok s \<Longrightarrow> service_ok (fst (get_events env device s))"
proof (cases "available (svc_log s) (en_check env)")
  case True
  assume "service_ok s"
  obtain t e where te: "snd (sources s) = (t, e)" by (cases "snd (sources s)")
  with \<open>service_ok s\<close> have "readers_ok (t, e)" using sources_ok [of s] by simp
  from get_events_available [OF True te] readers_ok_poll [OF this] show ?thesis
    by (simp add: service_ok_def)
qed (simp add: get_events_def)

lemma reachable_ok: "reachable src s \<Longrightarrow> service_ok s \<and> svc_log s = src"
proof (induction rule: reachable.induct)
  case start
  then show ?case by (simp add: new_event_service_def service_ok_def)
next
  case (step s env device s' evs)
  from step have "service_ok s'" using get_events_ok [of s env device] by simp
  moreover from step have "svc_log s' = svc_log s"
    by (auto simp: get_events_def Let_def sources_def split: if_splits option.splits prod.splits)
  ultimately show ?case using step by simp
qed

section \<open>Properties of the listing\<close>

lemma length_filter_sort: "length (filter P (sort_key k xs)) = length (filter P xs)"
  by (metis mset_filter mset_sort size_mset)

text \<open>
  What a call of \<open>get_events\<close> lists, whatever calls came before and whatever the file system
  answers: the events the two readers hold for this device after the poll, none dropped or repeated,
  ordered by observation time; each carries the detail of its own kind and no other, and there are
  at most 200 of each kind, so 400 in all.  Without a collector log the list is empty and the
  service is unchanged.
\<close>

theorem get_events_listing:
  assumes "reachable src s" and "get_events env device s = (s', evs)"
  shows "sorted (map ev_observed_at evs) \<and>
    (\<forall>ev \<in> set evs. ev_device ev = device \<and> (timeout_shaped ev \<or> error_shaped ev)) \<and>
    length (filter timeout_shaped evs) \<le> 200 \<and> length (filter error_shaped evs) \<le> 200 \<and>
    (if available src (en_check env)
     then \<exists>t e. svc_readers s' = Some (t, e) \<and>
            mset evs = mset (filter (\<lambda>ev. ev_device ev = device) (er_events t @ er_events e))
     else evs = [] \<and> s' = s)"
proof (cases "available src (en_check env)")
  case False
  with assms reachable_ok [OF assms(1)] show ?thesis by (auto simp: get_events_def)
next
  case True
  from reachable_ok [OF assms(1)] have ok: "service_ok s" "svc_log s = src" by auto
  obtain t e where te: "snd (sources s) = (t, e)" by (cases "snd (sources s)")
  let ?tev = "timeout_source.device_events (en_timeout env) (en_timeout_clock env) device t"
  let ?eev = "error_source.device_events (en_error env) (en_error_clock env) device e"
  from sources_ok [OF ok(1)] te have rok: "er_max_events t = 200" "er_max_events e = 200"
    "\<forall>ev \<in> set (er_events t). timeout_shaped ev" "\<forall>ev \<in> set (er_events e). error_shaped ev"
    by (auto simp: readers_ok_def MAX_EVENTS_def)
  have evs: "evs = sort_key ev_observed_at (?tev @ ?eev)"
    and rs: "svc_readers s' = Some (timeout_poll (en_timeout env) (en_timeout_clock env) t,
      error_poll (en_error env) (en_error_clock env) e)"
    using get_events_available [of s env t e device] True ok(2) te assms(2) by auto
  have tgood: "timeout_shaped ev \<and> ev_device ev = device" if "ev \<in> set ?tev" for ev
    using timeout_source.device_events_good [OF rok(3) that] .
  have egood: "error_shaped ev \<and> ev_device ev = device" if "ev \<in> set ?eev" for ev
    using error_source.device_events_good [OF rok(4) that] .
  have parts: "length (filter P evs) = length (filter P ?tev) + length (filter P ?eev)" for P
    by (simp add: evs length_filter_sort)
  have "filter timeout_shaped ?eev = []" "filter error_shaped ?tev = []"
    using tgood egood
    by (auto simp: filter_empty_conv timeout_shaped_def error_shaped_def KIND_timeout_def KIND_error_def)
  with parts have "length (filter timeout_shaped evs) \<le> length ?tev"
    "length (filter error_shaped evs) \<le> length ?eev" by (simp_all add: length_filter_le)
  then have "length (filter timeout_shaped evs) \<le> 200" "length (filter error_shaped evs) \<le> 200"
    using timeout_source.device_events_bound [of t "en_timeout env" "en_timeout_clock env" device]
      error_source.device_events_bound [of e "en_error env" "en_error_clock env" device] rok
    by linarith+
  moreover have "mset evs = mset (filter (\<lambda>ev. ev_device ev = device)
      (er_events (timeout_poll (en_timeout env) (en_timeout_clock env) t) @
       er_events (error_poll (en_error env) (en_error_clock env) e)))"
    by (simp add: evs timeout_source.device_events_def error_source.device_events_def)
  ultimately show ?thesis
    using True rs tgood egood by (auto simp: evs)
qed

section \<open>Retention\<close>

text \<open>A sequence of calls, each with its environment and device; the state and the lists returned.\<close>

fun serve ::
  "(events_env \<times> pystr) list \<Rightarrow> EbpfEventService \<Rightarrow> EbpfEventService \<times> NvmeEvent list list" where
  "serve [] s = (s, [])"
| "serve ((env, device) # calls) s =
     (let (s1, evs) = get_events env device s; (s2, evss) = serve calls s1 in (s2, evs # evss))"

definition timeout_polls :: "(events_env \<times> pystr) list \<Rightarrow> (file_view \<times> (nat \<Rightarrow> pyfloat)) list" where
  "timeout_polls calls = map (\<lambda>(env, _). (en_timeout env, en_timeout_clock env)) calls"

definition error_polls :: "(events_env \<times> pystr) list \<Rightarrow> (file_view \<times> (nat \<Rightarrow> pyfloat)) list" where
  "error_polls calls = map (\<lambda>(env, _). (en_error env, en_error_clock env)) calls"

lemma get_events_result:
  assumes "available (svc_log s) (en_check env)" and "snd (sources s) = (t, e)"
    and "get_events env device s = (s', evs)"
  shows "snd (sources s') = (timeout_poll (en_timeout env) (en_timeout_clock env) t,
      error_poll (en_error env) (en_error_clock env) e)"
    and "svc_log s' = svc_log s"
    and "mset evs = mset (filter (\<lambda>ev. ev_device ev = device)
      (er_events (fst (snd (sources s'))) @ er_events (snd (snd (sources s')))))"
  using get_events_available [OF assms(1,2), of device] assms(3) sources_log [of s]
  by (auto simp: sources_def timeout_source.device_events_def error_source.device_events_def)

lemma serve_readers:
  assumes "\<forall>(env, device) \<in> set calls. available (svc_log s) (en_check env)"
    and "snd (sources s) = (t, e)"
  shows "snd (sources (fst (serve calls s))) =
    (poll_reader timeout_parse_line (timeout_polls calls) t,
     poll_reader error_parse_line (error_polls calls) e)"
  using assms
proof (induction calls arbitrary: s t e)
  case Nil
  then show ?case by (simp add: timeout_polls_def error_polls_def)
next
  case (Cons call calls)
  obtain env device where call: "call = (env, device)" by (cases call)
  obtain s1 evs where g: "get_events env device s = (s1, evs)" by fastforce
  have "available (svc_log s) (en_check env)" using Cons.prems(1) call by simp
  note r = get_events_result [OF this Cons.prems(2) g]
  have "\<forall>(env, device) \<in> set calls. available (svc_log s1) (en_check env)"
    using Cons.prems(1) r(2) by auto
  from Cons.IH [OF this r(1)] show ?case
    using g call
    by (cases "serve calls s1")
      (simp add: timeout_polls_def error_polls_def timeout_poll_def error_poll_def)
qed

text \<open>The events of one kind that a log holds, without their time stamps.\<close>

definition log_events :: "line_parser \<Rightarrow> pybytes \<Rightarrow> NvmeEvent list" where
  "log_events parse content =
     List.map_filter (\<lambda>l. map_option unstamped (parse 0 l)) (complete_lines content)"

lemma fresh_reader_retention:
  assumes "has_path (src_path src)" "append_only [] (map fst ps)" "ps \<noteq> []" "stamps parse"
  shows "map unstamped (er_events (poll_reader parse ps (new_reader src MAX_EVENTS))) =
    last_n 200 (log_events parse (the (fv_content (fst (last ps)))))"
  using poll_reader_window [of "new_reader src MAX_EVENTS" parse ps]
    poll_cursor_complete [OF assms(1,2)] assms(3,4)
  by (simp add: new_reader_def MAX_EVENTS_def log_events_def last_map)

lemma unstamped_device [simp]: "ev_device (unstamped e) = ev_device e"
  by (simp add: unstamped_def)

lemma filter_unstamped:
  "map unstamped (filter (\<lambda>e. ev_device e = d) evs) =
   filter (\<lambda>e. ev_device e = d) (map unstamped evs)"
  by (induction evs) auto

lemma serve_snoc:
  "serve (calls @ [(env, device)]) s =
     (fst (get_events env device (fst (serve calls s))),
      snd (serve calls s) @ [snd (get_events env device (fst (serve calls s)))])"
  by (induction calls arbitrary: s) (auto split: prod.split)

lemma serve_log:
  "svc_log (fst (serve calls s)) = svc_log s"
proof (induction calls arbitrary: s)
  case (Cons call calls)
  have "svc_log (fst (get_events env device s)) = svc_log s" for env device s
    by (auto simp: get_events_def Let_def sources_def split: option.split prod.split)
  with Cons show ?case by (cases call) (simp add: split_beta Let_def)
qed simp


definition sample_env :: events_env where
  "sample_env =
     (let v = view_of (''TIMEOUT_EVENT ts_ns=10 ctrl=0 qid=2 tag=3 opcode=2 nsid=1 flags=0 cdw10=8 '' @
            ''cdw11=0 cdw12=7 cdw13=0 cdw14=0 cdw15=0 elapsed_ns=30'' @ [nl] @ ''ERROR_EV'')
      in \<lparr>en_check = v, en_timeout = v, en_timeout_clock = (\<lambda>i. of_nat i), en_error = v,
          en_error_clock = (\<lambda>i. of_nat i)\<rparr>)"

theorem get_events_listing_witness:
  "sorted (map ev_observed_at
     (snd (get_events sample_env ''nvme0'' (new_event_service \<lparr>src_path = Some ''log''\<rparr>))))"
  using get_events_listing [OF reachable.start prod.collapse [symmetric]] by blast


end
