(* ===== verification/TopologyTree.thy ===== *)
theory TopologyTree
  imports Models "HOL-Library.Multiset"
begin

text \<open>
  The topology dataclasses of \<open>models.py\<close>, and the mutable tree that the topology builders grow.

  A text is a list of pieces: characters the source prints, a fixed phrase named by its English meaning,
  or a number before its rounding to two decimals.  The builders hold references to nodes in
  an index by id and append to the \<open>children\<close> lists of nodes that are already in the tree; so the tree under
  construction is a store of cells, an address is the position of a cell, and a child is the address
  of a shared cell or a finished node that nobody else refers to.
\<close>

section \<open>Nodes\<close>

datatype piece = Lit pystr | Ko pystr | Decimals pyfloat

type_synonym topo_text = "piece list"

record TopologyDetail =
  tpd_key :: topo_text
  tpd_value :: topo_text

datatype TopologyNode =
  TopologyNode (node_id: pystr) (node_kind: pystr) (node_label: topo_text) (node_sublabel: topo_text)
    (node_device: pystr) (node_details: "TopologyDetail list") (node_children: "TopologyNode list")

definition TOPO_SYSTEM :: pystr where "TOPO_SYSTEM = ''system''"
definition TOPO_HOST_BRIDGE :: pystr where "TOPO_HOST_BRIDGE = ''host_bridge''"
definition TOPO_PCI_BRIDGE :: pystr where "TOPO_PCI_BRIDGE = ''pci_bridge''"
definition TOPO_PCI_ENDPOINT :: pystr where "TOPO_PCI_ENDPOINT = ''pci_endpoint''"
definition TOPO_NVME_CTRL :: pystr where "TOPO_NVME_CTRL = ''nvme_ctrl''"
definition TOPO_NVME_SUBSYS :: pystr where "TOPO_NVME_SUBSYS = ''nvme_subsystem''"
definition TOPO_NAMESPACE :: pystr where "TOPO_NAMESPACE = ''namespace''"
definition TOPO_QUEUE_GROUP :: pystr where "TOPO_QUEUE_GROUP = ''queue_group''"
definition TOPO_QUEUE :: pystr where "TOPO_QUEUE = ''queue''"

lemmas topo_kinds = TOPO_SYSTEM_def TOPO_HOST_BRIDGE_def TOPO_PCI_BRIDGE_def TOPO_PCI_ENDPOINT_def
  TOPO_NVME_CTRL_def TOPO_NVME_SUBSYS_def TOPO_NAMESPACE_def TOPO_QUEUE_GROUP_def TOPO_QUEUE_def

record Topology =
  tpl_root :: TopologyNode
  tpl_backend_kind :: pystr
  tpl_error :: "message option"

text \<open>All nodes of a finished tree, from the root down.\<close>

fun tree_nodes :: "TopologyNode \<Rightarrow> TopologyNode list" where
  "tree_nodes (TopologyNode i k l s v ds cs) = TopologyNode i k l s v ds cs # concat (map tree_nodes cs)"

text \<open>What identifies a node, without its subtree.\<close>

definition node_key :: "TopologyNode \<Rightarrow> pystr \<times> pystr \<times> pystr" where
  "node_key n = (node_kind n, node_id n, node_device n)"

lemma tree_nodes_unfold: "tree_nodes n = n # concat (map tree_nodes (node_children n))"
  by (cases n) simp

section \<open>The tree under construction\<close>

datatype child = Shared nat | Own TopologyNode

text \<open>A cell is a node without children and its growing list of children.\<close>

record cell =
  cell_node :: TopologyNode
  cell_children :: "child list"

record store =
  st_cells :: "cell list"
  st_index :: "(pystr, nat) dict"

definition new_store :: "TopologyNode \<Rightarrow> store" where
  "new_store root_node = \<lparr>st_cells = [\<lparr>cell_node = root_node, cell_children = []\<rparr>], st_index = [(node_id root_node, 0)]\<rparr>"

text \<open>\<open>node.children.append(c)\<close>\<close>

definition append_child :: "nat \<Rightarrow> child \<Rightarrow> store \<Rightarrow> store" where
  "append_child a c st =
     st\<lparr>st_cells := (st_cells st)[a := (st_cells st ! a)\<lparr>cell_children := cell_children (st_cells st ! a) @ [c]\<rparr>]\<rparr>"

text \<open>A new node is entered in the index and hung below \<open>parent\<close>.\<close>

definition add_node :: "nat \<Rightarrow> TopologyNode \<Rightarrow> store \<Rightarrow> nat \<times> store" where
  "add_node parent n st =
     (let a = length (st_cells st);
          st1 = st\<lparr>st_cells := st_cells st @ [\<lparr>cell_node = n, cell_children = []\<rparr>],
                   st_index := AList.update (node_id n) a (st_index st)\<rparr>
      in (a, append_child parent (Shared a) st1))"

text \<open>The finished tree below an address; a child is younger than its parent.\<close>

definition with_children :: "TopologyNode \<Rightarrow> TopologyNode list \<Rightarrow> TopologyNode" where
  "with_children n cs = (case n of TopologyNode i k l s v ds _ \<Rightarrow> TopologyNode i k l s v ds cs)"

function finished :: "cell list \<Rightarrow> nat \<Rightarrow> TopologyNode" where
  "finished cells a =
     with_children (cell_node (cells ! a))
       (map (\<lambda>c. case c of Own n \<Rightarrow> n
                         | Shared b \<Rightarrow> if a < b \<and> b < length cells then finished cells b else cell_node (cells ! a))
          (cell_children (cells ! a)))"
  by pat_completeness auto
termination by (relation "measure (\<lambda>(cells, a). length cells - a)") auto

declare finished.simps [simp del]

definition finished_tree :: "store \<Rightarrow> TopologyNode" where
  "finished_tree st = finished (st_cells st) 0"

section \<open>Well-formed stores\<close>

fun refs :: "child list \<Rightarrow> nat list" where
  "refs [] = []"
| "refs (Shared b # cs) = b # refs cs"
| "refs (Own n # cs) = refs cs"

fun owned :: "child list \<Rightarrow> TopologyNode list" where
  "owned [] = []"
| "owned (Shared b # cs) = owned cs"
| "owned (Own n # cs) = n # owned cs"

lemma refs_append [simp]: "refs (cs @ cs') = refs cs @ refs cs'"
  by (induction cs rule: refs.induct) auto

lemma owned_append [simp]: "owned (cs @ cs') = owned cs @ owned cs'"
  by (induction cs rule: owned.induct) auto

text \<open>
  Every cell but the first is the child of exactly one older cell; the index holds exactly the cells, by
  their ids, and no two cells have the same id.
\<close>

definition store_ok :: "store \<Rightarrow> bool" where
  "store_ok st \<longleftrightarrow>
     0 < length (st_cells st) \<and>
     (\<forall>a < length (st_cells st). \<forall>b \<in> set (refs (cell_children (st_cells st ! a))). a < b \<and> b < length (st_cells st)) \<and>
     (\<Sum>c\<leftarrow>st_cells st. mset (refs (cell_children c))) = mset [1..<length (st_cells st)] \<and>
     (\<forall>m \<in> set (map cell_node (st_cells st)). node_children m = []) \<and>
     st_index st = map (\<lambda>a. (node_id (map cell_node (st_cells st) ! a), a)) [0..<length (st_cells st)] \<and>
     distinct (map node_id (map cell_node (st_cells st)))"

lemma sum_list_update_add:
  fixes f :: "'a \<Rightarrow> 'b :: comm_monoid_add"
  assumes "a < length xs" and "f y = f (xs ! a) + z"
  shows "(\<Sum>x\<leftarrow>xs[a := y]. f x) = (\<Sum>x\<leftarrow>xs. f x) + z"
proof -
  have "(\<Sum>x\<leftarrow>xs. f x) = (\<Sum>x\<leftarrow>take a xs @ xs ! a # drop (Suc a) xs. f x)"
    using id_take_nth_drop [OF assms(1)] by simp
  then show ?thesis
    using assms by (simp add: upd_conv_take_nth_drop ac_simps)
qed

lemma store_okD:
  assumes "store_ok st"
  shows "0 < length (st_cells st)"
    and "\<And>a b. a < length (st_cells st) \<Longrightarrow> b \<in> set (refs (cell_children (st_cells st ! a))) \<Longrightarrow>
      a < b \<and> b < length (st_cells st)"
    and "(\<Sum>c\<leftarrow>st_cells st. mset (refs (cell_children c))) = mset [1..<length (st_cells st)]"
    and "\<forall>m \<in> set (map cell_node (st_cells st)). node_children m = []"
    and "st_index st = map (\<lambda>a. (node_id (map cell_node (st_cells st) ! a), a)) [0..<length (st_cells st)]"
    and "distinct (map node_id (map cell_node (st_cells st)))"
  using assms unfolding store_ok_def by blast+

lemma store_okI:
  assumes "0 < length (st_cells st)"
    and "\<And>a b. a < length (st_cells st) \<Longrightarrow> b \<in> set (refs (cell_children (st_cells st ! a))) \<Longrightarrow>
      a < b \<and> b < length (st_cells st)"
    and "(\<Sum>c\<leftarrow>st_cells st. mset (refs (cell_children c))) = mset [1..<length (st_cells st)]"
    and "\<forall>m \<in> set (map cell_node (st_cells st)). node_children m = []"
    and "st_index st = map (\<lambda>a. (node_id (map cell_node (st_cells st) ! a), a)) [0..<length (st_cells st)]"
    and "distinct (map node_id (map cell_node (st_cells st)))"
  shows "store_ok st"
  unfolding store_ok_def using assms by blast

lemma store_ok_new: "node_children r = [] \<Longrightarrow> store_ok (new_store r)"
  by (simp add: store_ok_def new_store_def)

lemma store_lookup:
  assumes "store_ok st" and "map_of (st_index st) i = Some a"
  shows "a < length (st_cells st)" and "node_id (cell_node (st_cells st ! a)) = i"
  using map_of_SomeD [OF assms(2)] store_okD(5) [OF assms(1)] by auto

lemma store_lookup_None:
  assumes "store_ok st" and "map_of (st_index st) i = None" and "c \<in> set (st_cells st)"
  shows "node_id (cell_node c) \<noteq> i"
proof -
  from assms(3) obtain a where "a < length (st_cells st)" "c = st_cells st ! a" by (metis in_set_conv_nth)
  with assms(2) store_okD(5) [OF assms(1)] show ?thesis by (auto simp: map_of_eq_None_iff image_iff)
qed

lemma map_cells_update:
  "\<lbrakk>a < length xs; f y = f (xs ! a)\<rbrakk> \<Longrightarrow> map f (xs[a := y]) = map f xs"
  by (simp add: map_update list_update_same_conv)

lemma append_child_cells:
  "length (st_cells (append_child a c st)) = length (st_cells st)"
  "st_index (append_child a c st) = st_index st"
  "a < length (st_cells st) \<Longrightarrow> map cell_node (st_cells (append_child a c st)) = map cell_node (st_cells st)"
  by (simp_all add: append_child_def map_cells_update)

lemma cell_node_append:
  "\<lbrakk>a < length (st_cells st); b < length (st_cells st)\<rbrakk> \<Longrightarrow>
    cell_node (st_cells (append_child a c st) ! b) = cell_node (st_cells st ! b)"
  by (simp add: append_child_def nth_list_update)

lemma add_node_fst: "fst (add_node p n st) = length (st_cells st)"
  by (simp add: add_node_def Let_def)

lemma add_node_nodes:
  assumes "p < length (st_cells st)"
  shows "map cell_node (st_cells (snd (add_node p n st))) = map cell_node (st_cells st) @ [n]"
  using assms by (simp add: add_node_def append_child_def Let_def nth_append list_update_append map_cells_update)

lemma store_ok_own:
  assumes ok: "store_ok st" and a: "a < length (st_cells st)"
  shows "store_ok (append_child a (Own n) st)"
proof -
  let ?st = "append_child a (Own n) st"
  have refs: "refs (cell_children (st_cells ?st ! b)) = refs (cell_children (st_cells st ! b))" for b
    using a by (cases "b = a") (simp_all add: append_child_def)
  have sum: "(\<Sum>c\<leftarrow>st_cells ?st. mset (refs (cell_children c))) = mset [1..<length (st_cells ?st)]"
    unfolding append_child_cells(1) unfolding append_child_def store_okD(3) [OF ok, symmetric]
    using a by (simp add: sum_list_update_add [where z = "{#}"])
  have leaves: "\<forall>m \<in> set (map cell_node (st_cells ?st)). node_children m = []"
    unfolding append_child_cells(3) [OF a] using store_okD(4) [OF ok] by simp
  have ids: "distinct (map node_id (map cell_node (st_cells ?st)))"
    unfolding append_child_cells(3) [OF a] using store_okD(6) [OF ok] by simp
  have index: "st_index ?st = map (\<lambda>b. (node_id (map cell_node (st_cells ?st) ! b), b)) [0..<length (st_cells ?st)]"
    unfolding append_child_cells(3) [OF a] append_child_cells(1,2) by (simp add: store_okD(5) [OF ok])
  have pos: "0 < length (st_cells ?st)" using store_okD(1) [OF ok] by (simp only: append_child_cells(1))
  have "b < b' \<and> b' < length (st_cells ?st)"
    if "b < length (st_cells ?st)" "b' \<in> set (refs (cell_children (st_cells ?st ! b)))" for b b'
    using store_okD(2) [OF ok, of b b'] that unfolding append_child_cells(1) refs by blast
  from store_okI [OF pos this sum leaves index ids] show ?thesis .
qed

lemma store_ok_add:
  assumes ok: "store_ok st" and p: "p < length (st_cells st)"
    and fresh: "map_of (st_index st) (node_id n) = None" and n: "node_children n = []"
  shows "store_ok (snd (add_node p n st))"
proof -
  let ?len = "length (st_cells st)" and ?new = "\<lparr>cell_node = n, cell_children = []\<rparr>"
  let ?st = "snd (add_node p n st)"
  have cells: "st_cells ?st = (st_cells st)[p := (st_cells st ! p)\<lparr>cell_children := cell_children (st_cells st ! p) @ [Shared ?len]\<rparr>] @ [?new]"
    using p by (simp add: add_node_def append_child_def Let_def nth_append list_update_append)
  have len: "length (st_cells ?st) = Suc ?len" by (simp add: cells)
  have index: "st_index ?st = st_index st @ [(node_id n, ?len)]"
    using fresh by (simp add: add_node_def append_child_def Let_def update_fresh map_of_eq_None_iff)
  have nodes: "map cell_node (st_cells ?st) = map cell_node (st_cells st) @ [n]"
    unfolding cells using p by (simp add: map_cells_update)
  have sum: "(\<Sum>c\<leftarrow>st_cells ?st. mset (refs (cell_children c))) = mset [1..<length (st_cells ?st)]"
    unfolding cells using p store_okD(1,3) [OF ok]
    by (simp add: sum_list_update_add [where z = "{#?len#}"])
  have younger: "a < b \<and> b < length (st_cells ?st)"
    if "a < length (st_cells ?st)" "b \<in> set (refs (cell_children (st_cells ?st ! a)))" for a b
    using that p store_okD(2) [OF ok, of a b]
    by (auto simp: cells nth_append nth_list_update less_Suc_eq split: if_splits)
  have leaves: "\<forall>m \<in> set (map cell_node (st_cells ?st)). node_children m = []"
    unfolding nodes using store_okD(4) [OF ok] n by simp
  have ids: "distinct (map node_id (map cell_node (st_cells ?st)))"
    unfolding nodes using store_okD(6) [OF ok] store_lookup_None [OF ok fresh] by (fastforce simp: comp_def)
  have ix: "st_index ?st = map (\<lambda>a. (node_id (map cell_node (st_cells ?st) ! a), a)) [0..<length (st_cells ?st)]"
    unfolding nodes index store_okD(5) [OF ok] by (simp add: nth_append len)
  have "0 < length (st_cells ?st)" by (simp add: len)
  then show ?thesis using younger sum leaves ix ids by (rule store_okI)
qed

section \<open>The finished tree of a store\<close>

lemma with_children_simps [simp]:
  "node_children (with_children n cs) = cs" "node_id (with_children n cs) = node_id n"
  "node_kind (with_children n cs) = node_kind n" "node_device (with_children n cs) = node_device n"
  "node_key (with_children n cs) = node_key n"
  by (cases n; simp add: with_children_def node_key_def)+

text \<open>What a cell contributes to the tree: its own node and the finished nodes it owns.\<close>

definition cell_nodes :: "cell \<Rightarrow> (pystr \<times> pystr \<times> pystr) multiset" where
  "cell_nodes c = add_mset (node_key (cell_node c))
     (\<Sum>n\<leftarrow>owned (cell_children c). mset (map node_key (tree_nodes n)))"

abbreviation tree_keys :: "TopologyNode \<Rightarrow> (pystr \<times> pystr \<times> pystr) multiset" where
  "tree_keys t \<equiv> mset (map node_key (tree_nodes t))"

lemma tree_keys_unfold:
  "tree_keys n = add_mset (node_key n) (\<Sum>c\<leftarrow>node_children n. tree_keys c)"
proof -
  have "mset (map node_key (concat (map tree_nodes cs))) = (\<Sum>c\<leftarrow>cs. tree_keys c)" for cs
    by (induction cs) simp_all
  then show ?thesis by (subst tree_nodes_unfold) simp
qed

lemma children_split:
  assumes "\<forall>b \<in> set (refs cs). ok b"
  shows "(\<Sum>c\<leftarrow>cs. f (case c of Own n \<Rightarrow> n | Shared b \<Rightarrow> if ok b then g b else x)) =
    (\<Sum>n\<leftarrow>owned cs. (f n :: 'm multiset)) + (\<Sum>b\<in>#mset (refs cs). f (g b))"
  using assms by (induction cs rule: refs.induct) (auto simp: ac_simps)

lemma finished_keys:
  assumes "store_ok st" and "a < length (st_cells st)"
  shows "tree_keys (finished (st_cells st) a) =
    cell_nodes (st_cells st ! a) + (\<Sum>b\<in>#mset (refs (cell_children (st_cells st ! a))). tree_keys (finished (st_cells st) b))"
proof -
  have "\<forall>b \<in> set (refs (cell_children (st_cells st ! a))). a < b \<and> b < length (st_cells st)"
    using store_okD(2) [OF assms(1,2)] by blast
  from children_split [OF this, of tree_keys "finished (st_cells st)"] show ?thesis
    by (subst finished.simps, subst tree_keys_unfold) (simp add: cell_nodes_def comp_def)
qed

text \<open>
  The nodes of the finished tree are exactly the nodes of the cells and what these own: the sum over
  all addresses counts every subtree but the whole one twice.
\<close>

lemma finished_tree_keys:
  assumes ok: "store_ok st"
  shows "tree_keys (finished_tree st) = (\<Sum>c\<leftarrow>st_cells st. cell_nodes c)"
proof -
  let ?cells = "st_cells st" and ?n = "length (st_cells st)"
  let ?G = "\<lambda>a. tree_keys (finished ?cells a)"
  have sum_refs: "(\<Sum>c\<leftarrow>cs. \<Sum>b\<in>#mset (refs (cell_children c)). ?G b) =
      (\<Sum>b\<in>#(\<Sum>c\<leftarrow>cs. mset (refs (cell_children c))). ?G b)" for cs
    by (induction cs) simp_all
  have cells: "map (\<lambda>a. f (?cells ! a)) [0..<?n] = map f ?cells" for f :: "cell \<Rightarrow> (pystr \<times> pystr \<times> pystr) multiset"
    by (rule nth_equalityI) simp_all
  have "(\<Sum>a\<leftarrow>[0..<?n]. ?G a) = (\<Sum>a\<leftarrow>[0..<?n]. cell_nodes (?cells ! a) +
      (\<Sum>b\<in>#mset (refs (cell_children (?cells ! a))). ?G b))"
    by (rule arg_cong [where f = sum_list], rule map_cong) (simp_all only: finished_keys [OF ok] set_upt atLeastLessThan_iff)
  also have "\<dots> = (\<Sum>c\<leftarrow>?cells. cell_nodes c) + (\<Sum>b\<in>#mset [1..<?n]. ?G b)"
    by (simp only: sum_list_addf cells cells [of "\<lambda>c. \<Sum>b\<in>#mset (refs (cell_children c)). ?G b"] sum_refs store_okD(3) [OF ok])
  also have "(\<Sum>b\<in>#mset [1..<?n]. ?G b) = (\<Sum>a\<leftarrow>[1..<?n]. ?G a)" by (simp only: sum_mset_sum_list flip: mset_map)
  also have "[0..<?n] = 0 # [1..<?n]" using store_okD(1) [OF ok] by (simp add: upt_conv_Cons)
  finally show ?thesis by (simp add: finished_tree_def)
qed

lemma in_sum_list_mset: "x \<in># (\<Sum>c\<leftarrow>cs. f c) \<longleftrightarrow> (\<exists>c \<in> set cs. x \<in># f c)"
  by (induction cs) auto

lemma tree_nodes_child: "c \<in> set (node_children n) \<Longrightarrow> n \<in> set (tree_nodes t) \<Longrightarrow> c \<in> set (tree_nodes t)"
proof (induction t rule: tree_nodes.induct)
  case (1 i k l s v ds cs)
  have "c \<in> set (tree_nodes c)" by (subst tree_nodes_unfold) simp
  with 1 show ?case by auto
qed

lemma finished_reached:
  assumes ok: "store_ok st" and "a < length (st_cells st)"
  shows "finished (st_cells st) a \<in> set (tree_nodes (finished_tree st))"
  using assms(2)
proof (induction a rule: less_induct)
  case (less a)
  show ?case
  proof (cases "a = 0")
    case True
    then show ?thesis by (subst tree_nodes_unfold) (simp add: finished_tree_def)
  next
    case False
    with less.prems have "a \<in># mset [1..<length (st_cells st)]" by simp
    then obtain c where "c \<in> set (st_cells st)" "a \<in> set (refs (cell_children c))"
      unfolding store_okD(3) [OF ok, symmetric] by (auto simp: in_sum_list_mset)
    then obtain p where p: "p < length (st_cells st)" "a \<in> set (refs (cell_children (st_cells st ! p)))"
      by (metis in_set_conv_nth)
    with store_okD(2) [OF ok p] less.IH have up: "finished (st_cells st) p \<in> set (tree_nodes (finished_tree st))" and pa: "p < a"
      by blast+
    have "Shared a \<in> set (cell_children (st_cells st ! p))"
    proof -
      have "b \<in> set (refs cs) \<Longrightarrow> Shared b \<in> set cs" for b cs by (induction cs rule: refs.induct) auto
      with p(2) show ?thesis by blast
    qed
    then have "finished (st_cells st) a \<in> set (node_children (finished (st_cells st) p))"
      using pa less.prems by (subst (2) finished.simps) (force simp: image_iff)
    with up show ?thesis by (rule tree_nodes_child [rotated])
  qed
qed

end
