(* ===== verification/QueueService.thy ===== *)
theory QueueService
  imports QueueDecode
begin

unbundle bit_operations_syntax

text \<open>
  \<open>services/queues/service.py\<close> (\<open>DrgnQueueService\<close>): discovery of controllers, queue snapshots, SQ
  and CQ ring dumps and PRP payloads.

  The live kernel, seen through drgn, is the environment.  The records below hold what its objects
  answer during one call: every attribute access is an exception or a value, so that each \<open>try\<close> of the
  source is a branch of the model.  Following a chain of pointers is one access, and so are walking
  the list of disks and naming them.  Forming a reference to a member reads no memory and is not an
  access.
\<close>

section \<open>The kernel as drgn shows it\<close>

type_synonym 'a access = "exn + 'a"

record nvme_command =
  cm_opcode :: "int access"
  cm_flags :: "int access"
  cm_command_id :: "int access"
  cm_nsid :: "int access"
  cm_cdw2 :: "int access"
  cm_cdw3 :: "int access"
  cm_cdw2_0 :: "int access"      \<comment> \<open>\<open>cdw2[0]\<close>\<close>
  cm_cdw2_1 :: "int access"      \<comment> \<open>\<open>cdw2[1]\<close>\<close>
  cm_cdw10 :: "int access"
  cm_cdw11 :: "int access"
  cm_cdw12 :: "int access"
  cm_cdw13 :: "int access"
  cm_cdw14 :: "int access"
  cm_cdw15 :: "int access"
  cm_prp1 :: "int access"
  cm_prp2 :: "int access"
  cm_rw_length :: "int access"   \<comment> \<open>\<open>cmd.rw.length\<close>\<close>

record nvme_completion =
  cq_status :: "int access"
  cq_result_u32 :: "int access"
  cq_result_u16 :: "int access"
  cq_command_id :: "int access"
  cq_sq_id :: "int access"
  cq_sq_head :: "int access"

record nvme_queue =
  nq_qid :: "int access"
  nq_q_depth :: "int access"
  nq_sq_tail :: "int access"
  nq_cq_head :: "int access"
  nq_sq_dma_addr :: "int access"
  nq_cq_dma_addr :: "int access"
  nq_sq_cmds :: "(int \<Rightarrow> nvme_command) access"
  nq_cqes :: "(int \<Rightarrow> nvme_completion) access"

text \<open>A request found by \<open>request_queue_busy_iter\<close>; \<open>rq_hctx\<close> is \<open>None\<close> for a null pointer.\<close>

record request =
  rq_tag :: "int access"
  rq_hctx :: "int access option access"
  rq_pdu :: "unit access"         \<comment> \<open>\<open>cast(..., blk_mq_rq_to_pdu(rq))\<close>\<close>
  rq_iod_total_len :: "int access"
  rq_blk_rq_bytes :: "int access"

text \<open>The iterator yields some requests and then stops or raises.\<close>

type_synonym busy_iter = "request list \<times> exn option"

record nvme_dev =
  dv_online_queues :: "int access"
  dv_nr_allocated_queues :: "int access option"   \<comment> \<open>\<open>None\<close>: no such attribute\<close>
  dv_model_number :: "pybytes access"
  dv_queues :: "int \<Rightarrow> nvme_queue access"
  dv_addr :: "int access"
  dv_bar :: "int access"
  dv_dbs :: "int access"

record gendisk =
  gd_name :: pybytes
  gd_dev :: "nvme_dev access"     \<comment> \<open>through \<open>private_data\<close>, \<open>ctrl\<close> and \<open>container_of\<close>\<close>
  gd_busy_driver :: busy_iter
  gd_busy_sched :: busy_iter

record kernel =
  kn_program :: "unit access"          \<comment> \<open>\<open>KernelSession.program()\<close>\<close>
  kn_disks :: "gendisk list access"    \<comment> \<open>\<open>for_each_disk\<close>\<close>
  kn_read_physical :: phys_reader
  kn_iommu_dir :: "pystr list option"  \<comment> \<open>\<open>/sys/class/iommu\<close> on the host\<close>

section \<open>Finding a controller\<close>

definition for_each_disk :: "kernel \<Rightarrow> gendisk list access" where
  "for_each_disk k = bindE (kn_program k) (\<lambda>_. kn_disks k)"

definition find_disk :: "kernel \<Rightarrow> pybytes \<Rightarrow> gendisk option access" where
  "find_disk k disk_name =
     bindE (for_each_disk k) (\<lambda>disks. Inr (find (\<lambda>d. gd_name d = disk_name) disks))"

definition instance_of :: "pystr \<Rightarrow> int access" where
  "instance_of device =
     (case re_dollar [Lit ''nvme'', Dec] device of
        Some [CInt n] \<Rightarrow> Inr n
      | _ \<Rightarrow> Inl (DeviceNotFoundError device))"

text \<open>\<open>_DISK_RE\<close>: controller instance and namespace id of a gendisk name.\<close>

definition disk_ids :: "pybytes \<Rightarrow> (int \<times> int) option" where
  "disk_ids name =
     (case re_dollar [Lit ''nvme'', Dec, Lit ''n'', Dec] name of
        Some [CInt inst, CInt nsid] \<Rightarrow> Some (inst, nsid)
      | _ \<Rightarrow> None)"

definition better_disk :: "int \<Rightarrow> (int \<times> gendisk) option \<Rightarrow> gendisk \<Rightarrow> (int \<times> gendisk) option" where
  "better_disk inst best disk =
     (case disk_ids (gd_name disk) of
        Some (i, nsid) \<Rightarrow>
          if i = inst \<and> (case best of None \<Rightarrow> True | Some (n, _) \<Rightarrow> nsid < n)
          then Some (nsid, disk) else best
      | None \<Rightarrow> best)"

definition find_any_namespace_disk :: "kernel \<Rightarrow> int \<Rightarrow> gendisk option access" where
  "find_any_namespace_disk k inst =
     bindE (for_each_disk k) (\<lambda>disks. Inr (map_option snd (foldl (better_disk inst) None disks)))"

definition lookup_device :: "kernel \<Rightarrow> pystr \<Rightarrow> (nvme_dev \<times> gendisk) access" where
  "lookup_device k device =
     bindE (instance_of device) (\<lambda>inst.
     bindE (find_any_namespace_disk k inst) (\<lambda>disk.
       case disk of
         None \<Rightarrow> Inl (DeviceNotFoundError device)
       | Some d \<Rightarrow> bindE (gd_dev d) (\<lambda>dev. Inr (dev, d))))"

definition list_devices :: "kernel \<Rightarrow> pystr list access" where
  "list_devices k =
     bindE (for_each_disk k) (\<lambda>disks.
       let instances = remdups (map fst (List.map_filter (disk_ids \<circ> gd_name) disks))
       in Inr (map (\<lambda>i. ''nvme'' @ int_dec i) (sort instances)))"

section \<open>Snapshots\<close>

text \<open>
  One pass of \<open>_inflight_by_hctx\<close>.  A \<open>FaultError\<close> or \<open>LookupError\<close> ends the pass and keeps what was
  counted so far; anything else propagates.
\<close>

fun count_busy :: "request list \<Rightarrow> exn option \<Rightarrow> (int, int) dict \<Rightarrow> (int, int) dict access" where
  "count_busy [] None bucket = Inr bucket"
| "count_busy [] (Some e) bucket = (if e \<in> {FaultError, LookupError} then Inr bucket else Inl e)"
| "count_busy (rq # rqs) stop bucket =
     (case rq_hctx rq of
        Inl e \<Rightarrow> if e \<in> {FaultError, LookupError} then Inr bucket else Inl e
      | Inr None \<Rightarrow> count_busy rqs stop bucket
      | Inr (Some (Inl e)) \<Rightarrow> if e \<in> {FaultError, LookupError} then Inr bucket else Inl e
      | Inr (Some (Inr idx)) \<Rightarrow>
          count_busy rqs stop (AList.update idx (dict_get bucket idx 0 + 1) bucket))"

definition inflight_by_hctx :: "gendisk \<Rightarrow> ((int, int) dict \<times> (int, int) dict) access" where
  "inflight_by_hctx disk =
     bindE (count_busy (fst (gd_busy_driver disk)) (snd (gd_busy_driver disk)) []) (\<lambda>driver.
     bindE (count_busy (fst (gd_busy_sched disk)) (snd (gd_busy_sched disk)) []) (\<lambda>sched.
       Inr (driver, sched)))"

definition queue_snapshot ::
  "nvme_dev \<Rightarrow> (int, int) dict \<Rightarrow> (int, int) dict \<Rightarrow> int \<Rightarrow> QueueSnapshot access" where
  "queue_snapshot dev driver_counts sched_counts qid =
     bindE (dv_queues dev qid) (\<lambda>nvmeq.
     bindE (nq_qid nvmeq) (\<lambda>q.
     bindE (nq_q_depth nvmeq) (\<lambda>depth.
     bindE (nq_sq_tail nvmeq) (\<lambda>sq_tail.
     bindE (nq_cq_head nvmeq) (\<lambda>cq_head.
     bindE (nq_sq_dma_addr nvmeq) (\<lambda>sq_dma.
     bindE (nq_cq_dma_addr nvmeq) (\<lambda>cq_dma.
       let is_admin = (qid = 0); hctx_index = (if is_admin then None else Some (qid - 1))
       in Inr \<lparr>qs_index = qid, qs_qid = q, qs_is_admin = is_admin, qs_depth = depth,
               qs_sq_tail = sq_tail, qs_cq_head = cq_head, qs_sq_dma_addr = sq_dma,
               qs_cq_dma_addr = cq_dma, qs_hctx_index = hctx_index,
               qs_inflight_driver =
                 (case hctx_index of None \<Rightarrow> 0 | Some h \<Rightarrow> dict_get driver_counts h 0),
               qs_inflight_sched =
                 (case hctx_index of None \<Rightarrow> 0 | Some h \<Rightarrow> dict_get sched_counts h 0)\<rparr>)))))))"

definition kind_drgn :: pystr where
  "kind_drgn = ''drgn''"

definition get_device_snapshot :: "kernel \<Rightarrow> pystr \<Rightarrow> DeviceSnapshot access" where
  "get_device_snapshot k device =
     bindE (lookup_device k device) (\<lambda>(dev, disk).
     bindE (dv_online_queues dev) (\<lambda>online.
     bindE (case dv_nr_allocated_queues dev of None \<Rightarrow> Inr online | Some n \<Rightarrow> n) (\<lambda>nr_alloc.
     let model = (case dv_model_number dev of Inl _ \<Rightarrow> ''?'' | Inr bs \<Rightarrow> strip (utf8_replace bs))
     in
     bindE (inflight_by_hctx disk) (\<lambda>(driver_counts, sched_counts).
     bindE (mapE (queue_snapshot dev driver_counts sched_counts) [0..online - 1]) (\<lambda>queues.
     bindE (dv_addr dev) (\<lambda>addr.
     bindE (dv_bar dev) (\<lambda>bar.
     bindE (dv_dbs dev) (\<lambda>dbs.
       Inr \<lparr>ds_name = device, ds_addr = addr, ds_model = model, ds_online_queues = online,
            ds_allocated_queues = nr_alloc, ds_bar_addr = bar, ds_dbs_addr = dbs,
            ds_iommu_enabled = iommu_enabled (kn_iommu_dir k), ds_backend_kind = kind_drgn,
            ds_queues = queues\<rparr>))))))))"

section \<open>Ring dumps\<close>

text \<open>The slots to dump: the window behind the doorbell, or the first slots of the ring.\<close>

definition dump_indices :: "int \<Rightarrow> int \<Rightarrow> int \<Rightarrow> bool \<Rightarrow> int list" where
  "dump_indices doorbell depth limit around_doorbell =
     (if around_doorbell
      then window_indices doorbell depth (if limit = 0 then 16 else limit)
      else [0..(if limit \<noteq> 0 then min limit depth else depth) - 1])"

text \<open>A loop body inside \<open>try ... except FaultError: continue\<close>.\<close>

fun collect_readable :: "('a \<Rightarrow> 'b access) \<Rightarrow> 'a list \<Rightarrow> 'b list access" where
  "collect_readable f [] = Inr []"
| "collect_readable f (x # xs) =
     (case f x of
        Inr y \<Rightarrow> bindE (collect_readable f xs) (\<lambda>ys. Inr (y # ys))
      | Inl e \<Rightarrow> if e = FaultError then collect_readable f xs else Inl e)"

definition queue_entry :: "bool \<Rightarrow> (int \<Rightarrow> nvme_command) \<Rightarrow> int \<Rightarrow> QueueEntry access" where
  "queue_entry is_admin sqc i =
     (let common = sqc i in
     bindE (cm_opcode common) (\<lambda>opcode.
     bindE (cm_flags common) (\<lambda>flags.
     bindE (cdw2_cdw3 (cm_cdw2 common) (cm_cdw3 common) (cm_cdw2_0 common) (cm_cdw2_1 common))
       (\<lambda>(cdw2, cdw3).
     bindE (cm_command_id common) (\<lambda>cid.
     bindE (cm_nsid common) (\<lambda>nsid.
     bindE (cm_cdw10 common) (\<lambda>cdw10.
     bindE (cm_cdw11 common) (\<lambda>cdw11.
     bindE (cm_cdw12 common) (\<lambda>cdw12.
     bindE (cm_cdw13 common) (\<lambda>cdw13.
     bindE (cm_cdw14 common) (\<lambda>cdw14.
     bindE (cm_cdw15 common) (\<lambda>cdw15.
     bindE (cm_prp1 common) (\<lambda>prp1.
     bindE (cm_prp2 common) (\<lambda>prp2.
       Inr \<lparr>qe_index = i, qe_cid = cid, qe_opcode = opcode,
            qe_opcode_name = opcode_name opcode is_admin, qe_nsid = nsid, qe_flags = flags,
            qe_uses_sgl = ((drop_bit 6 flags AND 0x3) \<noteq> 0), qe_cdw2 = cdw2, qe_cdw3 = cdw3,
            qe_cdw10 = cdw10, qe_cdw11 = cdw11, qe_cdw12 = cdw12, qe_cdw13 = cdw13,
            qe_cdw14 = cdw14, qe_cdw15 = cdw15, qe_prp1 = prp1, qe_prp2 = prp2\<rparr>))))))))))))))"

definition find_queue :: "nvme_dev \<Rightarrow> int \<Rightarrow> nvme_queue access" where
  "find_queue dev qid =
     bindE (dv_online_queues dev) (\<lambda>online.
       if \<not> (0 \<le> qid \<and> qid < online) then Inl (QueueNotFoundError qid) else dv_queues dev qid)"

definition get_queue_entries ::
  "kernel \<Rightarrow> pystr \<Rightarrow> int \<Rightarrow> int \<Rightarrow> bool \<Rightarrow> QueueEntry list access" where
  "get_queue_entries k device qid limit around_doorbell =
     bindE (lookup_device k device) (\<lambda>(dev, disk).
     bindE (find_queue dev qid) (\<lambda>nvmeq.
     bindE (nq_q_depth nvmeq) (\<lambda>depth.
     bindE (if around_doorbell then nq_sq_tail nvmeq else Inr 0) (\<lambda>doorbell.
     bindE (nq_sq_cmds nvmeq) (\<lambda>sqc.
       collect_readable (queue_entry (qid = 0) sqc)
         (dump_indices doorbell depth limit around_doorbell))))))"

definition completion_entry :: "(int \<Rightarrow> nvme_completion) \<Rightarrow> int \<Rightarrow> CompletionEntry access" where
  "completion_entry cqes i =
     (let cqe = cqes i in
     bindE (cq_status cqe) (\<lambda>status_raw.
     bindE (case cq_result_u32 cqe of
              Inr r \<Rightarrow> Inr r
            | Inl e \<Rightarrow> if e \<in> {AttributeError, LookupError, TypeError} then cq_result_u16 cqe else Inl e)
       (\<lambda>result.
     bindE (cq_command_id cqe) (\<lambda>command_id.
     bindE (cq_sq_id cqe) (\<lambda>sq_id.
     bindE (cq_sq_head cqe) (\<lambda>sq_head.
       Inr \<lparr>ce_index = i, ce_command_id = command_id, ce_sq_id = sq_id, ce_sq_head = sq_head,
            ce_status_raw = status_raw, ce_phase = ((status_raw AND 0x1) \<noteq> 0),
            ce_status_code = drop_bit 1 status_raw AND 0xFF,
            ce_status_code_type = drop_bit 9 status_raw AND 0x7, ce_result = result\<rparr>))))))"

definition get_completion_entries ::
  "kernel \<Rightarrow> pystr \<Rightarrow> int \<Rightarrow> int \<Rightarrow> bool \<Rightarrow> CompletionEntry list access" where
  "get_completion_entries k device qid limit around_doorbell =
     bindE (lookup_device k device) (\<lambda>(dev, disk).
     bindE (find_queue dev qid) (\<lambda>nvmeq.
     bindE (nq_q_depth nvmeq) (\<lambda>depth.
     bindE (if around_doorbell then nq_cq_head nvmeq else Inr 0) (\<lambda>doorbell.
     bindE (nq_cqes nvmeq) (\<lambda>cqes.
       collect_readable (completion_entry cqes)
         (dump_indices doorbell depth limit around_doorbell))))))"

section \<open>PRP payloads\<close>

text \<open>
  The search for the in-flight request: its length, or \<open>None\<close> when no request matches or the walk
  ends in a \<open>FaultError\<close> or \<open>LookupError\<close>.
\<close>

definition stop_search :: "exn \<Rightarrow> 'a option access" where
  "stop_search e = (if e \<in> {FaultError, LookupError} then Inr None else Inl e)"

definition request_len :: "request \<Rightarrow> (int \<times> message option) option access" where
  "request_len rq =
     (case rq_pdu rq of
        Inl e \<Rightarrow> stop_search e
      | Inr _ \<Rightarrow>
          (case rq_iod_total_len rq of
             Inr n \<Rightarrow> Inr (Some (n, None))
           | Inl e \<Rightarrow>
               if e \<in> {AttributeError, FaultError}
               then (case rq_blk_rq_bytes rq of
                       Inr n \<Rightarrow> Inr (Some (n, Some MsgBlkRqBytes))
                     | Inl e' \<Rightarrow> stop_search e')
               else stop_search e))"

text \<open>Whether the request belongs to the hardware queue; the admin queue takes any.\<close>

definition on_hctx :: "int option \<Rightarrow> request \<Rightarrow> bool access" where
  "on_hctx hctx_index rq =
     (case hctx_index of
        None \<Rightarrow> Inr True
      | Some h \<Rightarrow>
          bindE (rq_hctx rq) (\<lambda>hctx.
            case hctx of
              None \<Rightarrow> Inr False
            | Some q \<Rightarrow> bindE q (\<lambda>n. Inr (n = h))))"

fun inflight_len ::
  "int option \<Rightarrow> int \<Rightarrow> request list \<Rightarrow> exn option \<Rightarrow> (int \<times> message option) option access" where
  "inflight_len hctx_index cid [] None = Inr None"
| "inflight_len hctx_index cid [] (Some e) = stop_search e"
| "inflight_len hctx_index cid (rq # rqs) stop =
     (case rq_tag rq of
        Inl e \<Rightarrow> stop_search e
      | Inr tag \<Rightarrow>
          if tag \<noteq> cid then inflight_len hctx_index cid rqs stop
          else (case on_hctx hctx_index rq of
                  Inl e \<Rightarrow> stop_search e
                | Inr False \<Rightarrow> inflight_len hctx_index cid rqs stop
                | Inr True \<Rightarrow> request_len rq))"

definition estimated_len :: "nvme_command \<Rightarrow> bool \<Rightarrow> (int \<times> message option) access" where
  "estimated_len cmd is_admin =
     bindE (cm_opcode cmd) (\<lambda>opcode.
       if \<not> is_admin \<and> opcode \<in> {0x01, 0x02} then
         bindE (case cm_rw_length cmd of
                  Inr nlb \<Rightarrow> Inr nlb
                | Inl _ \<Rightarrow> bindE (cm_cdw12 cmd) (\<lambda>c. Inr (c AND 0xFFFF)))
           (\<lambda>nlb. Inr ((nlb + 1) * 512, Some MsgLenFromNlb))
       else if is_admin \<and> opcode = 0x06 then Inr (PAGE_SIZE, None)
       else if is_admin \<and> opcode = 0x02 then
         bindE (cm_cdw10 cmd) (\<lambda>cdw10.
         bindE (cm_cdw11 cmd) (\<lambda>cdw11.
           let numdl = drop_bit 16 cdw10 AND 0xFFFF; numdu = cdw11 AND 0xFFFF;
               ndw = (push_bit 16 numdu OR numdl) + 1
           in Inr (ndw * 4, None)))
       else Inr (0, Some MsgLenUnknown))"

definition resolve_total_len ::
  "gendisk \<Rightarrow> int \<Rightarrow> int \<Rightarrow> nvme_command \<Rightarrow> bool \<Rightarrow> (int \<times> message option) access" where
  "resolve_total_len disk qid cid cmd is_admin =
     bindE (inflight_len (if is_admin then None else Some (qid - 1)) cid
              (fst (gd_busy_driver disk)) (snd (gd_busy_driver disk)))
       (\<lambda>found. case found of Some r \<Rightarrow> Inr r | None \<Rightarrow> estimated_len cmd is_admin)"

text \<open>The first slot whose command id is \<open>cid\<close>; unreadable slots are skipped.\<close>

fun find_command :: "(int \<Rightarrow> nvme_command) \<Rightarrow> int \<Rightarrow> int list \<Rightarrow> nvme_command option access" where
  "find_command sqc cid [] = Inr None"
| "find_command sqc cid (i # is) =
     (case cm_command_id (sqc i) of
        Inr c \<Rightarrow> if c = cid then Inr (Some (sqc i)) else find_command sqc cid is
      | Inl e \<Rightarrow> if e = FaultError then find_command sqc cid is else Inl e)"

definition get_prp_payload :: "kernel \<Rightarrow> pystr \<Rightarrow> int \<Rightarrow> int \<Rightarrow> PrpPayload access" where
  "get_prp_payload k device qid cid =
     bindE (kn_program k) (\<lambda>_.
     bindE (lookup_device k device) (\<lambda>(dev, disk).
     bindE (find_queue dev qid) (\<lambda>nvmeq.
     bindE (nq_q_depth nvmeq) (\<lambda>depth.
     bindE (nq_sq_cmds nvmeq) (\<lambda>sqc.
     bindE (find_command sqc cid [0..depth - 1]) (\<lambda>found.
       let payload = \<lparr>pl_device = device, pl_qid = qid, pl_cid = cid, pl_uses_sgl = False,
                      pl_total_len = 0, pl_pages = [], pl_error = None\<rparr>
       in case found of
            None \<Rightarrow> Inr (payload\<lparr>pl_error := Some (MsgCidNotInRing cid depth)\<rparr>)
          | Some cmd \<Rightarrow>
              bindE (cm_flags cmd) (\<lambda>flags.
                if (drop_bit 6 flags AND 0x3) \<noteq> 0 then Inr (payload\<lparr>pl_uses_sgl := True\<rparr>)
                else
                  bindE (cm_prp1 cmd) (\<lambda>prp1.
                  bindE (cm_prp2 cmd) (\<lambda>prp2.
                  bindE (resolve_total_len disk qid cid cmd (qid = 0)) (\<lambda>(total_len, note).
                    if iommu_enabled (kn_iommu_dir k)
                    then Inr (payload\<lparr>pl_total_len := total_len, pl_error := Some MsgIommuOn\<rparr>)
                    else Inr (payload\<lparr>pl_total_len := total_len,
                           pl_pages := (if total_len > 0
                             then decode_prp_pages (kn_read_physical k) prp1 prp2 total_len else []),
                           pl_error := note\<rparr>)))))))))))"

section \<open>Discovery\<close>

lemma instance_of_name: "0 \<le> i \<Longrightarrow> instance_of (''nvme'' @ int_dec i) = Inr i"
  using take_dec_int_dec [of i "[]"] by (simp add: instance_of_def re_dollar_def)

definition serves :: "int \<Rightarrow> gendisk \<Rightarrow> int \<Rightarrow> bool" where
  "serves inst disk nsid \<longleftrightarrow> disk_ids (gd_name disk) = Some (inst, nsid)"

text \<open>The fold keeps the disk with the least namespace id seen so far.\<close>

definition best_of :: "int \<Rightarrow> gendisk list \<Rightarrow> (int \<times> gendisk) option \<Rightarrow> bool" where
  "best_of inst disks best \<longleftrightarrow>
     (case best of
        None \<Rightarrow> \<forall>d \<in> set disks. \<forall>n. \<not> serves inst d n
      | Some (n, d) \<Rightarrow> d \<in> set disks \<and> serves inst d n \<and>
          (\<forall>d' \<in> set disks. \<forall>n'. serves inst d' n' \<longrightarrow> n \<le> n'))"

lemma best_of_step: "best_of inst ds best \<Longrightarrow> best_of inst (ds @ [d]) (better_disk inst best d)"
  by (auto simp: best_of_def better_disk_def serves_def split: option.splits if_splits)

lemma best_of_foldl: "best_of inst disks (foldl (better_disk inst) None disks)"
  by (induction disks rule: rev_induct) (simp_all add: best_of_def [of _ "[]"] best_of_step)

lemma disk_ids_nonneg: "disk_ids name = Some (i, n) \<Longrightarrow> 0 \<le> i"
  by (auto simp: disk_ids_def re_dollar_def take_dec_def Let_def
      split: option.splits list.splits capture.splits if_splits)

lemma listed_instances:
  "i \<in> set (map fst (List.map_filter (disk_ids \<circ> gd_name) disks)) \<longleftrightarrow>
   (\<exists>d \<in> set disks. \<exists>n. serves i d n)"
  by (force simp: List.map_filter_def serves_def)

text \<open>
  Discovery and lookup agree.  The listed controllers are those with at least one namespace
  disk, each once and in the order of their numbers; and looking a listed name up always reaches a
  disk of that controller, the one with its least namespace id, never \<open>DeviceNotFoundError\<close>.
\<close>

theorem listed_devices_found:
  assumes "for_each_disk k = Inr disks"
  shows "\<exists>is. list_devices k = Inr (map (\<lambda>i. ''nvme'' @ int_dec i) is) \<and> sorted_wrt (<) is \<and>
    (\<forall>i. i \<in> set is \<longleftrightarrow> (\<exists>d \<in> set disks. \<exists>n. serves i d n)) \<and>
    (\<forall>i \<in> set is. \<exists>d \<in> set disks. \<exists>n. serves i d n \<and>
      (\<forall>d' \<in> set disks. \<forall>n'. serves i d' n' \<longrightarrow> n \<le> n') \<and>
      lookup_device k (''nvme'' @ int_dec i) = bindE (gd_dev d) (\<lambda>dev. Inr (dev, d)))"
proof -
  let ?is = "sort (remdups (map fst (List.map_filter (disk_ids \<circ> gd_name) disks)))"
  have list: "list_devices k = Inr (map (\<lambda>i. ''nvme'' @ int_dec i) ?is)"
    by (simp add: list_devices_def assms Let_def)
  have sorted: "sorted_wrt (<) ?is" by (simp add: strict_sorted_iff)
  have mem: "i \<in> set ?is \<longleftrightarrow> (\<exists>d \<in> set disks. \<exists>n. serves i d n)" for i
    using listed_instances [of i disks] by simp
  have found: "\<exists>d \<in> set disks. \<exists>n. serves i d n \<and>
      (\<forall>d' \<in> set disks. \<forall>n'. serves i d' n' \<longrightarrow> n \<le> n') \<and>
      lookup_device k (''nvme'' @ int_dec i) = bindE (gd_dev d) (\<lambda>dev. Inr (dev, d))"
    if "i \<in> set ?is" for i
  proof -
    from that mem obtain d0 n0 where d0: "d0 \<in> set disks" "serves i d0 n0" by blast
    then have "0 \<le> i" using disk_ids_nonneg by (auto simp: serves_def)
    from d0 best_of_foldl [of i disks] obtain n d where
      best: "foldl (better_disk i) None disks = Some (n, d)" "d \<in> set disks" "serves i d n"
        "\<forall>d' \<in> set disks. \<forall>n'. serves i d' n' \<longrightarrow> n \<le> n'"
      unfolding best_of_def by (auto split: option.splits)
    then have "lookup_device k (''nvme'' @ int_dec i) = bindE (gd_dev d) (\<lambda>dev. Inr (dev, d))"
      using instance_of_name [OF \<open>0 \<le> i\<close>]
      by (simp add: lookup_device_def find_any_namespace_disk_def assms)
    with best show ?thesis by blast
  qed
  from list sorted mem found show ?thesis by blast
qed

section \<open>Ring dumps\<close>

definition readable :: "'b access \<Rightarrow> 'b option" where
  "readable r = (case r of Inl _ \<Rightarrow> None | Inr y \<Rightarrow> Some y)"

lemma collect_readable_result:
  "collect_readable f xs = Inr ys \<Longrightarrow>
   ys = List.map_filter (readable \<circ> f) xs \<and> (\<forall>x \<in> set xs. f x \<noteq> Inl FaultError \<longrightarrow> \<not> isl (f x))"
  by (induction xs arbitrary: ys)
    (auto simp: readable_def bindE_Inr List.map_filter_simps split: sum.splits if_splits)

lemma queue_entry_index: "queue_entry adm sqc i = Inr e \<Longrightarrow> qe_index e = i"
  by (auto simp: queue_entry_def bindE_Inr Let_def)

lemma div_512: "(x :: int) div 512 = x div 2 div 256"
  using zdiv_zmult2_eq [of 256 x 2] by simp

lemma completion_entry_status:
  "completion_entry cqes i = Inr e \<Longrightarrow>
   ce_index e = i \<and> ce_phase e = odd (ce_status_raw e) \<and>
   ce_status_code e = st_sc (decode_status (ce_status_raw e div 2)) \<and>
   ce_status_code_type e = st_sct (decode_status (ce_status_raw e div 2))"
  by (auto simp: completion_entry_def bindE_Inr Let_def bit_field decode_status_fields
      odd_iff_mod_2_eq_one div_512)

lemma find_queue_Inr:
  "find_queue dev qid = Inr q \<longleftrightarrow>
   (\<exists>online. dv_online_queues dev = Inr online \<and> 0 \<le> qid \<and> qid < online \<and> dv_queues dev qid = Inr q)"
  by (auto simp: find_queue_def bindE_Inr split: if_splits)

lemma map_filter_index:
  assumes "\<And>i e. f i = Some e \<Longrightarrow> idx e = i"
  shows "map idx (List.map_filter f is) = filter (\<lambda>i. f i \<noteq> None) is"
  using assms by (induction "is") (auto simp: List.map_filter_simps split: option.splits)

text \<open>
  C27: a submission queue dump.  When the call returns, the queue id is valid and the entries are those of
  the window behind the doorbell (or of the first slots), in that order, with exactly the slots left
  out whose memory faulted; no other slot appears and no exception but \<open>FaultError\<close> is swallowed.
\<close>

theorem queue_entries_dump:
  assumes "get_queue_entries k device qid limit around = Inr es"
  shows "\<exists>dev disk online nvmeq depth doorbell sqc.
    lookup_device k device = Inr (dev, disk) \<and> dv_online_queues dev = Inr online \<and>
    0 \<le> qid \<and> qid < online \<and> dv_queues dev qid = Inr nvmeq \<and> nq_q_depth nvmeq = Inr depth \<and>
    (around \<longrightarrow> nq_sq_tail nvmeq = Inr doorbell) \<and> nq_sq_cmds nvmeq = Inr sqc \<and>
    map qe_index es = filter (\<lambda>i. queue_entry (qid = 0) sqc i \<noteq> Inl FaultError)
      (dump_indices doorbell depth limit around) \<and>
    (\<forall>e \<in> set es. queue_entry (qid = 0) sqc (qe_index e) = Inr e)"
proof -
  from assms obtain dev disk nvmeq depth doorbell sqc online where
    r: "lookup_device k device = Inr (dev, disk)" "dv_online_queues dev = Inr online"
      "0 \<le> qid" "qid < online" "dv_queues dev qid = Inr nvmeq" "nq_q_depth nvmeq = Inr depth"
      "(if around then nq_sq_tail nvmeq else Inr 0) = Inr doorbell" "nq_sq_cmds nvmeq = Inr sqc"
    and c: "collect_readable (queue_entry (qid = 0) sqc) (dump_indices doorbell depth limit around) = Inr es"
    by (auto simp: get_queue_entries_def find_queue_Inr bindE_Inr)
  let ?f = "readable \<circ> queue_entry (qid = 0) sqc" and ?is = "dump_indices doorbell depth limit around"
  from collect_readable_result [OF c] have es: "es = List.map_filter ?f ?is"
    and fault: "\<forall>i \<in> set ?is. queue_entry (qid = 0) sqc i \<noteq> Inl FaultError \<longrightarrow>
      \<not> isl (queue_entry (qid = 0) sqc i)" by auto
  have "map qe_index es = filter (\<lambda>i. ?f i \<noteq> None) ?is"
    unfolding es
    by (rule map_filter_index) (auto simp: readable_def queue_entry_index split: sum.splits)
  also have "\<dots> = filter (\<lambda>i. queue_entry (qid = 0) sqc i \<noteq> Inl FaultError) ?is"
    using fault by (intro filter_cong) (auto simp: readable_def split: sum.splits)
  finally have idx: "map qe_index es =
      filter (\<lambda>i. queue_entry (qid = 0) sqc i \<noteq> Inl FaultError) ?is" .
  have "\<forall>e \<in> set es. queue_entry (qid = 0) sqc (qe_index e) = Inr e"
    unfolding es List.map_filter_def
    by (auto simp: readable_def queue_entry_index split: sum.splits)
  moreover from r(7) have "around \<longrightarrow> nq_sq_tail nvmeq = Inr doorbell" by auto
  ultimately show ?thesis using r(1-6) r(8) idx by blast
qed

text \<open>
  A completion queue dump agrees with the status decoder used for error events: the status code
  and its type are the fields of the raw status without its phase bit.
\<close>

theorem completion_entries_status:
  assumes "get_completion_entries k device qid limit around = Inr es" and "e \<in> set es"
  shows "ce_phase e = odd (ce_status_raw e) \<and>
    ce_status_code e = st_sc (decode_status (ce_status_raw e div 2)) \<and>
    ce_status_code_type e = st_sct (decode_status (ce_status_raw e div 2)) \<and>
    0 \<le> ce_status_code e \<and> ce_status_code e < 256 \<and>
    0 \<le> ce_status_code_type e \<and> ce_status_code_type e < 8"
proof -
  from assms(1) obtain cqes "is" where "collect_readable (completion_entry cqes) is = Inr es"
    by (auto simp: get_completion_entries_def bindE_Inr)
  from collect_readable_result [OF this] assms(2) obtain i where "completion_entry cqes i = Inr e"
    by (auto simp: List.map_filter_def readable_def split: sum.splits)
  from completion_entry_status [OF this] decode_status_ranges [of "ce_status_raw e div 2"]
  show ?thesis by simp
qed

section \<open>In-flight counters\<close>

text \<open>The hardware queues of the busy requests, when every access succeeds.\<close>

definition hctx_of :: "request \<Rightarrow> int option" where
  "hctx_of rq = (case rq_hctx rq of Inr (Some (Inr h)) \<Rightarrow> Some h | _ \<Rightarrow> None)"

definition hctx_readable :: "request \<Rightarrow> bool" where
  "hctx_readable rq \<longleftrightarrow> (case rq_hctx rq of Inl _ \<Rightarrow> False | Inr None \<Rightarrow> True | Inr (Some q) \<Rightarrow> \<not> isl q)"

lemma count_busy_exact:
  "\<forall>rq \<in> set rqs. hctx_readable rq \<Longrightarrow>
   \<exists>b. count_busy rqs None bucket = Inr b \<and>
     (\<forall>h. dict_get b h 0 = dict_get bucket h 0 + int (length (filter (\<lambda>rq. hctx_of rq = Some h) rqs)))"
proof (induction rqs arbitrary: bucket)
  case (Cons rq rqs)
  show ?case
  proof (cases "hctx_of rq")
    case None
    moreover have "hctx_readable rq" using Cons.prems by simp
    ultimately have "rq_hctx rq = Inr None"
      by (auto simp: hctx_of_def hctx_readable_def isl_def split: sum.splits option.splits)
    with Cons None show ?thesis by simp
  next
    case (Some h)
    let ?b = "AList.update h (dict_get bucket h 0 + 1) bucket"
    from Cons obtain b where b: "count_busy rqs None ?b = Inr b"
      "\<forall>h. dict_get b h 0 = dict_get ?b h 0 + int (length (filter (\<lambda>rq. hctx_of rq = Some h) rqs))"
      by force
    from Some have "rq_hctx rq = Inr (Some (Inr h))"
      by (auto simp: hctx_of_def split: sum.splits option.splits)
    with b Some show ?thesis by (auto simp: dict_simps)
  qed
qed simp

lemma mapE_Inr:
  "mapE f xs = Inr ys \<Longrightarrow> length ys = length xs \<and> (\<forall>i < length xs. f (xs ! i) = Inr (ys ! i))"
  by (induction xs arbitrary: ys) (auto simp: bindE_Inr nth_Cons split: nat.splits)

lemma queue_snapshot_fields:
  "queue_snapshot dev dc sc qid = Inr s \<Longrightarrow>
   qs_index s = qid \<and> qs_is_admin s = (qid = 0) \<and>
   qs_hctx_index s = (if qid = 0 then None else Some (qid - 1)) \<and>
   qs_inflight_driver s = (if qid = 0 then 0 else dict_get dc (qid - 1) 0) \<and>
   qs_inflight_sched s = (if qid = 0 then 0 else dict_get sc (qid - 1) 0)"
  by (auto simp: queue_snapshot_def bindE_Inr Let_def)

text \<open>
  Queue snapshots.  A snapshot lists the online queues \<open>0, ..., n - 1\<close> in order, queue 0 is the admin
  queue, and when the walk over the busy requests meets no error, the driver's in-flight number of
  I/O queue \<open>q\<close> is exactly the number of busy requests on hardware queue \<open>q - 1\<close>.
\<close>

theorem device_snapshot_inflight:
  assumes "get_device_snapshot k device = Inr snap" and "lookup_device k device = Inr (dev, disk)"
    and "snd (gd_busy_driver disk) = None" and "\<forall>rq \<in> set (fst (gd_busy_driver disk)). hctx_readable rq"
  shows "length (ds_queues snap) = nat (ds_online_queues snap) \<and>
    (\<forall>i < length (ds_queues snap). qs_index (ds_queues snap ! i) = int i \<and>
      qs_is_admin (ds_queues snap ! i) = (i = 0) \<and>
      qs_inflight_driver (ds_queues snap ! i) =
        (if i = 0 then 0 else int (length
          (filter (\<lambda>rq. hctx_of rq = Some (int i - 1)) (fst (gd_busy_driver disk))))))"
proof -
  from assms(1,2) obtain online dc sc where
    infl: "inflight_by_hctx disk = Inr (dc, sc)"
    and qs: "mapE (queue_snapshot dev dc sc) [0..online - 1] = Inr (ds_queues snap)"
    and online: "ds_online_queues snap = online"
    by (auto simp: get_device_snapshot_def bindE_Inr Let_def)
  from infl have "count_busy (fst (gd_busy_driver disk)) None [] = Inr dc"
    using assms(3) by (auto simp: inflight_by_hctx_def bindE_Inr)
  with count_busy_exact [OF assms(4), of "[]"]
  have dc: "dict_get dc h 0 = int (length (filter (\<lambda>rq. hctx_of rq = Some h) (fst (gd_busy_driver disk))))"
    for h by (auto simp: dict_get_def [of "[]"])
  from mapE_Inr [OF qs] have len: "length (ds_queues snap) = nat online"
    and each: "\<forall>i < nat online. queue_snapshot dev dc sc (int i) = Inr (ds_queues snap ! i)"
    by auto
  have "qs_index (ds_queues snap ! i) = int i \<and> qs_is_admin (ds_queues snap ! i) = (i = 0) \<and>
      qs_inflight_driver (ds_queues snap ! i) =
        (if i = 0 then 0 else int (length
          (filter (\<lambda>rq. hctx_of rq = Some (int i - 1)) (fst (gd_busy_driver disk)))))"
    if "i < nat online" for i
    using queue_snapshot_fields [OF each [rule_format, OF that]] by (simp add: dc)
  with len online show ?thesis by simp
qed

section \<open>Payload safety\<close>

text \<open>
  C26: no dump of misread memory.  With the IOMMU on, the answer of \<open>get_prp_payload\<close> does not depend
  on physical memory at all: replacing what physical reads return changes nothing, and the payload has
  no page; a PRP command is reported with the reason.
\<close>

theorem iommu_payload_reads_nothing:
  assumes "iommu_enabled (kn_iommu_dir k)"
  shows "get_prp_payload (k\<lparr>kn_read_physical := rd\<rparr>) device qid cid = get_prp_payload k device qid cid \<and>
    (\<forall>p. get_prp_payload k device qid cid = Inr p \<longrightarrow> pl_pages p = [] \<and>
      (pl_uses_sgl p \<and> pl_error p = None \<or> pl_error p = Some MsgIommuOn \<or>
       (\<exists>depth. pl_error p = Some (MsgCidNotInRing cid depth))))"
proof -
  have "lookup_device (k\<lparr>kn_read_physical := rd\<rparr>) device = lookup_device k device"
    by (simp add: lookup_device_def find_any_namespace_disk_def for_each_disk_def)
  then have "get_prp_payload (k\<lparr>kn_read_physical := rd\<rparr>) device qid cid = get_prp_payload k device qid cid"
    using assms by (simp add: get_prp_payload_def Let_def cong: option.case_cong if_cong)
  moreover have "pl_pages p = [] \<and>
      (pl_uses_sgl p \<and> pl_error p = None \<or> pl_error p = Some MsgIommuOn \<or>
       (\<exists>depth. pl_error p = Some (MsgCidNotInRing cid depth)))"
    if "get_prp_payload k device qid cid = Inr p" for p
    using that assms
    by (auto simp: get_prp_payload_def bindE_Inr Let_def split: option.splits if_splits)
  ultimately show ?thesis by blast
qed

section \<open>A sample kernel\<close>

text \<open>
  One controller with an admin and one I/O queue; slot 1 of the submission ring faults.  It shows that the
  hypotheses above can hold together.
\<close>

definition sample_command :: "int \<Rightarrow> nvme_command" where
  "sample_command i =
     \<lparr>cm_opcode = (if i = 1 then Inl FaultError else Inr 2), cm_flags = Inr 0,
      cm_command_id = Inr (100 + i), cm_nsid = Inr 1, cm_cdw2 = Inl TypeError,
      cm_cdw3 = Inl AttributeError, cm_cdw2_0 = Inr 0, cm_cdw2_1 = Inr 0, cm_cdw10 = Inr 8,
      cm_cdw11 = Inr 0, cm_cdw12 = Inr 7, cm_cdw13 = Inr 0, cm_cdw14 = Inr 0, cm_cdw15 = Inr 0,
      cm_prp1 = Inr 4096, cm_prp2 = Inr 8192, cm_rw_length = Inr 7\<rparr>"

definition sample_completion :: "int \<Rightarrow> nvme_completion" where
  "sample_completion i =
     \<lparr>cq_status = Inr 0x103, cq_result_u32 = Inl AttributeError, cq_result_u16 = Inr 5,
      cq_command_id = Inr i, cq_sq_id = Inr 1, cq_sq_head = Inr 2\<rparr>"

definition sample_queue :: "int \<Rightarrow> nvme_queue" where
  "sample_queue q =
     \<lparr>nq_qid = Inr q, nq_q_depth = Inr 4, nq_sq_tail = Inr 3, nq_cq_head = Inr 2,
      nq_sq_dma_addr = Inr 0, nq_cq_dma_addr = Inr 0, nq_sq_cmds = Inr sample_command,
      nq_cqes = Inr sample_completion\<rparr>"

definition sample_dev :: nvme_dev where
  "sample_dev =
     \<lparr>dv_online_queues = Inr 2, dv_nr_allocated_queues = None, dv_model_number = Inr ''QEMU'',
      dv_queues = (\<lambda>q. Inr (sample_queue q)), dv_addr = Inr 0, dv_bar = Inr 0, dv_dbs = Inr 0\<rparr>"

definition sample_disk :: gendisk where
  "sample_disk =
     \<lparr>gd_name = ''nvme0n1'', gd_dev = Inr sample_dev,
      gd_busy_driver = ([\<lparr>rq_tag = Inr 7, rq_hctx = Inr (Some (Inr 0)), rq_pdu = Inr (),
        rq_iod_total_len = Inr 512, rq_blk_rq_bytes = Inr 512\<rparr>], None),
      gd_busy_sched = ([], Some LookupError)\<rparr>"

definition sample_kernel :: kernel where
  "sample_kernel =
     \<lparr>kn_program = Inr (), kn_disks = Inr [sample_disk], kn_read_physical = (\<lambda>a n. Inl FaultError),
      kn_iommu_dir = Some [''dmar0'']\<rparr>"

lemma sample_lookup: "lookup_device sample_kernel ''nvme0'' = Inr (sample_dev, sample_disk)"
proof -
  have "instance_of ''nvme0'' = Inr 0" "disk_ids ''nvme0n1'' = Some (0, 1)" by code_simp+
  then show ?thesis
    by (simp add: lookup_device_def find_any_namespace_disk_def for_each_disk_def sample_kernel_def
        better_disk_def sample_disk_def)
qed

theorem listed_devices_found_witness:
  "\<exists>is. list_devices sample_kernel = Inr (map (\<lambda>i. ''nvme'' @ int_dec i) is) \<and> sorted_wrt (<) is"
  using listed_devices_found [of sample_kernel "[sample_disk]"]
  by (simp add: for_each_disk_def sample_kernel_def) blast

lemmas sample_defs = sample_dev_def sample_queue_def sample_command_def sample_completion_def

lemma sample_entries:
  "map_option (map qe_index) (readable (get_queue_entries sample_kernel ''nvme0'' 1 3 True)) = Some [2, 0]"
  by code_simp

theorem queue_entries_dump_witness:
  "\<exists>es doorbell depth sqc. get_queue_entries sample_kernel ''nvme0'' 1 3 True = Inr es \<and>
    map qe_index es = filter (\<lambda>i. queue_entry False sqc i \<noteq> Inl FaultError)
      (dump_indices doorbell depth 3 True) \<and> map qe_index es = [2, 0]"
proof -
  from sample_entries obtain es where
    es: "get_queue_entries sample_kernel ''nvme0'' 1 3 True = Inr es" "map qe_index es = [2, 0]"
    by (auto simp: readable_def split: sum.splits)
  from queue_entries_dump [OF es(1)] es show ?thesis by auto
qed

theorem completion_entries_status_witness:
  "\<exists>es e. get_completion_entries sample_kernel ''nvme0'' 1 3 True = Inr es \<and> e \<in> set es \<and>
    ce_status_code e = st_sc (decode_status (ce_status_raw e div 2))"
proof -
  have "map_option length (readable (get_completion_entries sample_kernel ''nvme0'' 1 3 True)) = Some 3"
    by code_simp
  then obtain es where
    es: "get_completion_entries sample_kernel ''nvme0'' 1 3 True = Inr es" "length es = 3"
    by (auto simp: readable_def split: sum.splits)
  then have "hd es \<in> set es" by (cases es) auto
  with completion_entries_status [OF es(1) this] es(1) show ?thesis by blast
qed

theorem device_snapshot_inflight_witness:
  "\<exists>snap. get_device_snapshot sample_kernel ''nvme0'' = Inr snap \<and>
    length (ds_queues snap) = nat (ds_online_queues snap)"
proof -
  have "map_option ds_online_queues (readable (get_device_snapshot sample_kernel ''nvme0'')) = Some 2"
    by code_simp
  then obtain snap where s: "get_device_snapshot sample_kernel ''nvme0'' = Inr snap"
    by (auto simp: readable_def split: sum.splits)
  from device_snapshot_inflight [OF s sample_lookup] s show ?thesis
    by (auto simp: sample_disk_def hctx_readable_def)
qed

theorem iommu_payload_reads_nothing_witness:
  "get_prp_payload (sample_kernel\<lparr>kn_read_physical := \<lambda>a n. Inr []\<rparr>) ''nvme0'' 1 102 =
   get_prp_payload sample_kernel ''nvme0'' 1 102"
  using iommu_payload_reads_nothing [of sample_kernel "\<lambda>a n. Inr []" "''nvme0''" 1 102]
  by (simp add: iommu_enabled_def sample_kernel_def)

end
