(* ===== verification/TreeWalk.thy ===== *)
theory TreeWalk
  imports QueueService
begin

text \<open>
  \<open>treewalk.py\<close>: the lazy walk through kernel structures, one level per call.

  drgn's objects are an arbitrary type \<open>'o\<close> with the operations the module uses, each an exception or a
  value; drgn's types are the datatype \<open>dtype\<close>, of which the module looks at the kind, the tag, the
  element type and length, and the names of the members.
\<close>

section \<open>drgn's types and objects\<close>

datatype tag_kind = STRUCT | UNION | CLASS

datatype dtype =
    T_INT nat | T_BOOL nat | T_FLOAT nat | T_VOID | T_FUNCTION
  | T_ENUM "pystr option"
  | T_TAGGED tag_kind "pystr option" "pystr option list"   \<comment> \<open>tag and member names\<close>
  | T_POINTER dtype
  | T_ARRAY dtype "nat option"
  | T_TYPEDEF dtype

record 'o drgn =
  dg_type :: "'o \<Rightarrow> dtype"
  dg_int :: "'o \<Rightarrow> exn + int"
  dg_address :: "'o \<Rightarrow> exn + int option"
  dg_string :: "'o \<Rightarrow> exn + pystr"       \<comment> \<open>\<open>string_().decode(errors="replace")\<close>\<close>
  dg_str :: "'o \<Rightarrow> exn + pystr"          \<comment> \<open>\<open>str(obj)\<close>\<close>
  dg_value :: "'o \<Rightarrow> exn + pystr"        \<comment> \<open>\<open>str(obj.value_())\<close>\<close>
  dg_member :: "'o \<Rightarrow> pystr \<Rightarrow> exn + 'o"
  dg_index :: "'o \<Rightarrow> int \<Rightarrow> exn + 'o"
  dg_type_str :: "dtype \<Rightarrow> pystr"        \<comment> \<open>\<open>str(t)\<close>\<close>
  dg_exn_text :: "exn \<Rightarrow> pystr"

definition MAX_DEPTH :: nat where "MAX_DEPTH = 10"
definition MAX_ARRAY_CHILDREN :: nat where "MAX_ARRAY_CHILDREN = 64"

section \<open>Types\<close>

fun unwrap_typedef :: "dtype \<Rightarrow> dtype" where
  "unwrap_typedef (T_TYPEDEF t) = unwrap_typedef t"
| "unwrap_typedef t = t"

definition kind_of :: "dtype \<Rightarrow> pystr" where
  "kind_of t = (case unwrap_typedef t of
     T_POINTER _ \<Rightarrow> ''pointer'' | T_TAGGED _ _ _ \<Rightarrow> ''struct'' | T_ARRAY _ _ \<Rightarrow> ''array'' | _ \<Rightarrow> ''scalar'')"

definition is_byte_type :: "dtype \<Rightarrow> bool" where
  "is_byte_type t = (case unwrap_typedef t of T_INT n \<Rightarrow> n = 1 | T_BOOL n \<Rightarrow> n = 1 | _ \<Rightarrow> False)"

definition looks_like_string :: "dtype \<Rightarrow> bool" where
  "looks_like_string t = (case unwrap_typedef t of
     T_POINTER u \<Rightarrow> is_byte_type u | T_ARRAY u _ \<Rightarrow> is_byte_type u | _ \<Rightarrow> False)"

definition tag_prefix :: "tag_kind \<Rightarrow> pystr" where
  "tag_prefix k = (case k of STRUCT \<Rightarrow> ''struct'' | UNION \<Rightarrow> ''union'' | CLASS \<Rightarrow> ''class'')"

definition tagged_name :: "pystr \<Rightarrow> pystr option \<Rightarrow> pystr" where
  "tagged_name p tag = (case tag of
     Some (c # cs) \<Rightarrow> p @ '' '' @ (c # cs) | _ \<Rightarrow> p @ '' <anonymous>'')"

lemma size_unwrap_typedef: "size (unwrap_typedef t) \<le> size t"
  by (induction t rule: unwrap_typedef.induct) auto

function short_type_name :: "(dtype \<Rightarrow> pystr) \<Rightarrow> dtype \<Rightarrow> pystr" where
  "short_type_name type_str t =
     (case unwrap_typedef t of
        T_ARRAY u n \<Rightarrow>
          short_type_name type_str u @
            (case n of Some len \<Rightarrow> '' ['' @ nat_dec len @ '']'' | None \<Rightarrow> '' []'')
      | T_TAGGED k tag _ \<Rightarrow> tagged_name (tag_prefix k) tag
      | T_ENUM tag \<Rightarrow> tagged_name ''enum'' tag
      | _ \<Rightarrow> type_str t)"
  by pat_completeness auto
termination
proof (relation "measure (\<lambda>(type_str, t). size t)", goal_cases)
  case (2 type_str t u n)
  then show ?case using size_unwrap_typedef [of t] by simp
qed simp

section \<open>Describing an object\<close>

definition plain :: "pystr \<Rightarrow> message" where "plain s = MsgRaw s"

text \<open>\<open>try: ... except Exception: None\<close> around the address.\<close>

definition address_or_none :: "'o drgn \<Rightarrow> 'o \<Rightarrow> int option" where
  "address_or_none d obj = (case dg_address d obj of Inl _ \<Rightarrow> None | Inr a \<Rightarrow> a)"

text \<open>\<open>rendered[close + 1 :]\<close> behind the prefix \<open>(enum X)\<close>.\<close>

definition enum_text :: "pystr \<Rightarrow> pystr" where
  "enum_text rendered =
     (if prefix ''(enum'' rendered \<and> CHR '')'' \<in> set rendered
      then tl (dropWhile (\<lambda>c. c \<noteq> CHR '')'') rendered) else rendered)"

definition array_text :: "nat option \<Rightarrow> pystr" where
  "array_text n = (case n of Some len \<Rightarrow> ''<array len='' @ nat_dec len @ ''>'' | None \<Rightarrow> ''<array>'')"

text \<open>The body of the outer \<open>try\<close>: kind, value, address, null flag and expandability.\<close>

definition describe_value ::
  "'o drgn \<Rightarrow> 'o \<Rightarrow> exn + (pystr \<times> message \<times> int option \<times> bool \<times> bool)" where
  "describe_value d obj =
     (let t = dg_type d obj; type_name = short_type_name (dg_type_str d) t
      in case unwrap_typedef t of
           T_POINTER _ \<Rightarrow>
             bindE (dg_int d obj) (\<lambda>addr.
               if looks_like_string t \<and> addr \<noteq> 0 then
                 (case dg_string d obj of
                    Inr s \<Rightarrow> Inr (''string'', plain s, Some addr, False, False)
                  | Inl FaultError \<Rightarrow> Inr (''pointer'', plain (py_hex addr), Some addr, False, False)
                  | Inl e \<Rightarrow> Inl e)
               else Inr (''pointer'', plain (py_hex addr), Some addr, addr = 0, addr \<noteq> 0))
         | T_TAGGED _ _ _ \<Rightarrow> Inr (''struct'', plain (''<'' @ type_name @ ''>''), address_or_none d obj, False, True)
         | T_ARRAY _ n \<Rightarrow>
             if looks_like_string t then
               (case dg_string d obj of
                  Inr s \<Rightarrow> Inr (''string'', plain s, None, False, False)
                | Inl FaultError \<Rightarrow> Inr (''array'', plain ''<char[]>'', None, False, False)
                | Inl e \<Rightarrow> Inl e)
             else Inr (''array'', plain (array_text n), address_or_none d obj, False, True)
         | T_ENUM _ \<Rightarrow> bindE (dg_str d obj) (\<lambda>s. Inr (''scalar'', plain (enum_text s), None, False, False))
         | _ \<Rightarrow>
             (case dg_value d obj of
                Inr s \<Rightarrow> Inr (''scalar'', plain s, None, False, False)
              | Inl _ \<Rightarrow> bindE (dg_str d obj) (\<lambda>s. Inr (''scalar'', plain s, None, False, False))))"

definition describe :: "'o drgn \<Rightarrow> pystr \<Rightarrow> 'o \<Rightarrow> exn + TreeNode" where
  "describe d name obj =
     (let type_name = short_type_name (dg_type_str d) (dg_type d obj)
      in case describe_value d obj of
           Inr (kind, v, address, is_null, expandable) \<Rightarrow>
             Inr \<lparr>tn_name = name, tn_type_name = type_name, tn_kind = kind, tn_value_repr = v,
                  tn_address = address, tn_is_null = is_null, tn_expandable = expandable\<rparr>
         | Inl FaultError \<Rightarrow>
             Inr \<lparr>tn_name = name, tn_type_name = type_name, tn_kind = ''unreadable'',
                  tn_value_repr = MsgReadFault (dg_exn_text d FaultError), tn_address = None,
                  tn_is_null = False, tn_expandable = False\<rparr>
         | Inl e \<Rightarrow> Inl e)"

section \<open>Children and paths\<close>

text \<open>The children that can be reached: an entry that faults or is missing is left out.\<close>

fun reachable_children :: "(pystr \<times> (exn + 'o)) list \<Rightarrow> exn + (pystr \<times> 'o) list" where
  "reachable_children [] = Inr []"
| "reachable_children ((name, r) # rest) =
     (case r of
        Inr c \<Rightarrow> bindE (reachable_children rest) (\<lambda>cs. Inr ((name, c) # cs))
      | Inl FaultError \<Rightarrow> reachable_children rest
      | Inl LookupError \<Rightarrow> reachable_children rest
      | Inl e \<Rightarrow> Inl e)"

definition member_children :: "'o drgn \<Rightarrow> 'o \<Rightarrow> pystr option list \<Rightarrow> exn + (pystr \<times> 'o) list" where
  "member_children d obj names =
     reachable_children (map (\<lambda>m. (m, dg_member d obj m)) (List.map_filter id names))"

definition index_name :: "nat \<Rightarrow> pystr" where
  "index_name i = ''['' @ nat_dec i @ '']''"

definition child_objects :: "'o drgn \<Rightarrow> 'o \<Rightarrow> exn + (pystr \<times> 'o) list" where
  "child_objects d obj =
     (case unwrap_typedef (dg_type d obj) of
        T_POINTER u \<Rightarrow>
          bindE (dg_int d obj) (\<lambda>addr.
            if addr = 0 then Inr []
            else (case unwrap_typedef u of
                    T_TAGGED _ _ names \<Rightarrow> member_children d obj names
                  | T_VOID \<Rightarrow> Inr []
                  | _ \<Rightarrow>
                      (case dg_index d obj 0 of
                         Inr c \<Rightarrow> Inr [(''*'', c)]
                       | Inl FaultError \<Rightarrow> Inr []
                       | Inl e \<Rightarrow> Inl e)))
      | T_TAGGED _ _ names \<Rightarrow> member_children d obj names
      | T_ARRAY _ n \<Rightarrow>
          reachable_children (map (\<lambda>i. (index_name i, dg_index d obj (int i)))
            [0..<min (case n of None \<Rightarrow> 0 | Some len \<Rightarrow> len) MAX_ARRAY_CHILDREN])
      | _ \<Rightarrow> Inr [])"

text \<open>\<open>int(s)\<close>: surrounding white space, a sign, and single underscores between digits are accepted.\<close>

definition py_int :: "pystr \<Rightarrow> int option" where
  "py_int s =
     (let t = strip s;
          sg = (if prefix ''-'' t then - 1 else 1);
          u = (if prefix ''-'' t \<or> prefix ''+'' t then tl t else t);
          gs = split_on (CHR ''_'') u
      in if \<forall>g \<in> set gs. g \<noteq> [] \<and> list_all is_digit g then Some (sg * int (dec_val (concat gs))) else None)"

definition path_step :: "'o drgn \<Rightarrow> pystr \<Rightarrow> 'o \<Rightarrow> exn + 'o" where
  "path_step d step obj =
     (if prefix ''['' step \<and> suffix '']'' step then
        (case py_int (butlast (tl step)) of
           Some i \<Rightarrow> dg_index d obj i
         | None \<Rightarrow> Inl (ValueError (MsgRaw (butlast (tl step)))))
      else dg_member d obj step)"

fun resolve_path :: "'o drgn \<Rightarrow> 'o \<Rightarrow> pystr list \<Rightarrow> exn + 'o" where
  "resolve_path d obj [] = Inr obj"
| "resolve_path d obj (step # path) = bindE (path_step d step obj) (\<lambda>o'. resolve_path d o' path)"

section \<open>Expansion\<close>

definition unreadable_node :: "pystr \<Rightarrow> message \<Rightarrow> TreeNode" where
  "unreadable_node name v =
     \<lparr>tn_name = name, tn_type_name = ''?'', tn_kind = ''unreadable'', tn_value_repr = v,
      tn_address = None, tn_is_null = False, tn_expandable = False\<rparr>"

definition described_children :: "'o drgn \<Rightarrow> 'o \<Rightarrow> exn + TreeNode list" where
  "described_children d obj =
     (case bindE (child_objects d obj) (mapE (\<lambda>(name, c). describe d name c)) of
        Inl FaultError \<Rightarrow> Inr []
      | r \<Rightarrow> r)"

definition expand :: "'o drgn \<Rightarrow> 'o \<Rightarrow> pystr \<Rightarrow> pystr list \<Rightarrow> exn + TreeExpansion" where
  "expand d root_obj root_name path =
     (let depth = length path; name = (if path \<noteq> [] then last path else root_name)
      in if depth > MAX_DEPTH then
           Inr \<lparr>te_node = unreadable_node name MsgDepthShort, te_children = [], te_depth = depth,
                te_error = Some (MsgDepthExceeded (int MAX_DEPTH) (int depth))\<rparr>
         else
           (case resolve_path d root_obj path of
              Inl e \<Rightarrow>
                if e = FaultError \<or> e = LookupError then
                  Inr \<lparr>te_node = unreadable_node name (plain (dg_exn_text d e)), te_children = [],
                       te_depth = depth, te_error = Some (plain (dg_exn_text d e))\<rparr>
                else Inl e
            | Inr obj \<Rightarrow>
                bindE (describe d name obj) (\<lambda>node.
                bindE (if tn_expandable node \<and> depth < MAX_DEPTH then described_children d obj else Inr []) (\<lambda>children.
                  Inr \<lparr>te_node = node, te_children = children, te_depth = depth, te_error = None\<rparr>))))"

section \<open>The tree of a device\<close>

text \<open>
  \<open>DrgnQueueService.get_tree_node\<close>: the root object is \<open>dev[0]\<close> of the device that the queue service finds.
\<close>

definition get_tree_node ::
  "kernel \<Rightarrow> 'o drgn \<Rightarrow> (nvme_dev \<Rightarrow> exn + 'o) \<Rightarrow> pystr \<Rightarrow> pystr list \<Rightarrow> exn + TreeExpansion" where
  "get_tree_node k d deref device path =
     bindE (lookup_device k device) (\<lambda>(dev, disk).
     bindE (deref dev) (\<lambda>root_obj. expand d root_obj device path))"
section \<open>Navigation\<close>

text \<open>What the walker relies on: a member of a structure never has a name that looks like an index.\<close>

definition c_names :: "'o drgn \<Rightarrow> bool" where
  "c_names d \<longleftrightarrow> (\<forall>obj name c. dg_member d obj name = Inr c \<longrightarrow> \<not> prefix ''['' name)"

lemma py_int_nat_dec: "py_int (nat_dec n) = Some (int n)"
proof -
  have dig: "\<forall>c \<in> set (nat_dec n). is_digit c" using nat_dec_digits by blast
  have sp: "is_digit c \<Longrightarrow> \<not> is_space c \<and> c \<noteq> CHR ''_'' \<and> c \<noteq> CHR ''-'' \<and> c \<noteq> CHR ''+''" for c
    by (auto simp: is_digit_def is_space_def)
  have "strip (nat_dec n) = nat_dec n" using dig sp by (intro strip_id) (auto simp: nat_dec_not_Nil)
  moreover have "split_on (CHR ''_'') (nat_dec n) = [nat_dec n]" using dig sp by (intro split_on_free) blast
  moreover have "\<not> prefix ''-'' (nat_dec n)" "\<not> prefix ''+'' (nat_dec n)"
    using dig sp by (cases "nat_dec n"; auto)+
  ultimately show ?thesis using dig by (simp add: py_int_def Let_def list_all_iff dec_val_nat_dec)
qed

lemma path_step_index: "path_step d (index_name i) obj = dg_index d obj (int i)"
  by (simp add: path_step_def index_name_def suffix_def py_int_nat_dec)

lemma reachable_children_elem:
  "\<lbrakk>reachable_children xs = Inr cs; (name, c) \<in> set cs\<rbrakk> \<Longrightarrow> (name, Inr c) \<in> set xs"
proof (induction xs arbitrary: cs)
  case (Cons x xs)
  obtain n r where x: "x = (n, r)" by (cases x)
  show ?case
  proof (cases r)
    case (Inl e)
    with Cons x show ?thesis by (cases e) auto
  next
    case (Inr c')
    with Cons.prems(1) x obtain cs' where "reachable_children xs = Inr cs'" "cs = (n, c') # cs'"
      by (auto simp: bindE_Inr)
    with Cons.IH [of cs'] Cons.prems(2) x Inr show ?thesis by auto
  qed
qed simp

lemma member_children_step:
  assumes "c_names d" "member_children d obj names = Inr cs" "(name, c) \<in> set cs"
  shows "path_step d name obj = Inr c"
proof -
  from reachable_children_elem [OF assms(2) [unfolded member_children_def] assms(3)]
  have "dg_member d obj name = Inr c" by auto
  with assms(1) show ?thesis by (auto simp: path_step_def c_names_def)
qed

lemma child_objects_step:
  assumes names: "c_names d" and cs: "child_objects d obj = Inr cs" "(name, c) \<in> set cs" and star: "name \<noteq> ''*''"
  shows "path_step d name obj = Inr c"
proof -
  let ?idx = "\<lambda>m. map (\<lambda>i. (index_name i, dg_index d obj (int i))) [0..<m]"
  have "(\<exists>ns. member_children d obj ns = Inr cs) \<or> (\<exists>m. reachable_children (?idx m) = Inr cs)"
    using cs star
    by (auto simp: child_objects_def bindE_Inr split: dtype.splits if_splits sum.splits exn.splits)
  then show ?thesis
  proof
    assume "\<exists>ns. member_children d obj ns = Inr cs"
    then show ?thesis using member_children_step [OF names _ cs(2)] by blast
  next
    assume "\<exists>m. reachable_children (?idx m) = Inr cs"
    then show ?thesis using reachable_children_elem [OF _ cs(2)] by (fastforce simp: path_step_index)
  qed
qed

lemma mapE_elem: "\<lbrakk>mapE f xs = Inr ys; y \<in> set ys\<rbrakk> \<Longrightarrow> \<exists>x \<in> set xs. f x = Inr y"
  by (induction xs arbitrary: ys) (auto simp: bindE_Inr)

lemma describe_name: "describe d name obj = Inr n \<Longrightarrow> tn_name n = name"
  by (auto simp: describe_def Let_def split: sum.splits exn.splits prod.splits)

lemma described_children_elem:
  assumes "described_children d obj = Inr ns" "n \<in> set ns"
  obtains cs c where "child_objects d obj = Inr cs" "(tn_name n, c) \<in> set cs" "describe d (tn_name n) c = Inr n"
proof -
  let ?r = "bindE (child_objects d obj) (mapE (\<lambda>(name, c). describe d name c))"
  have "?r = Inr ns" using assms by (cases ?r) (auto simp: described_children_def split: exn.splits)
  then obtain cs where cs: "child_objects d obj = Inr cs" "mapE (\<lambda>(name, c). describe d name c) cs = Inr ns"
    by (auto simp: bindE_Inr)
  from mapE_elem [OF cs(2) assms(2)] obtain name c where "(name, c) \<in> set cs" "describe d name c = Inr n" by auto
  with cs(1) describe_name that show thesis by metis
qed

lemma resolve_path_snoc:
  "resolve_path d obj (path @ [s]) = bindE (resolve_path d obj path) (path_step d s)"
proof (induction path arbitrary: obj)
  case Nil
  show ?case by (cases "path_step d s obj") simp_all
next
  case (Cons a path)
  then show ?case by (cases "path_step d a obj") simp_all
qed

text \<open>A successful expansion without error, taken apart.\<close>

lemma expand_node:
  assumes "expand d root_obj nm path = Inr te" "te_error te = None"
  obtains obj where "length path \<le> MAX_DEPTH" "resolve_path d root_obj path = Inr obj"
    "describe d (if path \<noteq> [] then last path else nm) obj = Inr (te_node te)"
    "(if tn_expandable (te_node te) \<and> length path < MAX_DEPTH then described_children d obj else Inr []) =
       Inr (te_children te)"
proof (cases "length path > MAX_DEPTH")
  case True
  with assms show thesis by (auto simp: expand_def Let_def)
next
  case False
  show thesis
  proof (cases "resolve_path d root_obj path")
    case (Inl e)
    with False assms show thesis by (auto simp: expand_def Let_def split: if_splits)
  next
    case (Inr obj)
    with False assms(1) show thesis
      by (intro that [of obj]) (auto simp: expand_def Let_def bindE_Inr split: if_splits)
  qed
qed

text \<open>
  drgn's documented behaviour on typed access: converting, rendering and indexing fail only by an
  invalid address, and a member that the type names can only fault or be missing.
\<close>

definition member_names :: "dtype \<Rightarrow> pystr option list" where
  "member_names t = (case unwrap_typedef t of
     T_TAGGED _ _ names \<Rightarrow> names
   | T_POINTER u \<Rightarrow> (case unwrap_typedef u of T_TAGGED _ _ names \<Rightarrow> names | _ \<Rightarrow> [])
   | _ \<Rightarrow> [])"

definition typed_access :: "'o drgn \<Rightarrow> bool" where
  "typed_access d \<longleftrightarrow>
     (\<forall>obj e. dg_int d obj = Inl e \<or> dg_string d obj = Inl e \<or> dg_str d obj = Inl e \<longrightarrow> e = FaultError) \<and>
     (\<forall>obj i e. dg_index d obj i = Inl e \<longrightarrow> e = FaultError) \<and>
     (\<forall>obj m e. Some m \<in> set (member_names (dg_type d obj)) \<and> dg_member d obj m = Inl e \<longrightarrow>
        e = FaultError \<or> e = LookupError)"

lemma describe_total:
  assumes "typed_access d"
  shows "\<exists>n. describe d name obj = Inr n"
proof -
  have acc: "dg_int d obj = Inl FaultError \<or> (\<exists>x. dg_int d obj = Inr x)"
    "dg_string d obj = Inl FaultError \<or> (\<exists>x. dg_string d obj = Inr x)"
    "dg_str d obj = Inl FaultError \<or> (\<exists>x. dg_str d obj = Inr x)"
    using assms unfolding typed_access_def by (metis sum.exhaust)+
  let ?ok = "\<lambda>r. r = Inl FaultError \<or> (\<exists>v. r = Inr v)"
  have "?ok (describe_value d obj)"
  proof (cases "unwrap_typedef (dg_type d obj)")
    case (T_POINTER u)
    from acc(1,2) show ?thesis
      by (elim disjE exE) (auto simp: T_POINTER describe_value_def Let_def)
  next
    case (T_ARRAY u n)
    from acc(2) show ?thesis by (elim disjE exE) (auto simp: T_ARRAY describe_value_def Let_def)
  qed (use acc(3) in \<open>auto simp: describe_value_def Let_def split: sum.split\<close>)
  then show ?thesis by (auto simp: describe_def Let_def)
qed

lemma reachable_children_total:
  "(\<And>n e. (n, Inl e) \<in> set xs \<Longrightarrow> e = FaultError \<or> e = LookupError) \<Longrightarrow> \<exists>cs. reachable_children xs = Inr cs"
proof (induction xs)
  case (Cons x xs)
  obtain n r where x: "x = (n, r)" by (cases x)
  from Cons obtain cs where cs: "reachable_children xs = Inr cs" by (metis list.set_intros(2))
  show ?case
  proof (cases r)
    case (Inl e)
    with Cons.prems [of n e] x cs show ?thesis by auto
  next
    case (Inr c)
    with x cs show ?thesis by simp
  qed
qed simp

lemma child_objects_total:
  assumes "typed_access d"
  shows "\<exists>cs. child_objects d obj = Inr cs \<or> child_objects d obj = Inl FaultError"
proof -
  have idx: "\<exists>cs. reachable_children (map (\<lambda>i. (index_name i, dg_index d obj (int i))) is') = Inr cs" for is'
    using assms by (intro reachable_children_total) (auto simp: typed_access_def)
  have mem: "\<exists>cs. member_children d obj names = Inr cs" if "names = member_names (dg_type d obj)" for names
    unfolding member_children_def
  proof (rule reachable_children_total)
    fix n e assume "(n, Inl e) \<in> set (map (\<lambda>m. (m, dg_member d obj m)) (List.map_filter id names))"
    then have "Some n \<in> set names" "dg_member d obj n = Inl e" by (auto simp: List.map_filter_def)
    with assms that show "e = FaultError \<or> e = LookupError" unfolding typed_access_def by blast
  qed
  have int: "dg_int d obj = Inl e \<Longrightarrow> e = FaultError" and idx0: "dg_index d obj 0 = Inl e \<Longrightarrow> e = FaultError" for e
    using assms by (auto simp: typed_access_def)
  show ?thesis
  proof (cases "unwrap_typedef (dg_type d obj)")
    case (T_TAGGED k tag names)
    then have "names = member_names (dg_type d obj)" by (simp add: member_names_def)
    with T_TAGGED mem show ?thesis by (simp add: child_objects_def)
  next
    case (T_ARRAY u n)
    with idx show ?thesis by (simp add: child_objects_def)
  next
    case (T_POINTER u)
    show ?thesis
    proof (cases "\<exists>k tag names. unwrap_typedef u = T_TAGGED k tag names")
      case True
      then obtain k tag names where u: "unwrap_typedef u = T_TAGGED k tag names" by blast
      with T_POINTER have "names = member_names (dg_type d obj)" by (simp add: member_names_def)
      with T_POINTER u mem int show ?thesis by (cases "dg_int d obj") (auto simp: child_objects_def)
    next
      case False
      with T_POINTER int idx0 show ?thesis
        by (cases "dg_int d obj"; cases "dg_index d obj 0") (auto simp: child_objects_def split: dtype.split)
    qed
  qed (auto simp: child_objects_def)
qed

lemma mapE_total: "(\<And>x. x \<in> set xs \<Longrightarrow> \<exists>y. f x = Inr y) \<Longrightarrow> \<exists>ys. mapE f xs = Inr ys"
proof (induction xs)
  case (Cons x xs)
  then obtain y ys where "f x = Inr y" "mapE f xs = Inr ys" by (metis list.set_intros(1,2))
  then show ?case by simp
qed simp

lemma described_children_total:
  assumes "typed_access d"
  shows "\<exists>ns. described_children d obj = Inr ns"
proof (cases "child_objects d obj")
  case (Inl e)
  with child_objects_total [OF assms, of obj] show ?thesis by (simp add: described_children_def)
next
  case (Inr cs)
  obtain ns where "mapE (\<lambda>(name, c). describe d name c) cs = Inr ns"
    using mapE_total [of cs "\<lambda>(name, c). describe d name c"] describe_total [OF assms] by fastforce
  with Inr show ?thesis by (simp add: described_children_def)
qed


text \<open>
  Depth limit and dead ends.  Beyond ten steps nothing of the kernel is read and nothing is
  listed; at ten steps a node has no children.  The child \<open>*\<close> of a plain pointer cannot be
  expanded: its name is looked up as a member, so the failure of that lookup is the answer, and an
  exception other than a fault or a missing member escapes.
\<close>

theorem expansion_limits:
  "(length path > 10 \<longrightarrow> expand d root_obj nm path = expand d' root' nm path \<and>
      (\<exists>te. expand d root_obj nm path = Inr te \<and> te_children te = [] \<and> te_error te \<noteq> None)) \<and>
   (length path \<ge> 10 \<and> expand d root_obj nm path = Inr te \<longrightarrow> te_children te = []) \<and>
   (length path < 10 \<and> resolve_path d root_obj path = Inr obj \<and> dg_member d obj ''*'' = Inl e \<longrightarrow>
      expand d root_obj nm (path @ [''*'']) =
        (if e = FaultError \<or> e = LookupError
         then Inr \<lparr>te_node = unreadable_node ''*'' (plain (dg_exn_text d e)), te_children = [],
                   te_depth = length path + 1, te_error = Some (plain (dg_exn_text d e))\<rparr>
         else Inl e))"
proof (intro conjI impI)
  assume "length path \<ge> 10 \<and> expand d root_obj nm path = Inr te"
  then show "te_children te = []"
    by (auto simp: expand_def Let_def MAX_DEPTH_def bindE_Inr split: if_splits sum.splits)
next
  assume "length path < 10 \<and> resolve_path d root_obj path = Inr obj \<and> dg_member d obj ''*'' = Inl e"
  moreover have "path_step d ''*'' obj = dg_member d obj ''*''" by (simp add: path_step_def)
  ultimately show "expand d root_obj nm (path @ [''*'']) =
        (if e = FaultError \<or> e = LookupError
         then Inr \<lparr>te_node = unreadable_node ''*'' (plain (dg_exn_text d e)), te_children = [],
                   te_depth = length path + 1, te_error = Some (plain (dg_exn_text d e))\<rparr>
         else Inl e)"
    by (simp add: expand_def Let_def MAX_DEPTH_def resolve_path_snoc)
qed (auto simp: expand_def Let_def MAX_DEPTH_def)

text \<open>Objects \<open>0\<close> (a structure with one member), \<open>1\<close> (its member, a null pointer) and \<open>2\<close> (a pointer to a pointer).\<close>

definition sample_drgn :: "nat drgn" where
  "sample_drgn =
     \<lparr>dg_type = (\<lambda>n. if n = 0 then T_TAGGED STRUCT (Some ''s'') [Some ''p''] else T_POINTER (T_POINTER T_VOID)),
      dg_int = (\<lambda>n. Inr (if n = 2 then 64 else 0)), dg_address = (\<lambda>_. Inr None), dg_string = (\<lambda>_. Inr []),
      dg_str = (\<lambda>_. Inr []), dg_value = (\<lambda>_. Inr []),
      dg_member = (\<lambda>n m. if n = 0 then if m = ''p'' then Inr 1 else Inl LookupError else Inl TypeError),
      dg_index = (\<lambda>_ _. Inr 1), dg_type_str = (\<lambda>_. ''t''), dg_exn_text = (\<lambda>_. ''e'')\<rparr>"

lemma sample_drgn_access: "typed_access sample_drgn" "c_names sample_drgn"
  by (auto simp: typed_access_def c_names_def sample_drgn_def member_names_def split: if_splits)


theorem expansion_limits_witness:
  "expand sample_drgn 2 ''nvme0'' [''*''] = Inl TypeError"
  using expansion_limits [of "[]" sample_drgn 2 "''nvme0''" sample_drgn 2 undefined 2 TypeError]
  by (simp add: sample_drgn_def)

end
