(* ===== verification/TopologyBuild.thy ===== *)
theory TopologyBuild
  imports TopologyTree TreeWalk "HOL-Library.Word"
begin

unbundle bit_operations_syntax

text \<open>
  \<open>backend/topology.py\<close> and \<open>services/topology/service.py\<close>: PCIe ancestry and NVMe structures in one tree.

  The drgn object operations of the tree walk are extended by the ones this module uses.  A pointer value
  is a 64-bit word, so the walk up the buses, which stops at an address it has seen, ends on any memory.
  The source evaluates drgn objects in conditions (\<open>if head\<close>, \<open>not bridge\<close>) outside its \<open>_try\<close> helper: such a read
  may raise, and the exception leaves \<open>build_topology\<close>.
\<close>

record 'o topo_drgn = "'o drgn" +
  tp_pointer :: "'o \<Rightarrow> exn + 64 word"                          \<comment> \<open>\<open>obj.value_()\<close>\<close>
  tp_truth :: "'o \<Rightarrow> exn + bool"                                \<comment> \<open>\<open>bool(obj)\<close>\<close>
  tp_address_of :: "'o \<Rightarrow> exn + 'o"
  tp_cast :: "pystr \<Rightarrow> 'o \<Rightarrow> exn + 'o"
  tp_container_of :: "'o \<Rightarrow> pystr \<Rightarrow> pystr \<Rightarrow> exn + 'o"
  tp_list :: "pystr \<Rightarrow> 'o \<Rightarrow> pystr \<Rightarrow> exn + 'o list"          \<comment> \<open>\<open>list(list_for_each_entry(...))\<close>\<close>
  tp_disk_name :: "'o \<Rightarrow> exn + pystr"                           \<comment> \<open>decoded\<close>

section \<open>Names\<close>

definition PCIE_TYPES :: "(int, topo_text) dict" where
  "PCIE_TYPES =
     [(0x0, [Lit ''PCIe '', Ko ''endpoint'']), (0x1, [Ko ''legacy'', Lit '' PCIe '', Ko ''endpoint'']),
      (0x4, [Ko ''root port'']), (0x5, [Ko ''upstream switch port'']), (0x6, [Ko ''downstream switch port'']),
      (0x7, [Lit ''PCIe'', Ko ''to'', Lit ''PCI '', Ko ''bridge'']),
      (0x8, [Lit ''PCI'', Ko ''to'', Lit ''PCIe '', Ko ''bridge'']),
      (0x9, [Ko ''root complex integrated endpoint'', Lit ''(RCiEP)'']), (0xA, [Ko ''root complex event collector''])]"

definition PCI_CLASSES :: "(int, topo_text) dict" where
  "PCI_CLASSES =
     [(0x0108, [Lit ''NVM Express '', Ko ''controller'']), (0x0106, [Lit ''SATA '', Ko ''controller'']),
      (0x0604, [Lit ''PCI-to-PCI '', Ko ''bridge'']), (0x0600, [Ko ''host bridge''])]"

definition PCI_POWER_STATES :: "(int, topo_text) dict" where
  "PCI_POWER_STATES =
     [(0, [Lit ''D0 ('', Ko ''fully operational'', Lit '')'']), (1, [Lit ''D1'']), (2, [Lit ''D2'']), (3, [Lit ''D3hot'']),
      (4, [Lit ''D3cold'']), (5, [Lit ''unknown'']), (- 1, [Lit ''error''])]"

definition pcie_type_name :: "int \<Rightarrow> topo_text" where
  "pcie_type_name reg =
     (let t = drop_bit 4 (reg AND 0x00F0) in dict_get PCIE_TYPES t [Ko ''type'', Lit ('' 0x'' @ fmt_hex 0 t)])"

definition pci_power_state_name :: "int \<Rightarrow> topo_text" where
  "pci_power_state_name v = dict_get PCI_POWER_STATES v [Lit (''0x'' @ fmt_hex 0 v)]"

definition det :: "topo_text \<Rightarrow> topo_text \<Rightarrow> TopologyDetail" where
  "det k v = \<lparr>tpd_key = k, tpd_value = v\<rparr>"

definition try_or :: "exn + 'a \<Rightarrow> 'a \<Rightarrow> 'a" where
  "try_or m x = (case m of Inl _ \<Rightarrow> x | Inr v \<Rightarrow> v)"

definition try_opt :: "exn + 'a \<Rightarrow> 'a option" where
  "try_opt m = (case m of Inl _ \<Rightarrow> None | Inr v \<Rightarrow> Some v)"

text \<open>\<open>obj.a.b\<close> and \<open>int(obj.a.b)\<close>\<close>

fun field_path :: "('o, 'x) topo_drgn_scheme \<Rightarrow> 'o \<Rightarrow> pystr list \<Rightarrow> exn + 'o" where
  "field_path d obj [] = Inr obj"
| "field_path d obj (n # ns) = bindE (dg_member d obj n) (\<lambda>o'. field_path d o' ns)"

definition int_at :: "('o, 'x) topo_drgn_scheme \<Rightarrow> 'o \<Rightarrow> pystr list \<Rightarrow> exn + int" where
  "int_at d obj ns = bindE (field_path d obj ns) (dg_int d)"

definition enum_name :: "('o, 'x) topo_drgn_scheme \<Rightarrow> 'o \<Rightarrow> pystr \<Rightarrow> pystr" where
  "enum_name d obj dflt =
     (let s = try_or (bindE (dg_str d obj) (\<lambda>r. Inr (enum_text r))) dflt in if s = [] then dflt else s)"

definition cstr :: "('o, 'x) topo_drgn_scheme \<Rightarrow> 'o \<Rightarrow> pystr \<Rightarrow> pystr" where
  "cstr d obj dflt =
     (let s = try_or (bindE (dg_string d obj) (\<lambda>r. Inr (strip r))) dflt in if s = [] then dflt else s)"

definition hex_pointer :: "('o, 'x) topo_drgn_scheme \<Rightarrow> 'o \<Rightarrow> exn + topo_text" where
  "hex_pointer d obj = bindE (tp_pointer d obj) (\<lambda>v. Inr [Lit (py_hex (uint v))])"

section \<open>PCI devices\<close>

definition domain_nr :: "('o, 'x) topo_drgn_scheme \<Rightarrow> 'o \<Rightarrow> int" where
  "domain_nr d bus =
     (let sysdata = bindE (dg_member d bus ''sysdata'') (\<lambda>s.
                      bindE (tp_cast d ''struct pci_sysdata *'' s) (\<lambda>c. int_at d c [''domain'']))
      in case int_at d bus [''domain_nr''] of
           Inr v \<Rightarrow> if v \<ge> 0 then v else try_or sysdata 0
         | Inl _ \<Rightarrow> try_or sysdata 0)"

definition bdf :: "('o, 'x) topo_drgn_scheme \<Rightarrow> 'o \<Rightarrow> exn + pystr" where
  "bdf d pdev =
     bindE (dg_member d pdev ''bus'') (\<lambda>bus.
     bindE (int_at d pdev [''devfn'']) (\<lambda>devfn.
     bindE (int_at d bus [''number'']) (\<lambda>number.
       Inr (fmt_hex 4 (domain_nr d bus) @ '':'' @ fmt_hex 2 number @ '':'' @ fmt_hex 2 (drop_bit 3 devfn) @ ''.'' @
            int_dec (devfn AND 7)))))"

definition class_text :: "('o, 'x) topo_drgn_scheme \<Rightarrow> 'o \<Rightarrow> topo_text" where
  "class_text d pdev =
     (case int_at d pdev [''class''] of
        Inl _ \<Rightarrow> [Lit ''?'']
      | Inr cls \<Rightarrow>
          (case map_of PCI_CLASSES (drop_bit 8 cls) of
             Some name \<Rightarrow> name @ [Lit ('' (0x'' @ fmt_hex 6 cls @ '')'')]
           | None \<Rightarrow> [Lit (''0x'' @ fmt_hex 6 cls)]))"

definition pcie_type_text :: "('o, 'x) topo_drgn_scheme \<Rightarrow> 'o \<Rightarrow> topo_text" where
  "pcie_type_text d pdev =
     (if try_or (int_at d pdev [''pcie_cap'']) 0 = 0 then [Ko ''legacy'', Lit '' PCI (PCIe capability '', Ko ''none'', Lit '')'']
      else case int_at d pdev [''pcie_flags_reg''] of Inr reg \<Rightarrow> pcie_type_name reg | Inl _ \<Rightarrow> [Lit ''?''])"

definition truthy :: "int option \<Rightarrow> bool" where
  "truthy v \<longleftrightarrow> (case v of None \<Rightarrow> False | Some i \<Rightarrow> i \<noteq> 0)"

definition pci_dev_details :: "('o, 'x) topo_drgn_scheme \<Rightarrow> 'o \<Rightarrow> exn + TopologyDetail list" where
  "pci_dev_details d pdev =
     (let n = (\<lambda>f. try_or (int_at d pdev [f]) 0);
          flag = (\<lambda>f. try_or (bindE (dg_member d pdev f) (tp_truth d)) False);
          subv = try_opt (int_at d pdev [''subsystem_vendor'']);
          subd = try_opt (int_at d pdev [''subsystem_device'']);
          details =
            [det [Lit ''vendor:device''] [Lit (fmt_hex 4 (n ''vendor'') @ '':'' @ fmt_hex 4 (n ''device''))],
             det [Lit ''class''] (class_text d pdev),
             det [Lit ''PCIe '', Ko ''type''] (pcie_type_text d pdev),
             det [Lit ''revision''] [Lit (''0x'' @ fmt_hex 2 (n ''revision''))]]
            @ (if truthy subv \<or> truthy subd
               then [det [Lit ''subsystem''] [Lit (fmt_hex 4 (n ''subsystem_vendor'') @ '':'' @ fmt_hex 4 (n ''subsystem_device''))]]
               else [])
            @ (if n ''irq'' \<noteq> 0 then [det [Lit ''IRQ''] [Lit (int_dec (n ''irq''))]] else [])
            @ [det [Ko ''interrupt mode'']
                 (if flag ''msix_enabled'' then [Lit ''MSI-X''] else if flag ''msi_enabled'' then [Lit ''MSI'']
                  else [Ko ''legacy'', Lit '' INTx'']),
               det [Ko ''power state'']
                 (case int_at d pdev [''current_state''] of Inr v \<Rightarrow> pci_power_state_name v | Inl _ \<Rightarrow> [Lit ''?''])]
      in bindE (hex_pointer d pdev) (\<lambda>h. Inr (details @ [det [Lit ''struct pci_dev''] h])))"

text \<open>The loop of \<open>_bus_chain\<close>: from the device's bus up to the root bus.\<close>

function bus_chain_up ::
  "('o, 'x) topo_drgn_scheme \<Rightarrow> 'o \<Rightarrow> 64 word set \<Rightarrow> ('o \<times> 'o option) list \<Rightarrow> exn + ('o \<times> 'o option) list" where
  "bus_chain_up d bus seen chain =
     (case tp_pointer d bus of
        Inl _ \<Rightarrow> Inr chain
      | Inr addr \<Rightarrow>
          if addr \<in> seen then Inr chain
          else
            (case dg_member d bus ''self'' of
               Inl _ \<Rightarrow> Inr (chain @ [(bus, None)])
             | Inr bridge \<Rightarrow>
                 bindE (tp_truth d bridge) (\<lambda>t.
                   if \<not> t then Inr (chain @ [(bus, None)])
                   else bindE (dg_member d bridge ''bus'') (\<lambda>bus'.
                          bus_chain_up d bus' (insert addr seen) (chain @ [(bus, Some bridge)])))))"
  by pat_completeness auto
termination
proof (relation "measure (\<lambda>(d, bus, seen, chain). card (UNIV - seen))", goal_cases)
  case (2 d bus seen chain addr bridge t bus')
  then have "UNIV - insert addr seen \<subset> UNIV - seen" by blast
  then show ?case by (simp add: psubset_card_mono)
qed simp

declare bus_chain_up.simps [simp del]

definition bus_chain :: "('o, 'x) topo_drgn_scheme \<Rightarrow> 'o \<Rightarrow> exn + ('o \<times> 'o option) list" where
  "bus_chain d pdev =
     bindE (dg_member d pdev ''bus'') (\<lambda>bus. bindE (bus_chain_up d bus {} []) (\<lambda>chain. Inr (rev chain)))"

section \<open>NVMe structures\<close>

definition list_or_empty :: "('o, 'x) topo_drgn_scheme \<Rightarrow> 'o \<Rightarrow> pystr \<Rightarrow> pystr \<Rightarrow> pystr \<Rightarrow> exn + 'o list" where
  "list_or_empty d obj f type_name link =
     bindE (dg_member d obj f) (\<lambda>h. bindE (tp_address_of d h) (\<lambda>a. tp_list d type_name a link))"

definition namespace_node :: "('o, 'x) topo_drgn_scheme \<Rightarrow> pystr \<Rightarrow> 'o \<Rightarrow> exn + TopologyNode" where
  "namespace_node d device ns =
     (let head = try_opt (dg_member d ns ''head'') in
      bindE (case head of None \<Rightarrow> Inr False | Some h \<Rightarrow> tp_truth d h) (\<lambda>has_head.
      let nsid = (case head of Some h \<Rightarrow> if has_head then try_or (int_at d h [''ns_id'']) 0 else 0 | None \<Rightarrow> 0);
          name = try_or (bindE (dg_member d ns ''disk'') (tp_disk_name d)) (''nsid'' @ int_dec nsid);
          lba_shift = try_or (int_at d ns [''lba_shift'']) 0
      in if lba_shift < 0 then Inl (ValueError (MsgRaw ''negative shift count''))
         else
           (let lba_size = (if lba_shift \<noteq> 0 then 2 ^ nat lba_shift else 0 :: int);
                sectors = try_or (int_at d ns [''disk'', ''part0'', ''bd_nr_sectors'']) 0;
                cap_bytes = sectors * 512
            in bindE (hex_pointer d ns) (\<lambda>h.
               let shared = (case head of None \<Rightarrow> None | Some hd' \<Rightarrow> try_opt (bindE (dg_member d hd' ''shared'') (tp_truth d)));
                   nvmset = (case head of None \<Rightarrow> None | Some hd' \<Rightarrow> try_opt (int_at d hd' [''nvmset_id'']))
               in Inr (TopologyNode (''ns:'' @ name) TOPO_NAMESPACE [Lit name]
                    [Ko ''namespace'', Lit ('' nsid='' @ int_dec nsid)] device
                    ([det [Lit ''nsid''] [Lit (int_dec nsid)],
                      det [Lit ''LBA '', Ko ''size''] [Lit (if lba_size \<noteq> 0 then int_dec lba_size @ '' B'' else ''?'')],
                      det [Ko ''capacity'']
                        (if sectors \<noteq> 0
                         then [Decimals (of_int cap_bytes / 2 ^ 30), Lit ('' GiB ('' @ int_dec sectors),
                               Ko ''times'', Lit ''512B '', Ko ''sectors'', Lit '')'']
                         else [Lit ''?'']),
                      det [Lit ''struct nvme_ns''] h]
                     @ (case shared of None \<Rightarrow> []
                        | Some b \<Rightarrow> [det [Ko ''shared'', Lit ''(multipath)''] [if b then Ko ''yes'' else Ko ''no'']])
                     @ (if truthy nvmset then [det [Lit ''NVM Set ID''] [Lit (int_dec (the nvmset))]] else []))
                    [])))))"

definition namespace_nodes :: "('o, 'x) topo_drgn_scheme \<Rightarrow> 'o \<Rightarrow> pystr \<Rightarrow> exn + TopologyNode list" where
  "namespace_nodes d ctrl device =
     mapE (namespace_node d device) (try_or (list_or_empty d ctrl ''namespaces'' ''struct nvme_ns'' ''list'') [])"

definition subsystem_node :: "('o, 'x) topo_drgn_scheme \<Rightarrow> 'o \<Rightarrow> pystr \<Rightarrow> exn + TopologyNode option" where
  "subsystem_node d ctrl device =
     (case dg_member d ctrl ''subsys'' of
        Inl _ \<Rightarrow> Inr None
      | Inr subsys \<Rightarrow>
          bindE (tp_truth d subsys) (\<lambda>t.
            if \<not> t then Inr None
            else
              (let inst = try_or (int_at d subsys [''instance'']) 0;
                   count = (\<lambda>f ty link. try_or (bindE (list_or_empty d subsys f ty link) (\<lambda>xs. Inr (length xs))) 0);
                   n_ctrls = count ''ctrls'' ''struct nvme_ctrl'' ''subsys_entry'';
                   n_heads = count ''nsheads'' ''struct nvme_ns_head'' ''entry'';
                   text_of = (\<lambda>f. bindE (dg_member d subsys f) (\<lambda>o'. Inr [Lit (cstr d o' ''?'')]))
               in bindE (text_of ''subnqn'') (\<lambda>subnqn.
                  bindE (text_of ''model'') (\<lambda>model.
                  bindE (text_of ''serial'') (\<lambda>serial.
                  bindE (text_of ''firmware_rev'') (\<lambda>firmware.
                  bindE (hex_pointer d subsys) (\<lambda>h.
                    Inr (Some (TopologyNode (''subsys:'' @ int_dec inst) TOPO_NVME_SUBSYS
                      [Lit (''nvme-subsys'' @ int_dec inst)] [Lit ''NVMe '', Ko ''subsystem''] device
                      ([det [Lit ''subnqn''] subnqn, det [Ko ''model''] model, det [Ko ''serial''] serial,
                        det [Ko ''firmware''] firmware,
                        det [Lit ''CMIC''] [Lit (''0x'' @ fmt_hex 2 (try_or (int_at d subsys [''cmic'']) 0))],
                        det [Ko ''member controllers''] [Lit (nat_dec n_ctrls), Ko ''units''],
                        det [Ko ''namespace heads''] [Lit (nat_dec n_heads), Ko ''units''],
                        det [Lit ''struct nvme_subsystem''] h]
                       @ (case dg_member d subsys ''subtype'' of
                            Inr o' \<Rightarrow> [det [Lit ''subtype''] [Lit (enum_name d o' ''?'')]] | Inl _ \<Rightarrow> []))
                      []))))))))))"

definition queue_node :: "('o, 'x) topo_drgn_scheme \<Rightarrow> 'o \<Rightarrow> pystr \<Rightarrow> int \<Rightarrow> TopologyNode option" where
  "queue_node d dev device i =
     (case bindE (dg_member d dev ''queues'') (\<lambda>qs. dg_index d qs i) of
        Inl _ \<Rightarrow> None
      | Inr q \<Rightarrow>
          (let qid = try_or (int_at d q [''qid'']) i; depth = try_or (int_at d q [''q_depth'']) 0;
               is_admin = (qid = 0); n = (\<lambda>f. try_or (int_at d q [f]) 0)
           in Some (TopologyNode (''q:'' @ device @ '':'' @ int_dec qid) TOPO_QUEUE
                [Lit (''qid '' @ int_dec qid @ (if is_admin then '' (admin)'' else []))]
                [Lit (''depth '' @ int_dec depth)] device
                [det [Lit ''qid''] [Lit (int_dec qid)], det [Lit ''depth''] [Lit (int_dec depth)],
                 det [Lit ''sq_tail''] [Lit (int_dec (n ''sq_tail''))], det [Lit ''cq_head''] [Lit (int_dec (n ''cq_head''))],
                 det [Lit ''sq_dma_addr''] [Lit (py_hex (n ''sq_dma_addr''))],
                 det [Lit ''cq_dma_addr''] [Lit (py_hex (n ''cq_dma_addr''))],
                 det [Lit ''blk-mq hctx'']
                   (if is_admin then [Ko ''none'', Lit '' (admin)''] else [Lit (''hctx['' @ int_dec (qid - 1) @ '']'')])]
                [])))"

definition queue_group_node :: "('o, 'x) topo_drgn_scheme \<Rightarrow> 'o \<Rightarrow> pystr \<Rightarrow> TopologyNode option" where
  "queue_group_node d dev device =
     (let online = try_or (int_at d dev [''online_queues'']) 0;
          allocated = try_or (int_at d dev [''nr_allocated_queues'']) 0
      in if online = 0 then None
         else Some (TopologyNode (''queues:'' @ device) TOPO_QUEUE_GROUP
           [Ko ''queues'', Lit ('' '' @ int_dec online), Ko ''units'']
           [Lit (''admin 1 + I/O '' @ int_dec (online - 1) @ '' (''), Ko ''allocated'', Lit ('' '' @ int_dec allocated @ '')'')]
           device
           [det [Lit ''online_queues''] [Lit (int_dec online)], det [Lit ''nr_allocated_queues''] [Lit (int_dec allocated)]]
           (List.map_filter (queue_node d dev device) [0..online - 1])))"

definition ctrl_node :: "('o, 'x) topo_drgn_scheme \<Rightarrow> 'o \<Rightarrow> pystr \<Rightarrow> exn + TopologyNode" where
  "ctrl_node d dev device =
     bindE (dg_member d dev ''ctrl'') (\<lambda>ctrl.
     bindE (subsystem_node d ctrl device) (\<lambda>subsys.
     bindE (namespace_nodes d ctrl device) (\<lambda>ns_nodes.
     bindE (dg_member d ctrl ''state'') (\<lambda>state.
     bindE (hex_pointer d dev) (\<lambda>h.
       let n = (\<lambda>f. try_or (int_at d ctrl [f]) 0);
           addr = try_or (bindE (tp_address_of d ctrl) (hex_pointer d)) [Lit ''0x0'']
       in Inr (TopologyNode (''ctrl:'' @ device) TOPO_NVME_CTRL [Lit device]
            [Lit ''NVMe '', Ko ''controller'', Lit '' (struct nvme_dev / nvme_ctrl)''] device
            [det [Ko ''state''] [Lit (enum_name d state ''?'')],
             det [Lit ''cntlid''] [Lit (int_dec (n ''cntlid''))],
             det [Lit ''queue_count''] [Lit (int_dec (n ''queue_count''))],
             det [Lit ''sqsize''] [Lit (int_dec (n ''sqsize''))],
             det [Lit ''max_hw_sectors''] [Lit (int_dec (n ''max_hw_sectors''))],
             det [Lit ''numa_node''] [Lit (int_dec (try_or (int_at d ctrl [''numa_node'']) (- 1)))],
             det [Ko ''namespace''] [Lit (nat_dec (length ns_nodes)), Ko ''units''],
             det [Lit ''struct nvme_dev''] h, det [Lit ''struct nvme_ctrl''] addr]
            (case_option [] (\<lambda>x. [x]) subsys @ ns_nodes @ case_option [] (\<lambda>x. [x]) (queue_group_node d dev device))))))))"

section \<open>The builder\<close>

text \<open>\<open>index.get(id)\<close>, or a new node below \<open>parent\<close>.\<close>

definition get_or_add :: "pystr \<Rightarrow> exn + TopologyNode \<Rightarrow> nat \<Rightarrow> store \<Rightarrow> exn + nat \<times> store" where
  "get_or_add i node parent st =
     (case map_of (st_index st) i of
        Some a \<Rightarrow> Inr (a, st)
      | None \<Rightarrow> bindE node (\<lambda>n. Inr (add_node parent n st)))"

definition bus_name :: "('o, 'x) topo_drgn_scheme \<Rightarrow> 'o \<Rightarrow> exn + pystr" where
  "bus_name d bus =
     bindE (int_at d bus [''number'']) (\<lambda>n. Inr (fmt_hex 4 (domain_nr d bus) @ '':'' @ fmt_hex 2 n))"

definition host_bridge_node :: "('o, 'x) topo_drgn_scheme \<Rightarrow> 'o \<Rightarrow> pystr \<Rightarrow> exn + TopologyNode" where
  "host_bridge_node d bus name =
     bindE (dg_member d bus ''name'') (\<lambda>label.
     bindE (hex_pointer d bus) (\<lambda>h.
       Inr (TopologyNode (''hostbridge:'' @ name) TOPO_HOST_BRIDGE [Lit (cstr d label (''pci'' @ name))]
         [Lit ''PCI '', Ko ''host bridge (root bus)''] []
         [det [Ko ''domain:bus''] [Lit name],
          det [Ko ''bus number range'']
            [Lit (int_dec (try_or (int_at d bus [''busn_res'', ''start'']) 0)), Ko ''to'',
             Lit (int_dec (try_or (int_at d bus [''busn_res'', ''end'']) 0))],
          det [Lit ''struct pci_bus''] h]
         [])))"

definition bridge_node :: "('o, 'x) topo_drgn_scheme \<Rightarrow> 'o \<Rightarrow> 'o \<Rightarrow> pystr \<Rightarrow> exn + TopologyNode" where
  "bridge_node d bus bridge name =
     bindE (pci_dev_details d bridge) (\<lambda>details.
     bindE (int_at d bus [''number'']) (\<lambda>n.
       Inr (TopologyNode (''pci:'' @ name) TOPO_PCI_BRIDGE [Lit name] (pcie_type_text d bridge) []
         (details @ [det [Ko ''secondary bus''] [Lit (int_dec n)]]) [])))"

definition endpoint_node :: "('o, 'x) topo_drgn_scheme \<Rightarrow> 'o \<Rightarrow> pystr \<Rightarrow> pystr \<Rightarrow> exn + TopologyNode" where
  "endpoint_node d pdev device name =
     bindE (pci_dev_details d pdev) (\<lambda>details.
       Inr (TopologyNode (''pci:'' @ name) TOPO_PCI_ENDPOINT [Lit name] (class_text d pdev) device details []))"

definition place_bus :: "('o, 'x) topo_drgn_scheme \<Rightarrow> 'o \<times> 'o option \<Rightarrow> nat \<times> store \<Rightarrow> exn + nat \<times> store" where
  "place_bus d = (\<lambda>(bus, bridge) (parent, st).
     bindE (case bridge of None \<Rightarrow> Inr False | Some b \<Rightarrow> tp_truth d b) (\<lambda>t.
       if \<not> t then
         bindE (bus_name d bus) (\<lambda>name.
           get_or_add (''hostbridge:'' @ name) (host_bridge_node d bus name) parent st)
       else
         bindE (bdf d (the bridge)) (\<lambda>name.
           get_or_add (''pci:'' @ name) (bridge_node d bus (the bridge) name) parent st)))"

fun place_chain :: "('o, 'x) topo_drgn_scheme \<Rightarrow> ('o \<times> 'o option) list \<Rightarrow> nat \<times> store \<Rightarrow> exn + nat \<times> store" where
  "place_chain d [] s = Inr s"
| "place_chain d (b # bs) s = bindE (place_bus d b s) (place_chain d bs)"

text \<open>One device: its ancestors, its endpoint and the controller below it.\<close>

definition place_device :: "('o, 'x) topo_drgn_scheme \<Rightarrow> pystr \<Rightarrow> 'o \<Rightarrow> 'o \<Rightarrow> store \<Rightarrow> exn + store" where
  "place_device d device dev pdev st =
     bindE (bus_chain d pdev) (\<lambda>chain.
     bindE (place_chain d chain (0, st)) (\<lambda>(parent, st1).
     bindE (bdf d pdev) (\<lambda>name.
     bindE (get_or_add (''pci:'' @ name) (endpoint_node d pdev device name) parent st1) (\<lambda>(ep, st2).
     bindE (ctrl_node d dev device) (\<lambda>c. Inr (append_child ep (Own c) st2))))))"

definition pci_function ::
  "('o, 'x) topo_drgn_scheme \<Rightarrow> (pystr \<Rightarrow> exn + 'o \<times> 'o) \<Rightarrow> pystr \<Rightarrow> exn + 'o \<times> 'o" where
  "pci_function d get_dev_and_disk device =
     bindE (get_dev_and_disk device) (\<lambda>(dev, disk).
     bindE (dg_member d dev ''dev'') (\<lambda>p.
     bindE (tp_container_of d p ''struct pci_dev'' ''dev'') (\<lambda>pdev. Inr (dev, pdev))))"

fun place_devices ::
  "('o, 'x) topo_drgn_scheme \<Rightarrow> (pystr \<Rightarrow> exn + 'o \<times> 'o) \<Rightarrow> pystr list \<Rightarrow> store \<times> (pystr \<times> pystr) list \<Rightarrow>
   exn + store \<times> (pystr \<times> pystr) list" where
  "place_devices d get [] s = Inr s"
| "place_devices d get (device # devices) (st, errors) =
     (case pci_function d get device of
        Inl e \<Rightarrow> place_devices d get devices (st, errors @ [(device, dg_exn_text d e)])
      | Inr (dev, pdev) \<Rightarrow>
          bindE (place_device d device dev pdev st) (\<lambda>st'. place_devices d get devices (st', errors)))"

definition system_node :: TopologyNode where
  "system_node = TopologyNode ''system'' TOPO_SYSTEM [Ko ''system'']
     [Lit ''PCI '', Ko ''host bridge'', Ko ''to'', Lit ''PCIe '', Ko ''lineage'', Ko ''to'', Lit ''NVMe '',
      Ko ''controllers/subsystems/namespaces/queues''] [] [] []"

definition build_topology ::
  "('o, 'x) topo_drgn_scheme \<Rightarrow> pystr list \<Rightarrow> (pystr \<Rightarrow> exn + 'o \<times> 'o) \<Rightarrow> pystr \<Rightarrow> exn + Topology" where
  "build_topology d devices get_dev_and_disk backend_kind =
     bindE (place_devices d get_dev_and_disk devices (new_store system_node, [])) (\<lambda>(st, errors).
       Inr \<lparr>tpl_root = finished_tree st, tpl_backend_kind = backend_kind,
            tpl_error = (if errors = [] then None else Some (MsgTopologyErrors errors))\<rparr>)"

text \<open>\<open>DrgnTopologyService.get_topology\<close> with the two operations it is given.\<close>

definition drgn_get_topology ::
  "('o, 'x) topo_drgn_scheme \<Rightarrow> exn + pystr list \<Rightarrow> (pystr \<Rightarrow> exn + 'o \<times> 'o) \<Rightarrow> exn + Topology" where
  "drgn_get_topology d list_devices' lookup_device' =
     bindE list_devices' (\<lambda>devices. build_topology d devices lookup_device' ''drgn'')"

end
