(* ===== verification/MockBackend.thy ===== *)
theory MockBackend
  imports EventService EbpfPerf TopologyBuild
begin

unbundle bit_operations_syntax

text \<open>
  \<open>backend/mock_backend.py\<close>: the synthetic backend, structured like the drgn one.

  The digest \<open>hashlib.sha256\<close> and the clock are parameters: \<open>sha\<close> maps bytes to a digest and a call gets the
  clock readings it makes.
\<close>

section \<open>Inventory and addresses\<close>

record mock_device =
  md_online_queues :: int
  md_depth :: int
  md_model :: pystr
  md_bdf :: pystr
  md_ids :: pystr
  md_parents :: "(pystr \<times> topo_text \<times> pystr) list"
  md_subsys :: int
  md_nsid :: int
  md_lba :: int
  md_sectors :: int

definition TOPOLOGY :: "(pystr, mock_device) dict" where
  "TOPOLOGY =
     [(''nvme0'', \<lparr>md_online_queues = 3, md_depth = 128, md_model = ''QEMU NVMe Ctrl (mock)'',
        md_bdf = ''0000:00:04.0'', md_ids = ''1b36:0010'',
        md_parents = [(''0000:00:02.0'', [Ko ''root port''], ''8086:1901'')],
        md_subsys = 0, md_nsid = 1, md_lba = 512, md_sectors = 2 * 1024 * 1024\<rparr>),
      (''nvme1'', \<lparr>md_online_queues = 2, md_depth = 64, md_model = ''Samsung PM9A3 (mock)'',
        md_bdf = ''0000:02:00.0'', md_ids = ''144d:a824'',
        md_parents = [(''0000:00:02.0'', [Ko ''root port''], ''8086:1901''),
                      (''0000:01:00.0'', [Ko ''downstream switch port''], ''1b21:1184'')],
        md_subsys = 1, md_nsid = 1, md_lba = 4096, md_sectors = 4 * 1024 * 1024\<rparr>)]"

type_synonym digest = "pybytes \<Rightarrow> pybytes"

fun join_parts :: "pystr list \<Rightarrow> pystr" where
  "join_parts [] = []"
| "join_parts [p] = p"
| "join_parts (p # ps) = p @ ''|'' @ join_parts ps"

definition addr_for :: "digest \<Rightarrow> pystr list \<Rightarrow> int" where
  "addr_for sha parts =
     (let val = le_value (rev (take 6 (sha (join_parts parts))))
      in 0xFFFF888000000000 OR (val AND 0x0000FFFFFFFFFFF0))"

definition tick :: "pyfloat \<Rightarrow> int" where
  "tick now = \<lfloor>now * 10\<rfloor>"

record queue_dynamics =
  dy_sq_tail :: int
  dy_cq_head :: int
  dy_inflight_driver :: int
  dy_inflight_sched :: int

definition queue_dynamics_at :: "int \<Rightarrow> int \<Rightarrow> int \<Rightarrow> queue_dynamics" where
  "queue_dynamics_at t idx depth =
     (let phase = t + idx * 7;
          sq_tail = phase mod depth;
          inflight_driver = (phase * 3) mod max 1 (depth div 4);
          cq_head = (sq_tail - inflight_driver) mod depth;
          inflight_sched = (phase * 2) mod max 1 (depth div 8)
      in \<lparr>dy_sq_tail = sq_tail, dy_cq_head = cq_head, dy_inflight_driver = inflight_driver,
          dy_inflight_sched = inflight_sched\<rparr>)"

definition mock_window_indices :: "int \<Rightarrow> int \<Rightarrow> int \<Rightarrow> int list" where
  "mock_window_indices doorbell depth limit =
     (let n = (if limit \<noteq> 0 then min limit depth else depth)
      in map (\<lambda>i. (doorbell - 1 - i) mod depth) [0..n - 1])"

section \<open>Devices and queues\<close>

definition mock_list_devices :: "pystr list" where
  "mock_list_devices = map fst TOPOLOGY"

definition topology_of :: "pystr \<Rightarrow> exn + mock_device" where
  "topology_of device =
     (case map_of TOPOLOGY device of None \<Rightarrow> Inl (DeviceNotFoundError device) | Some t \<Rightarrow> Inr t)"

definition mock_queue :: "digest \<Rightarrow> pystr \<Rightarrow> int \<Rightarrow> int \<Rightarrow> int \<Rightarrow> QueueSnapshot" where
  "mock_queue sha device depth t idx =
     (let is_admin = (idx = 0); dyn = queue_dynamics_at t idx depth
      in \<lparr>qs_index = idx, qs_qid = idx, qs_is_admin = is_admin, qs_depth = depth,
          qs_sq_tail = dy_sq_tail dyn, qs_cq_head = dy_cq_head dyn,
          qs_sq_dma_addr = addr_for sha [device, ''sq'' @ int_dec idx] AND 0xFFFFFFFF,
          qs_cq_dma_addr = addr_for sha [device, ''cq'' @ int_dec idx] AND 0xFFFFFFFF,
          qs_hctx_index = (if is_admin then None else Some (idx - 1)),
          qs_inflight_driver = dy_inflight_driver dyn,
          qs_inflight_sched = (if is_admin then 0 else dy_inflight_sched dyn)\<rparr>)"

text \<open>Every queue reads the clock on its own: \<open>clock i\<close> is the reading for queue \<open>i\<close>.\<close>

definition mock_get_device_snapshot :: "digest \<Rightarrow> (int \<Rightarrow> pyfloat) \<Rightarrow> pystr \<Rightarrow> exn + DeviceSnapshot" where
  "mock_get_device_snapshot sha clock device =
     bindE (topology_of device) (\<lambda>topo.
       Inr \<lparr>ds_name = device, ds_addr = addr_for sha [device, ''nvme_dev''], ds_model = md_model topo,
            ds_online_queues = md_online_queues topo, ds_allocated_queues = md_online_queues topo,
            ds_bar_addr = addr_for sha [device, ''bar''], ds_dbs_addr = addr_for sha [device, ''dbs''],
            ds_iommu_enabled = False, ds_backend_kind = ''mock'',
            ds_queues = map (\<lambda>idx. mock_queue sha device (md_depth topo) (tick (clock idx)) idx)
              [0..md_online_queues topo - 1]\<rparr>)"

definition queue_topology :: "pystr \<Rightarrow> int \<Rightarrow> exn + mock_device" where
  "queue_topology device qid =
     bindE (topology_of device) (\<lambda>topo.
       if 0 \<le> qid \<and> qid < md_online_queues topo then Inr topo else Inl (QueueNotFoundError qid))"

definition synthetic_entry :: "digest \<Rightarrow> pystr \<Rightarrow> int \<Rightarrow> int \<Rightarrow> QueueEntry" where
  "synthetic_entry sha device qid index =
     (let is_admin = (qid = 0);
          opcodes = map fst (if is_admin then ADM_OPC else NVM_OPC);
          opcode = opcodes ! nat (index mod int (length opcodes));
          uses_sgl = (index mod 3 = 2);
          base = addr_for sha [device, ''q'' @ int_dec qid, ''e'' @ int_dec index];
          prp1 = base AND NOT 0xFFF;
          prp2 = (base + PAGE_SIZE * 3) AND NOT 0xFFF
      in \<lparr>qe_index = index, qe_cid = index, qe_opcode = opcode,
          qe_opcode_name = opcode_name opcode is_admin, qe_nsid = 1,
          qe_flags = (if uses_sgl then 0x40 else 0), qe_uses_sgl = uses_sgl, qe_cdw2 = 0, qe_cdw3 = 0,
          qe_cdw10 = (index * 37) AND 0xFFFFFFFF, qe_cdw11 = 0, qe_cdw12 = (index mod 8 + 1) AND 0xFFFF,
          qe_cdw13 = 0, qe_cdw14 = 0, qe_cdw15 = 0,
          qe_prp1 = (if uses_sgl then 0 else prp1), qe_prp2 = (if uses_sgl then 0 else prp2)\<rparr>)"

definition mock_dump_indices :: "int \<Rightarrow> int \<Rightarrow> int \<Rightarrow> bool \<Rightarrow> int list" where
  "mock_dump_indices doorbell depth limit around_doorbell =
     (if around_doorbell then mock_window_indices doorbell depth (if limit \<noteq> 0 then limit else 16)
      else [0..(if limit \<noteq> 0 then min limit depth else depth) - 1])"

definition mock_get_queue_entries ::
  "digest \<Rightarrow> pyfloat \<Rightarrow> pystr \<Rightarrow> int \<Rightarrow> int \<Rightarrow> bool \<Rightarrow> exn + QueueEntry list" where
  "mock_get_queue_entries sha now device qid limit around_doorbell =
     bindE (queue_topology device qid) (\<lambda>topo.
       Inr (map (synthetic_entry sha device qid)
         (mock_dump_indices (dy_sq_tail (queue_dynamics_at (tick now) qid (md_depth topo))) (md_depth topo)
            limit around_doorbell)))"

definition synthetic_completion :: "digest \<Rightarrow> pystr \<Rightarrow> int \<Rightarrow> int \<Rightarrow> int \<Rightarrow> CompletionEntry" where
  "synthetic_completion sha device qid depth index =
     (let base = addr_for sha [device, ''cq'' @ int_dec qid, ''e'' @ int_dec index];
          status_raw = base AND 0xFFFF
      in \<lparr>ce_index = index, ce_command_id = index, ce_sq_id = qid, ce_sq_head = (index + 1) mod depth,
          ce_status_raw = status_raw, ce_phase = (status_raw AND 1 \<noteq> 0),
          ce_status_code = drop_bit 1 status_raw AND 0xFF,
          ce_status_code_type = drop_bit 9 status_raw AND 0x7, ce_result = base AND 0xFFFFFFFF\<rparr>)"

definition mock_get_completion_entries ::
  "digest \<Rightarrow> pyfloat \<Rightarrow> pystr \<Rightarrow> int \<Rightarrow> int \<Rightarrow> bool \<Rightarrow> exn + CompletionEntry list" where
  "mock_get_completion_entries sha now device qid limit around_doorbell =
     bindE (queue_topology device qid) (\<lambda>topo.
       Inr (map (synthetic_completion sha device qid (md_depth topo))
         (mock_dump_indices (dy_cq_head (queue_dynamics_at (tick now) qid (md_depth topo))) (md_depth topo)
            limit around_doorbell)))"

section \<open>PRP payloads\<close>

text \<open>Byte \<open>i\<close> of a synthetic page: \<open>(phys + i) & 0xff\<close>.\<close>

definition pattern_bytes :: "int \<Rightarrow> int \<Rightarrow> pybytes" where
  "pattern_bytes phys n = map (\<lambda>i. char_of (nat ((phys + i) AND 0xFF))) [0..n - 1]"

definition synthetic_page :: "int \<Rightarrow> int \<Rightarrow> int \<Rightarrow> bool \<Rightarrow> PrpPage" where
  "synthetic_page phys offset nbytes is_list_page =
     \<lparr>pp_phys_addr = phys, pp_offset_in_page = offset,
      pp_data = pattern_bytes phys (max 0 (min nbytes PAGE_SIZE)), pp_is_list_page = is_list_page\<rparr>"

text \<open>The loop over the pages behind a list page.\<close>

fun more_pages :: "int \<Rightarrow> int \<Rightarrow> int \<Rightarrow> int list \<Rightarrow> PrpPage list" where
  "more_pages prp2 remaining shown [] = []"
| "more_pages prp2 remaining shown (i # is') =
     (if shown \<ge> MAX_PAGE_DUMP then []
      else
        (let entry_phys = (prp2 + PAGE_SIZE * 4 + i * PAGE_SIZE) AND NOT 0xFFF;
             page_bytes = min PAGE_SIZE (min (remaining - i * PAGE_SIZE) (MAX_PAGE_DUMP - shown))
         in if page_bytes \<le> 0 then []
            else synthetic_page entry_phys 0 page_bytes False # more_pages prp2 remaining (shown + page_bytes) is'))"

definition mock_pages :: "int \<Rightarrow> int \<Rightarrow> int \<Rightarrow> PrpPage list" where
  "mock_pages prp1 prp2 total_len =
     (let offset = prp1 AND (PAGE_SIZE - 1);
          first_page_bytes = min total_len (PAGE_SIZE - offset);
          first_bytes = min first_page_bytes MAX_PAGE_DUMP;
          first = synthetic_page prp1 offset first_bytes False;
          remaining = total_len - first_page_bytes
      in first #
         (if remaining > 0 \<and> first_bytes < MAX_PAGE_DUMP then
            (let n_more = - ((- remaining) div PAGE_SIZE)
             in if n_more = 1 then
                  (let page_bytes = min remaining (MAX_PAGE_DUMP - first_bytes)
                   in if page_bytes > 0 then [synthetic_page prp2 0 page_bytes False] else [])
                else synthetic_page prp2 0 (min remaining PAGE_SIZE) True
                  # more_pages prp2 remaining first_bytes [0..min n_more 8 - 1])
          else []))"

definition mock_get_prp_payload :: "digest \<Rightarrow> pystr \<Rightarrow> int \<Rightarrow> int \<Rightarrow> exn + PrpPayload" where
  "mock_get_prp_payload sha device qid cid =
     bindE (queue_topology device qid) (\<lambda>topo.
       if \<not> (0 \<le> cid \<and> cid < md_depth topo) then
         Inr \<lparr>pl_device = device, pl_qid = qid, pl_cid = cid, pl_uses_sgl = False, pl_total_len = 0,
              pl_pages = [], pl_error = Some (MsgCidOutOfDepth cid (md_depth topo))\<rparr>
       else
         (let entry = synthetic_entry sha device qid cid
          in if qe_uses_sgl entry then
               Inr \<lparr>pl_device = device, pl_qid = qid, pl_cid = cid, pl_uses_sgl = True, pl_total_len = 0,
                    pl_pages = [], pl_error = None\<rparr>
             else
               (let nlb = qe_cdw12 entry AND 0xFFFF; total_len = (nlb + 1) * 512
                in Inr \<lparr>pl_device = device, pl_qid = qid, pl_cid = cid, pl_uses_sgl = False,
                        pl_total_len = total_len,
                        pl_pages = mock_pages (qe_prp1 entry) (qe_prp2 entry) total_len, pl_error = None\<rparr>)))"

section \<open>Delegation to the mock services\<close>

definition mock_performance :: "pyfloat \<Rightarrow> pystr \<Rightarrow> exn + DevicePerf" where
  "mock_performance now device =
     bindE (topology_of device) (\<lambda>topo. Inr (mock_get_performance (\<lambda>_. md_online_queues topo) (tick now) device))"

definition mock_events :: "pystr \<Rightarrow> exn + NvmeEvent list" where
  "mock_events device = bindE (topology_of device) (\<lambda>_. Inr (mock_get_events device))"

definition mock_error_stats :: "pystr \<Rightarrow> exn + DeviceErrorStats" where
  "mock_error_stats device = bindE (topology_of device) (\<lambda>_. Inr (mock_get_error_stats device))"

section \<open>The synthetic pointer tree\<close>

definition leaf :: "pystr \<Rightarrow> pystr \<Rightarrow> pystr \<Rightarrow> TreeNode" where
  "leaf name type_name v =
     \<lparr>tn_name = name, tn_type_name = type_name, tn_kind = ''scalar'', tn_value_repr = plain v,
      tn_address = None, tn_is_null = False, tn_expandable = False\<rparr>"

definition text_node :: "pystr \<Rightarrow> pystr \<Rightarrow> pystr \<Rightarrow> TreeNode" where
  "text_node name type_name v =
     \<lparr>tn_name = name, tn_type_name = type_name, tn_kind = ''string'', tn_value_repr = plain v,
      tn_address = None, tn_is_null = False, tn_expandable = False\<rparr>"

definition struct_node :: "pystr \<Rightarrow> pystr \<Rightarrow> int \<Rightarrow> TreeNode" where
  "struct_node name type_name addr =
     \<lparr>tn_name = name, tn_type_name = type_name, tn_kind = ''struct'',
      tn_value_repr = plain (''<'' @ type_name @ ''>''), tn_address = Some addr, tn_is_null = False,
      tn_expandable = True\<rparr>"

definition pointer_node :: "pystr \<Rightarrow> pystr \<Rightarrow> int \<Rightarrow> bool \<Rightarrow> TreeNode" where
  "pointer_node name type_name addr expandable =
     \<lparr>tn_name = name, tn_type_name = type_name, tn_kind = ''pointer'', tn_value_repr = plain (py_hex addr),
      tn_address = Some addr, tn_is_null = False, tn_expandable = expandable\<rparr>"

definition root_step :: "digest \<Rightarrow> pystr \<Rightarrow> mock_device \<Rightarrow> TreeNode \<times> TreeNode list" where
  "root_step sha device topo =
     (let a = (\<lambda>f. addr_for sha [device, f])
      in (struct_node device ''struct nvme_dev'' (a ''nvme_dev''),
          [struct_node ''ctrl'' ''struct nvme_ctrl'' (a ''ctrl''),
           pointer_node ''queues'' ''struct nvme_queue *'' (a ''queues'') True,
           leaf ''online_queues'' ''unsigned int'' (int_dec (md_online_queues topo)),
           text_node ''model_number'' ''char[40]'' (md_model topo),
           pointer_node ''bar'' ''void __iomem *'' (a ''bar'') False]))"

definition sysdev_step :: "digest \<Rightarrow> pystr \<Rightarrow> nat \<Rightarrow> TreeNode \<times> TreeNode list" where
  "sysdev_step sha device len =
     (let a = (\<lambda>f. addr_for sha [device, f, nat_dec len])
      in (struct_node ''sysdev'' ''struct device'' (a ''sysdev''),
          [pointer_node ''parent'' ''struct device *'' (a ''sysdev_parent'') True,
           struct_node ''kobj'' ''struct kobject'' (a ''kobj'')]))"

definition queue_step :: "digest \<Rightarrow> int \<Rightarrow> pystr \<Rightarrow> mock_device \<Rightarrow> pystr \<Rightarrow> int \<Rightarrow> TreeNode \<times> TreeNode list" where
  "queue_step sha now_tick device topo name idx =
     (let depth = md_depth topo; t = now_tick + idx * 7
      in (struct_node name ''struct nvme_queue'' (addr_for sha [device, ''queues'', int_dec idx]),
          [leaf ''qid'' ''u16'' (int_dec idx), leaf ''q_depth'' ''u16'' (int_dec depth),
           leaf ''sq_tail'' ''u16'' (int_dec (t mod depth)),
           leaf ''cq_head'' ''u16'' (int_dec ((t - 3) mod depth)),
           pointer_node ''dev'' ''struct nvme_dev *'' (addr_for sha [device, ''nvme_dev'']) True]))"

text \<open>
  \<open>_mock_tree_step\<close>, by the last path segment.  The two recursive calls of the source end at once: \<open>parent\<close>
  continues as \<open>sysdev\<close> on a path of the same length, \<open>dev\<close> as the root.
\<close>

definition mock_tree_step ::
  "digest \<Rightarrow> int \<Rightarrow> pystr \<Rightarrow> pystr list \<Rightarrow> mock_device \<Rightarrow> exn + TreeNode \<times> TreeNode list" where
  "mock_tree_step sha now_tick device path topo =
     (let a = (\<lambda>f. addr_for sha [device, f]); al = (\<lambda>f. addr_for sha [device, f, nat_dec (length path)])
      in if path = [] then Inr (root_step sha device topo)
         else let seg = last path in
         if seg = ''ctrl'' then
           Inr (struct_node ''ctrl'' ''struct nvme_ctrl'' (a ''ctrl''),
             [pointer_node ''pci_dev'' ''struct pci_dev *'' (a ''pci_dev'') True,
              leaf ''state'' ''enum nvme_ctrl_state'' ''NVME_CTRL_LIVE'',
              text_node ''name'' ''char[12]'' device,
              pointer_node ''subsys'' ''struct nvme_subsystem *'' (a ''subsys'') True])
         else if seg = ''pci_dev'' then
           Inr (struct_node ''pci_dev'' ''struct pci_dev'' (a ''pci_dev''),
             [pointer_node ''bus'' ''struct pci_bus *'' (a ''bus'') True,
              leaf ''vendor'' ''u16'' ''0x8086'', leaf ''device'' ''u16'' ''0x5030''])
         else if seg = ''bus'' \<or> seg = ''self'' then
           Inr (struct_node seg ''struct pci_bus'' (al seg),
             [pointer_node ''self'' ''struct pci_dev *'' (al ''self'') True,
              text_node ''name'' ''char[]'' ''pci0000:00''])
         else if seg = ''subsys'' then
           Inr (struct_node ''subsys'' ''struct nvme_subsystem'' (a ''subsys''),
             [leaf ''instance'' ''int'' ''0'', pointer_node ''sysdev'' ''struct device *'' (a ''sysdev'') True])
         else if seg = ''sysdev'' \<or> seg = ''parent'' then Inr (sysdev_step sha device (length path))
         else if seg = ''kobj'' then
           Inr (struct_node ''kobj'' ''struct kobject'' (al ''kobj''),
             [text_node ''name'' ''const char *'' ''nvme0''])
         else if seg = ''queues'' then
           Inr (pointer_node ''queues'' ''struct nvme_queue *'' (a ''queues'') True,
             map (\<lambda>i. struct_node (index_name i) ''struct nvme_queue'' (addr_for sha [device, ''queues'', nat_dec i]))
               [0..<min (nat (md_online_queues topo)) MAX_ARRAY_CHILDREN])
         else if prefix ''['' seg \<and> suffix '']'' seg then
           (case py_int (butlast (tl seg)) of
              None \<Rightarrow> Inl (ValueError (MsgRaw (butlast (tl seg))))
            | Some idx \<Rightarrow> Inr (queue_step sha now_tick device topo seg idx))
         else if seg = ''dev'' then
           (case root_step sha device topo of (n, cs) \<Rightarrow> Inr (n\<lparr>tn_name := ''dev''\<rparr>, cs))
         else Inr (unreadable_node seg (MsgUnknownField seg), []))"

definition mock_get_tree_node ::
  "digest \<Rightarrow> pyfloat \<Rightarrow> pystr \<Rightarrow> pystr list \<Rightarrow> exn + TreeExpansion" where
  "mock_get_tree_node sha now device path =
     bindE (topology_of device) (\<lambda>topo.
       if length path > MAX_DEPTH then
         Inr \<lparr>te_node = unreadable_node (last path) MsgDepthShort, te_children = [], te_depth = length path,
              te_error = Some (MsgDepthExceeded (int MAX_DEPTH) (int (length path)))\<rparr>
       else
         bindE (mock_tree_step sha (tick now) device path topo) (\<lambda>(node, children).
           Inr \<lparr>te_node = node, te_children = (if length path < MAX_DEPTH then children else []),
                te_depth = length path, te_error = None\<rparr>))"

section \<open>Consistency with the real backend\<close>

lemma topology_of_Inr: "topology_of device = Inr topo \<Longrightarrow> 0 < md_depth topo \<and> 0 < md_online_queues topo"
  by (auto simp: topology_of_def TOPOLOGY_def split: if_splits option.splits)

lemma mock_window_same: "mock_window_indices = window_indices"
  by (intro ext) (simp add: mock_window_indices_def window_indices_def)

text \<open>
  The synthetic rings are consistent.  In a mock snapshot every queue has its ring pointers inside
  the ring, the distance from head to tail is the number of commands the driver has in flight, the
  queues are numbered from the admin queue on, and only I/O queues belong to a hardware queue.
\<close>

theorem mock_snapshot_consistent:
  assumes "mock_get_device_snapshot sha clock device = Inr snap" and "q \<in> set (ds_queues snap)"
  shows "0 \<le> qs_sq_tail q \<and> qs_sq_tail q < qs_depth q \<and> 0 \<le> qs_cq_head q \<and> qs_cq_head q < qs_depth q \<and>
    (qs_sq_tail q - qs_cq_head q) mod qs_depth q = qs_inflight_driver q \<and> 0 \<le> qs_inflight_sched q \<and>
    map qs_qid (ds_queues snap) = [0..ds_online_queues snap - 1] \<and>
    (qs_is_admin q \<longleftrightarrow> qs_qid q = 0) \<and> (qs_hctx_index q = None \<longleftrightarrow> qs_is_admin q)"
proof -
  from assms obtain topo idx where topo: "topology_of device = Inr topo"
    and q: "q = mock_queue sha device (md_depth topo) (tick (clock idx)) idx"
    and qs: "map qs_qid (ds_queues snap) = [0..ds_online_queues snap - 1]"
    by (auto simp: mock_get_device_snapshot_def bindE_Inr mock_queue_def Let_def comp_def)
  define n where "n = md_depth topo"
  have n: "0 < n" using topology_of_Inr [OF topo] by (simp add: n_def)
  define ph where "ph = tick (clock idx) + idx * 7"
  define f where "f = (ph * 3) mod max 1 (n div 4)"
  have "max 1 (n div 4) \<le> n" using n by linarith
  moreover have "0 \<le> f" "f < max 1 (n div 4)" by (simp_all add: f_def)
  ultimately have f: "0 \<le> f" "f < n" by linarith+
  have "(ph mod n - (ph mod n - f) mod n) mod n = f"
    using f by (simp add: mod_diff_right_eq)
  moreover have "0 \<le> (ph * 2) mod max 1 (n div 8)" by simp
  ultimately show ?thesis
    using n qs by (simp add: q mock_queue_def queue_dynamics_at_def Let_def flip: n_def ph_def f_def)
qed

theorem mock_snapshot_consistent_witness:
  "\<exists>snap q. mock_get_device_snapshot (\<lambda>_. ''abcdef'') (\<lambda>_. 3) ''nvme1'' = Inr snap \<and> q \<in> set (ds_queues snap) \<and>
     qs_cq_head q < qs_depth q"
proof -
  obtain snap where s: "mock_get_device_snapshot (\<lambda>_. ''abcdef'') (\<lambda>_. 3) ''nvme1'' = Inr snap"
    by (simp add: mock_get_device_snapshot_def topology_of_def TOPOLOGY_def)
  then have "ds_queues snap \<noteq> []"
    by (auto simp: mock_get_device_snapshot_def topology_of_def TOPOLOGY_def)
  then obtain q where "q \<in> set (ds_queues snap)" by (meson last_in_set)
  with mock_snapshot_consistent [OF s this] s show ?thesis by blast
qed


section \<open>The payload decoder and the tree\<close>

lemma addr_for_bit: "bit (addr_for sha parts) 63"
  by (simp add: addr_for_def Let_def bit_or_iff)

lemma synthetic_prp1:
  assumes "\<not> qe_uses_sgl (synthetic_entry sha device qid index)"
  shows "0 < qe_prp1 (synthetic_entry sha device qid index)"
    and "qe_prp1 (synthetic_entry sha device qid index) mod 4096 = 0"
proof -
  define base where "base = addr_for sha [device, ''q'' @ int_dec qid, ''e'' @ int_dec index]"
  have prp1: "qe_prp1 (synthetic_entry sha device qid index) = base AND NOT 0xFFF"
    using assms by (simp add: synthetic_entry_def Let_def base_def)
  have "bit (base AND NOT 0xFFF) 63"
    using addr_for_bit by (simp add: base_def bit_and_iff bit_not_iff)
  then have "base AND NOT 0xFFF \<noteq> 0" by (metis bit_0_eq bot_apply bot_bool_def)
  moreover have "0 \<le> base" by (simp add: base_def addr_for_def Let_def)
  ultimately show "0 < qe_prp1 (synthetic_entry sha device qid index)"
    unfolding prp1 by (simp add: order_less_le)
  have "(base AND NOT 0xFFF) AND 0xFFF = 0" by (rule bit_eqI) (auto simp: bit_simps)
  then have "(base AND NOT 0xFFF) mod 4096 = 0" by (simp only: and_mask_mod)
  then show "qe_prp1 (synthetic_entry sha device qid index) mod 4096 = 0" unfolding prp1 .
qed

lemma pattern_page: "synthetic_page phys offset n l = read_page (\<lambda>a k. Inr (pattern_bytes a k)) phys offset n l"
proof -
  have "pattern_bytes phys (max 0 k) = pattern_bytes phys k" for k by (simp add: pattern_bytes_def max_def)
  then show ?thesis by (simp add: synthetic_page_def read_page_def Let_def)
qed

text \<open>
  The mock payload is what the real decoder makes.  For a command with PRPs the pages of the mock
  backend are the pages that the decoder of the real backend returns for the same command when the
  byte at physical address \<open>a\<close> is \<open>a & 0xff\<close>.
\<close>

theorem mock_payload_decoded:
  assumes "mock_get_prp_payload sha device qid cid = Inr p" and "pl_error p = None" and "\<not> pl_uses_sgl p"
  shows "pl_pages p = decode_prp_pages (\<lambda>a n. Inr (pattern_bytes a n))
    (qe_prp1 (synthetic_entry sha device qid cid)) (qe_prp2 (synthetic_entry sha device qid cid)) (pl_total_len p)"
proof -
  define e where "e = synthetic_entry sha device qid cid"
  from assms have sgl: "\<not> qe_uses_sgl e"
    and len: "pl_total_len p = ((qe_cdw12 e AND 0xFFFF) + 1) * 512"
    and pages: "pl_pages p = mock_pages (qe_prp1 e) (qe_prp2 e) (pl_total_len p)"
    by (auto simp: mock_get_prp_payload_def bindE_Inr e_def Let_def split: if_splits)
  have prp1: "0 < qe_prp1 e" "qe_prp1 e mod 4096 = 0"
    using synthetic_prp1 sgl unfolding e_def by blast+
  have "0 \<le> qe_cdw12 e AND 0xFFFF" by simp
  then have "0 < pl_total_len p" unfolding len by (intro mult_pos_pos) linarith+
  define first where "first = min (pl_total_len p) (4096 - 0)"
  have one: "pl_total_len p - first \<le> 0 \<or> first \<ge> 4096" by (auto simp: first_def)
  have "decode_prp_pages rd (qe_prp1 e) (qe_prp2 e) (pl_total_len p) = [read_page rd (qe_prp1 e) 0 first False]" for rd
    using decode_prp_pages_cases [OF prp1(1) \<open>0 < pl_total_len p\<close> prp1(2) [symmetric] first_def] one by simp
  moreover have "mock_pages (qe_prp1 e) (qe_prp2 e) (pl_total_len p) = [synthetic_page (qe_prp1 e) 0 first False]"
    using one prp1 by (auto simp: mock_pages_def Let_def page_consts and_mask_mod first_def)
  ultimately show ?thesis unfolding pages e_def [symmetric] pattern_page by simp
qed

theorem mock_payload_decoded_witness:
  "\<exists>p. mock_get_prp_payload (\<lambda>_. ''abcdef'') ''nvme1'' 1 0 = Inr p \<and>
     pl_pages p = decode_prp_pages (\<lambda>a n. Inr (pattern_bytes a n))
       (qe_prp1 (synthetic_entry (\<lambda>_. ''abcdef'') ''nvme1'' 1 0))
       (qe_prp2 (synthetic_entry (\<lambda>_. ''abcdef'') ''nvme1'' 1 0)) 1024"
proof -
  obtain p where p: "mock_get_prp_payload (\<lambda>_. ''abcdef'') ''nvme1'' 1 0 = Inr p" "pl_error p = None"
      "\<not> pl_uses_sgl p" "pl_total_len p = 1024"
    by (simp add: mock_get_prp_payload_def queue_topology_def topology_of_def TOPOLOGY_def synthetic_entry_def Let_def)
  with mock_payload_decoded [OF p(1-3)] show ?thesis by auto
qed

lemma queues_child:
  "mock_tree_step sha t device (path @ [index_name i]) topo = Inr (queue_step sha t device topo (index_name i) (int i))"
  by (simp add: mock_tree_step_def index_name_def suffix_def py_int_nat_dec Let_def)

lemmas mock_nodes = leaf_def text_node_def struct_node_def pointer_node_def

definition browsable :: "pystr \<Rightarrow> bool" where
  "browsable name \<longleftrightarrow>
     name \<in> set [''ctrl'', ''queues'', ''pci_dev'', ''subsys'', ''bus'', ''self'', ''sysdev'', ''parent'', ''kobj'', ''dev'']
     \<or> (\<exists>i. name = index_name i)"

lemma browsable_index: "browsable (index_name i)"
  by (auto simp: browsable_def)

lemma mock_tree_step_names:
  assumes "mock_tree_step sha t device path topo = Inr (node, children)" "c \<in> set children" "tn_expandable c"
  shows "browsable (tn_name c)"
proof (cases "path \<noteq> [] \<and> last path = ''queues''")
  case True
  with assms(1,2) show ?thesis
    by (auto simp: mock_tree_step_def mock_nodes Let_def browsable_index)
next
  case False
  with assms show ?thesis
    by (auto simp: mock_tree_step_def root_step_def sysdev_step_def queue_step_def mock_nodes unreadable_node_def
        Let_def browsable_def split: if_splits option.splits)
qed

lemma mock_tree_step_known:
  assumes "browsable name"
  shows "\<exists>node children. mock_tree_step sha t device (path @ [name]) topo = Inr (node, children) \<and>
    tn_kind node \<noteq> ''unreadable''"
proof (cases "\<exists>i. name = index_name i")
  case True
  then show ?thesis by (auto simp: queues_child queue_step_def mock_nodes Let_def)
next
  case False
  with assms show ?thesis
    by (auto simp: browsable_def mock_tree_step_def root_step_def sysdev_step_def mock_nodes Let_def)
qed

text \<open>
  The mock tree never ends in a broken link.  Every child that the mock backend lists as expandable
  can be opened, at any later time: the answer is a readable node one level deeper and no error,
  although the synthetic structures point back to themselves.
\<close>

theorem mock_tree_closed:
  assumes "mock_get_tree_node sha now device path = Inr ex" and "c \<in> set (te_children ex)" and "tn_expandable c"
  shows "\<exists>ex'. mock_get_tree_node sha later device (path @ [tn_name c]) = Inr ex' \<and> te_error ex' = None \<and>
    te_depth ex' = te_depth ex + 1 \<and> tn_kind (te_node ex') \<noteq> ''unreadable''"
proof -
  from assms obtain topo node children where topo: "topology_of device = Inr topo"
    and step: "mock_tree_step sha (tick now) device path topo = Inr (node, children)"
    and c: "c \<in> set children" and ex: "te_depth ex = length path" "length path < MAX_DEPTH"
    by (auto simp: mock_get_tree_node_def bindE_Inr split: if_splits)
  from mock_tree_step_known [OF mock_tree_step_names [OF step c assms(3)], of sha "tick later" device path topo]
  show ?thesis using topo ex by (auto simp: mock_get_tree_node_def)
qed

theorem mock_tree_closed_witness:
  "\<exists>ex'. mock_get_tree_node (\<lambda>_. ''abcdef'') 5 ''nvme0'' [''queues'', ''[1]''] = Inr ex' \<and> te_error ex' = None \<and>
     tn_kind (te_node ex') \<noteq> ''unreadable''"
proof -
  obtain ex where ex: "mock_get_tree_node (\<lambda>_. ''abcdef'') 3 ''nvme0'' [''queues''] = Inr ex"
    and c: "struct_node (index_name 1) ''struct nvme_queue'' (addr_for (\<lambda>_. ''abcdef'') [''nvme0'', ''queues'', nat_dec 1])
      \<in> set (te_children ex)" (is "?c \<in> _")
    by (auto simp: mock_get_tree_node_def topology_of_def TOPOLOGY_def mock_tree_step_def Let_def MAX_DEPTH_def
        MAX_ARRAY_CHILDREN_def struct_node_def)
  have "tn_expandable ?c" "tn_name ?c = index_name 1" by (simp_all add: struct_node_def)
  moreover have "index_name 1 = ''[1]''" by code_simp
  ultimately show ?thesis using mock_tree_closed [OF ex c, of 5] by auto
qed

end
