(* ===== verification/TopologyLaws.thy ===== *)
theory TopologyLaws
  imports TopologyBuild
begin

text \<open>
  What the topology builder guarantees: every device is shown once below its PCI address, ancestors are
  shared, and the walk up the buses ends on any memory.
\<close>

section \<open>Placing nodes\<close>

definition shared_kinds :: "pystr set" where
  "shared_kinds = {TOPO_SYSTEM, TOPO_HOST_BRIDGE, TOPO_PCI_BRIDGE, TOPO_PCI_ENDPOINT}"

text \<open>The controllers of a store, each with the id of the node it hangs below.\<close>

definition st_owned :: "store \<Rightarrow> (pystr \<times> TopologyNode) list" where
  "st_owned st = concat (map (\<lambda>c. map (Pair (node_id (cell_node c))) (owned (cell_children c))) (st_cells st))"

definition tree_inv :: "store \<Rightarrow> (pystr \<times> TopologyNode) list \<Rightarrow> bool" where
  "tree_inv st ow \<longleftrightarrow> store_ok st \<and> (\<forall>m \<in> set (map cell_node (st_cells st)). node_kind m \<in> shared_kinds) \<and>
     mset (st_owned st) = mset ow"

lemma st_owned_sum:
  "mset (st_owned st) = (\<Sum>c\<leftarrow>st_cells st. mset (map (Pair (node_id (cell_node c))) (owned (cell_children c))))"
proof -
  have "mset (concat xss) = (\<Sum>xs\<leftarrow>xss. mset xs)" for xss :: "(pystr \<times> TopologyNode) list list"
    by (induction xss) simp_all
  then show ?thesis by (simp add: st_owned_def comp_def)
qed

lemma tree_inv_own:
  assumes "tree_inv st ow" "a < length (st_cells st)"
  shows "tree_inv (append_child a (Own n) st) (ow @ [(node_id (cell_node (st_cells st ! a)), n)])"
proof -
  have "mset (st_owned (append_child a (Own n) st)) =
      mset (st_owned st) + {#(node_id (cell_node (st_cells st ! a)), n)#}"
    unfolding st_owned_sum append_child_def using assms(2) by (simp add: sum_list_update_add)
  moreover have "\<forall>m \<in> set (map cell_node (st_cells (append_child a (Own n) st))). node_kind m \<in> shared_kinds"
    unfolding append_child_cells(3) [OF assms(2)] using assms(1) unfolding tree_inv_def by blast
  ultimately show ?thesis
    using assms store_ok_own by (simp add: tree_inv_def)
qed

lemma tree_inv_add:
  assumes inv: "tree_inv st ow" and p: "p < length (st_cells st)"
    and n: "map_of (st_index st) (node_id n) = None" "node_children n = []" "node_kind n \<in> shared_kinds"
  shows "tree_inv (snd (add_node p n st)) ow"
    and "length (st_cells (snd (add_node p n st))) = Suc (length (st_cells st))"
    and "node_id (cell_node (st_cells (snd (add_node p n st)) ! length (st_cells st))) = node_id n"
proof -
  let ?st = "snd (add_node p n st)"
  have cells: "st_cells ?st = (st_cells st)[p := (st_cells st ! p)\<lparr>cell_children := cell_children (st_cells st ! p) @
      [Shared (length (st_cells st))]\<rparr>] @ [\<lparr>cell_node = n, cell_children = []\<rparr>]"
    using p by (simp add: add_node_def append_child_def Let_def nth_append list_update_append)
  have "mset (st_owned ?st) = mset (st_owned st)"
    unfolding st_owned_sum cells using p by (simp add: sum_list_update_add [where z = "{#}"])
  moreover have "map cell_node (st_cells ?st) = map cell_node (st_cells st) @ [n]"
    unfolding cells using p by (simp add: map_cells_update)
  moreover have "store_ok ?st" using store_ok_add [OF _ p n(1,2)] inv by (simp only: tree_inv_def)
  ultimately show "tree_inv ?st ow" using inv n(3) by (auto simp: tree_inv_def)
  show "length (st_cells ?st) = Suc (length (st_cells st))" by (simp add: cells)
  show "node_id (cell_node (st_cells ?st ! length (st_cells st))) = node_id n" by (simp add: cells nth_append)
qed

lemma get_or_add_inv:
  assumes inv: "tree_inv st ow" and p: "p < length (st_cells st)"
    and node: "\<And>n. node = Inr n \<Longrightarrow> node_id n = i \<and> node_children n = [] \<and> node_kind n \<in> shared_kinds"
    and res: "get_or_add i node p st = Inr (a, st')"
  shows "tree_inv st' ow \<and> a < length (st_cells st') \<and> node_id (cell_node (st_cells st' ! a)) = i"
proof (cases "map_of (st_index st) i")
  case None
  with res obtain n where n: "node = Inr n" "(a, st') = add_node p n st"
    by (auto simp: get_or_add_def bindE_Inr)
  then have "a = length (st_cells st)" "st' = snd (add_node p n st)"
    by (simp_all add: add_node_def Let_def)
  with tree_inv_add [OF inv p, of n] node [OF n(1)] None show ?thesis by simp
next
  case (Some b)
  with res inv store_lookup [of st i b] show ?thesis by (auto simp: get_or_add_def tree_inv_def)
qed

lemma place_bus_inv:
  assumes inv: "tree_inv st ow" and p: "p < length (st_cells st)" and res: "place_bus d bb (p, st) = Inr (a, st')"
  shows "tree_inv st' ow \<and> a < length (st_cells st')"
proof -
  obtain bus bridge where bb: "bb = (bus, bridge)" by (cases bb)
  have host: "node_id n = ''hostbridge:'' @ name \<and> node_children n = [] \<and> node_kind n \<in> shared_kinds"
    if "host_bridge_node d bus name = Inr n" for n name
    using that by (auto simp: host_bridge_node_def bindE_Inr shared_kinds_def)
  have pci: "node_id n = ''pci:'' @ name \<and> node_children n = [] \<and> node_kind n \<in> shared_kinds"
    if "bridge_node d bus b name = Inr n" for n name b
    using that by (auto simp: bridge_node_def bindE_Inr shared_kinds_def)
  from res bb obtain name where
    "get_or_add (''hostbridge:'' @ name) (host_bridge_node d bus name) p st = Inr (a, st') \<or>
     get_or_add (''pci:'' @ name) (bridge_node d bus (the bridge) name) p st = Inr (a, st')"
    by (auto simp: place_bus_def bindE_Inr split: if_splits)
  then show ?thesis using get_or_add_inv [OF inv p] host pci by blast
qed

lemma place_chain_inv:
  "\<lbrakk>tree_inv st ow; p < length (st_cells st); place_chain d bs (p, st) = Inr (a, st')\<rbrakk> \<Longrightarrow>
    tree_inv st' ow \<and> a < length (st_cells st')"
proof (induction bs arbitrary: p st)
  case (Cons b bs)
  then obtain p1 st1 where "place_bus d b (p, st) = Inr (p1, st1)" "place_chain d bs (p1, st1) = Inr (a, st')"
    by (auto simp: bindE_Inr)
  with place_bus_inv [OF Cons.prems(1,2)] Cons.IH show ?case by blast
qed simp

text \<open>Where a device ends up: the id of its endpoint and its controller node.\<close>

definition placed ::
  "('o, 'x) topo_drgn_scheme \<Rightarrow> (pystr \<Rightarrow> exn + 'o \<times> 'o) \<Rightarrow> pystr \<Rightarrow> (pystr \<times> TopologyNode) option" where
  "placed d get device =
     (case pci_function d get device of
        Inl _ \<Rightarrow> None
      | Inr (dev, pdev) \<Rightarrow>
          try_opt (bindE (bdf d pdev) (\<lambda>name. bindE (ctrl_node d dev device) (\<lambda>c. Inr (''pci:'' @ name, c)))))"

lemma place_device_inv:
  assumes inv: "tree_inv st ow" and f: "pci_function d get device = Inr (dev, pdev)"
    and res: "place_device d device dev pdev st = Inr st'"
  shows "\<exists>x. placed d get device = Some x \<and> tree_inv st' (ow @ [x])"
proof -
  from inv have "0 < length (st_cells st)" using store_okD(1) by (simp only: tree_inv_def)
  moreover from res obtain chain p st1 name ep st2 c where
    chain: "place_chain d chain (0, st) = Inr (p, st1)" and name: "bdf d pdev = Inr name"
    and ep: "get_or_add (''pci:'' @ name) (endpoint_node d pdev device name) p st1 = Inr (ep, st2)"
    and c: "ctrl_node d dev device = Inr c" and st': "st' = append_child ep (Own c) st2"
    by (auto simp: place_device_def bindE_Inr)
  ultimately have "tree_inv st1 ow" "p < length (st_cells st1)" using place_chain_inv [OF inv] by blast+
  moreover have "node_id n = ''pci:'' @ name \<and> node_children n = [] \<and> node_kind n \<in> shared_kinds"
    if "endpoint_node d pdev device name = Inr n" for n
    using that by (auto simp: endpoint_node_def bindE_Inr shared_kinds_def)
  ultimately have "tree_inv st2 ow" "ep < length (st_cells st2)" "node_id (cell_node (st_cells st2 ! ep)) = ''pci:'' @ name"
    using get_or_add_inv [OF _ _ _ ep] by blast+
  with tree_inv_own [of st2 ow ep c] st' show ?thesis
    by (simp add: placed_def f name c try_opt_def)
qed

lemma place_devices_inv:
  assumes "tree_inv st ow" "place_devices d get devices (st, errors) = Inr (st', errors')"
  shows "tree_inv st' (ow @ List.map_filter (placed d get) devices) \<and>
    errors' = errors @ concat (map (\<lambda>dv. case pci_function d get dv of Inl e \<Rightarrow> [(dv, dg_exn_text d e)] | Inr _ \<Rightarrow> []) devices) \<and>
    (\<forall>dv \<in> set devices. (\<exists>x. pci_function d get dv = Inr x) \<longrightarrow> (\<exists>x. placed d get dv = Some x))"
  using assms
proof (induction devices arbitrary: st ow errors)
  case Nil
  then show ?case by (simp add: List.map_filter_def)
next
  case (Cons dv dvs)
  show ?case
  proof (cases "pci_function d get dv")
    case (Inl e)
    then have "placed d get dv = None" by (simp add: placed_def)
    moreover from Inl Cons.prems(2) have "place_devices d get dvs (st, errors @ [(dv, dg_exn_text d e)]) = Inr (st', errors')"
      by simp
    from Cons.IH [OF Cons.prems(1) this] have "tree_inv st' (ow @ List.map_filter (placed d get) dvs)"
      "errors' = (errors @ [(dv, dg_exn_text d e)]) @
         concat (map (\<lambda>dv. case pci_function d get dv of Inl e \<Rightarrow> [(dv, dg_exn_text d e)] | Inr _ \<Rightarrow> []) dvs)"
      "\<forall>dv \<in> set dvs. (\<exists>x. pci_function d get dv = Inr x) \<longrightarrow> (\<exists>x. placed d get dv = Some x)" by blast+
    ultimately show ?thesis using Inl by (simp add: List.map_filter_simps)
  next
    case (Inr x)
    obtain dev pdev where x: "x = (dev, pdev)" by (cases x)
    with Inr Cons.prems(2) obtain st1 where st1: "place_device d dv dev pdev st = Inr st1"
      "place_devices d get dvs (st1, errors) = Inr (st', errors')" by (auto simp: bindE_Inr)
    from place_device_inv [OF Cons.prems(1) Inr [unfolded x] st1(1)] obtain y where
      y: "placed d get dv = Some y" "tree_inv st1 (ow @ [y])" by blast
    from Cons.IH [OF y(2) st1(2)] y(1) Inr show ?thesis by (simp add: List.map_filter_simps)
  qed
qed

section \<open>The kinds below a controller\<close>

definition nvme_kinds :: "pystr set" where
  "nvme_kinds = {TOPO_NVME_SUBSYS, TOPO_NAMESPACE, TOPO_QUEUE_GROUP, TOPO_QUEUE}"

lemma leaf_nodes: "node_children n = [] \<Longrightarrow> tree_nodes n = [n]"
  by (subst tree_nodes_unfold) simp

lemma subsystem_node_kind:
  "subsystem_node d ctrl device = Inr (Some n) \<Longrightarrow> node_children n = [] \<and> node_kind n \<in> nvme_kinds"
  by (auto simp: subsystem_node_def bindE_Inr Let_def nvme_kinds_def split: sum.splits if_splits)

lemma namespace_node_kind:
  "namespace_node d device ns = Inr n \<Longrightarrow> node_children n = [] \<and> node_kind n \<in> nvme_kinds"
  by (auto simp: namespace_node_def bindE_Inr Let_def nvme_kinds_def split: if_splits)

lemma queue_node_kind:
  "queue_node d dev device i = Some n \<Longrightarrow> node_children n = [] \<and> node_kind n \<in> nvme_kinds"
  by (auto simp: queue_node_def Let_def nvme_kinds_def split: sum.splits)

lemma queue_group_kinds:
  assumes "queue_group_node d dev device = Some n"
  shows "\<forall>m \<in> set (tree_nodes n). node_kind m \<in> nvme_kinds"
proof -
  have q: "\<forall>m \<in> set (List.map_filter (queue_node d dev device) is'). tree_nodes m = [m] \<and> node_kind m \<in> nvme_kinds" for is'
    using queue_node_kind leaf_nodes by (fastforce simp: List.map_filter_def)
  from assms have "node_kind n \<in> nvme_kinds" "\<exists>is'. node_children n = List.map_filter (queue_node d dev device) is'"
    by (auto simp: queue_group_node_def Let_def nvme_kinds_def split: if_splits)
  with q show ?thesis by (subst tree_nodes_unfold) auto
qed

lemma mapE_members: "mapE f xs = Inr ys \<Longrightarrow> y \<in> set ys \<Longrightarrow> \<exists>x. f x = Inr y"
  by (induction xs arbitrary: ys) (auto simp: bindE_Inr)

lemma ctrl_node_kinds:
  assumes "ctrl_node d dev device = Inr c"
  shows "node_key c = (TOPO_NVME_CTRL, ''ctrl:'' @ device, device)"
    and "\<forall>m \<in> set (concat (map tree_nodes (node_children c))). node_kind m \<in> nvme_kinds"
proof -
  from assms obtain ctrl subsys ns where parts: "subsystem_node d ctrl device = Inr subsys"
      "namespace_nodes d ctrl device = Inr ns"
    and key: "node_key c = (TOPO_NVME_CTRL, ''ctrl:'' @ device, device)"
    and ch: "node_children c = case_option [] (\<lambda>x. [x]) subsys @ ns @ case_option [] (\<lambda>x. [x]) (queue_group_node d dev device)"
    by (auto simp: ctrl_node_def bindE_Inr Let_def node_key_def)
  show "node_key c = (TOPO_NVME_CTRL, ''ctrl:'' @ device, device)" by (rule key)
  have "\<forall>m \<in> set (tree_nodes n). node_kind m \<in> nvme_kinds" if n: "n \<in> set ns" for n
  proof -
    from mapE_members [OF parts(2) [unfolded namespace_nodes_def] n] obtain x where "namespace_node d device x = Inr n" ..
    from namespace_node_kind [OF this] show ?thesis by (simp add: leaf_nodes)
  qed
  moreover have "\<forall>m \<in> set (tree_nodes n). node_kind m \<in> nvme_kinds" if "subsys = Some n" for n
    using that parts(1) subsystem_node_kind leaf_nodes by fastforce
  ultimately show "\<forall>m \<in> set (concat (map tree_nodes (node_children c))). node_kind m \<in> nvme_kinds"
    using queue_group_kinds [of d dev device] by (auto simp: ch split: option.splits dest: sym)
qed

text \<open>Selecting nodes of a finished tree by their kind.\<close>

definition keys_of :: "pystr set \<Rightarrow> TopologyNode \<Rightarrow> (pystr \<times> pystr \<times> pystr) list" where
  "keys_of kinds t = filter (\<lambda>k. fst k \<in> kinds) (map node_key (tree_nodes t))"

lemma filter_cell_nodes:
  "filter_mset P (\<Sum>c\<leftarrow>cells. cell_nodes c) =
    mset (filter P (map (node_key \<circ> cell_node) cells)) +
    (\<Sum>x\<leftarrow>concat (map (\<lambda>c. map (Pair (node_id (cell_node c))) (owned (cell_children c))) cells).
      filter_mset P (tree_keys (snd x)))"
proof -
  have "filter_mset P (\<Sum>n\<leftarrow>ns. tree_keys n) = (\<Sum>n\<leftarrow>ns. filter_mset P (tree_keys n))" for ns
    by (induction ns) simp_all
  then show ?thesis
    by (induction cells) (simp_all add: cell_nodes_def comp_def ac_simps del: mset_map)
qed

lemma kinds_disjoint: "TOPO_NVME_CTRL \<notin> nvme_kinds" "TOPO_NVME_CTRL \<notin> shared_kinds" "shared_kinds \<inter> nvme_kinds = {}"
  by (simp_all add: shared_kinds_def nvme_kinds_def topo_kinds)

lemma ctrl_keys:
  assumes "ctrl_node d dev device = Inr c"
  shows "filter_mset (\<lambda>k. fst k \<in> {TOPO_NVME_CTRL}) (tree_keys c) = {#(TOPO_NVME_CTRL, ''ctrl:'' @ device, device)#}"
    and "filter_mset (\<lambda>k. fst k \<in> shared_kinds) (tree_keys c) = {#}"
proof -
  let ?sub = "concat (map tree_nodes (node_children c))"
  have keys: "tree_keys c = add_mset (TOPO_NVME_CTRL, ''ctrl:'' @ device, device) (mset (map node_key ?sub))"
    by (subst tree_nodes_unfold) (simp only: list.map mset.simps ctrl_node_kinds(1) [OF assms])
  have none: "filter_mset (\<lambda>k. fst k \<in> K) (mset (map node_key ?sub)) = {#}" if "K \<inter> nvme_kinds = {}" for K
  proof -
    have "filter (\<lambda>k. fst k \<in> K) (map node_key ?sub) = []"
      using that ctrl_node_kinds(2) [OF assms] by (fastforce simp: filter_empty_conv node_key_def)
    then show ?thesis by (simp only: mset_filter [symmetric] mset.simps)
  qed
  show "filter_mset (\<lambda>k. fst k \<in> {TOPO_NVME_CTRL}) (tree_keys c) = {#(TOPO_NVME_CTRL, ''ctrl:'' @ device, device)#}"
    unfolding keys using none [of "{TOPO_NVME_CTRL}"] kinds_disjoint by simp
  show "filter_mset (\<lambda>k. fst k \<in> shared_kinds) (tree_keys c) = {#}"
    unfolding keys using none [of shared_kinds] kinds_disjoint by simp
qed

lemma placed_ctrl:
  "placed d get dv = Some x \<Longrightarrow> \<exists>dev pdev name. pci_function d get dv = Inr (dev, pdev) \<and> bdf d pdev = Inr name \<and>
    fst x = ''pci:'' @ name \<and> ctrl_node d dev dv = Inr (snd x)"
  by (auto simp: placed_def try_opt_def split: sum.splits) (auto simp: bindE_Inr)

lemma sum_list_perm: "mset xs = mset ys \<Longrightarrow> (\<Sum>x\<leftarrow>xs. f x) = (\<Sum>x\<leftarrow>ys. f x :: 'm multiset)"
proof -
  have "(\<Sum>x\<leftarrow>zs. f x) = (\<Sum>x\<in>#mset zs. f x)" for zs by (simp only: sum_mset_sum_list flip: mset_map)
  then show "mset xs = mset ys \<Longrightarrow> ?thesis" by simp
qed

lemma tree_inv_split:
  assumes "tree_inv st ow"
  shows "mset (keys_of K (finished_tree st)) =
    mset (filter (\<lambda>k. fst k \<in> K) (map (node_key \<circ> cell_node) (st_cells st))) +
    (\<Sum>x\<leftarrow>ow. filter_mset (\<lambda>k. fst k \<in> K) (tree_keys (snd x)))"
proof -
  have "mset (keys_of K (finished_tree st)) = filter_mset (\<lambda>k. fst k \<in> K) (tree_keys (finished_tree st))"
    by (simp only: keys_of_def mset_filter)
  also have "\<dots> = mset (filter (\<lambda>k. fst k \<in> K) (map (node_key \<circ> cell_node) (st_cells st))) +
      (\<Sum>x\<leftarrow>st_owned st. filter_mset (\<lambda>k. fst k \<in> K) (tree_keys (snd x)))"
    using assms unfolding tree_inv_def by (simp only: finished_tree_keys filter_cell_nodes st_owned_def)
  also have "(\<Sum>x\<leftarrow>st_owned st. filter_mset (\<lambda>k. fst k \<in> K) (tree_keys (snd x))) =
      (\<Sum>x\<leftarrow>ow. filter_mset (\<lambda>k. fst k \<in> K) (tree_keys (snd x)))"
    using assms unfolding tree_inv_def by (intro sum_list_perm) blast
  finally show ?thesis .
qed

lemma tree_inv_keys:
  assumes inv: "tree_inv st (List.map_filter (placed d get) devices)"
  shows "mset (keys_of {TOPO_NVME_CTRL} (finished_tree st)) =
      mset (map (\<lambda>dv. (TOPO_NVME_CTRL, ''ctrl:'' @ dv, dv)) (filter (\<lambda>dv. placed d get dv \<noteq> None) devices))"
    and "mset (keys_of shared_kinds (finished_tree st)) = mset (map (node_key \<circ> cell_node) (st_cells st))"
proof -
  let ?ow = "List.map_filter (placed d get) devices"
  note split = tree_inv_split [OF inv]
  have cells: "\<forall>c \<in> set (st_cells st). fst (node_key (cell_node c)) \<in> shared_kinds"
    using inv by (simp add: tree_inv_def node_key_def)
  have "(\<Sum>x\<leftarrow>?ow. filter_mset (\<lambda>k. fst k \<in> {TOPO_NVME_CTRL}) (tree_keys (snd x))) =
      mset (map (\<lambda>dv. (TOPO_NVME_CTRL, ''ctrl:'' @ dv, dv)) (filter (\<lambda>dv. placed d get dv \<noteq> None) devices))"
  proof (induction devices)
    case (Cons dv dvs)
    show ?case
    proof (cases "placed d get dv")
      case (Some x)
      from placed_ctrl [OF this] obtain dev where "ctrl_node d dev dv = Inr (snd x)" by blast
      from ctrl_keys(1) [OF this] Some Cons show ?thesis by (simp add: List.map_filter_simps del: mset_map)
    qed (use Cons in \<open>simp add: List.map_filter_simps\<close>)
  qed (simp add: List.map_filter_simps)
  moreover have "filter (\<lambda>k. fst k \<in> {TOPO_NVME_CTRL}) (map (node_key \<circ> cell_node) (st_cells st)) = []"
    using cells kinds_disjoint by (auto simp: filter_empty_conv)
  ultimately show "mset (keys_of {TOPO_NVME_CTRL} (finished_tree st)) =
      mset (map (\<lambda>dv. (TOPO_NVME_CTRL, ''ctrl:'' @ dv, dv)) (filter (\<lambda>dv. placed d get dv \<noteq> None) devices))"
    unfolding split by simp
  have "(\<Sum>x\<leftarrow>?ow. filter_mset (\<lambda>k. fst k \<in> shared_kinds) (tree_keys (snd x))) = {#}"
  proof (induction devices)
    case (Cons dv dvs)
    then show ?case
      using placed_ctrl ctrl_keys(2) by (cases "placed d get dv") (fastforce simp: List.map_filter_simps)+
  qed (simp add: List.map_filter_simps)
  moreover have "filter (\<lambda>k. fst k \<in> shared_kinds) (map (node_key \<circ> cell_node) (st_cells st)) =
      map (node_key \<circ> cell_node) (st_cells st)"
    using cells by (simp add: filter_id_conv)
  ultimately show "mset (keys_of shared_kinds (finished_tree st)) = mset (map (node_key \<circ> cell_node) (st_cells st))"
    unfolding split by simp
qed

section \<open>What the tree shows\<close>

lemma tree_inv_child:
  assumes inv: "tree_inv st ow" and "(i, c) \<in> set ow"
  shows "\<exists>ep \<in> set (tree_nodes (finished_tree st)). node_id ep = i \<and> c \<in> set (node_children ep)"
proof -
  have "(i, c) \<in># mset (st_owned st)" using assms unfolding tree_inv_def by simp
  then obtain cl where "cl \<in> set (st_cells st)" "node_id (cell_node cl) = i" "c \<in> set (owned (cell_children cl))"
    by (auto simp: st_owned_def)
  then obtain a where a: "a < length (st_cells st)" "node_id (cell_node (st_cells st ! a)) = i"
    "c \<in> set (owned (cell_children (st_cells st ! a)))"
    by (metis in_set_conv_nth)
  have "n \<in> set (owned cs) \<Longrightarrow> Own n \<in> set cs" for n cs by (induction cs rule: owned.induct) auto
  with a(3) have "Own c \<in> set (cell_children (st_cells st ! a))" by blast
  then have "c \<in> set (node_children (finished (st_cells st) a))" by (subst finished.simps) (force simp: image_iff)
  moreover have "node_id (finished (st_cells st) a) = i" using a(2) by (subst finished.simps) simp
  moreover have "finished (st_cells st) a \<in> set (tree_nodes (finished_tree st))"
    using finished_reached inv a(1) unfolding tree_inv_def by blast
  ultimately show ?thesis by blast
qed


section \<open>The walk up the buses\<close>

text \<open>
  \<open>climbs d bus up e\<close>: the list \<open>up\<close> follows \<open>self\<close> and \<open>bus\<close> from \<open>bus\<close> on; it ends at a root bus, or is
  cut before the bus \<open>e\<close>.
\<close>

fun climbs :: "('o, 'x) topo_drgn_scheme \<Rightarrow> 'o \<Rightarrow> ('o \<times> 'o option) list \<Rightarrow> 'o option \<Rightarrow> bool" where
  "climbs d bus [] e \<longleftrightarrow> e = Some bus"
| "climbs d bus ((b, None) # up) e \<longleftrightarrow>
     b = bus \<and> up = [] \<and> e = None \<and> (\<forall>br. dg_member d bus ''self'' = Inr br \<longrightarrow> tp_truth d br = Inr False)"
| "climbs d bus ((b, Some br) # up) e \<longleftrightarrow>
     b = bus \<and> dg_member d bus ''self'' = Inr br \<and> tp_truth d br = Inr True \<and>
     (\<exists>bus'. dg_member d br ''bus'' = Inr bus' \<and> climbs d bus' up e)"

definition cut_off :: "('o, 'x) topo_drgn_scheme \<Rightarrow> 64 word set \<Rightarrow> 'o option \<Rightarrow> bool" where
  "cut_off d seen e \<longleftrightarrow> (case e of None \<Rightarrow> True | Some b \<Rightarrow>
     (case tp_pointer d b of Inl _ \<Rightarrow> True | Inr a \<Rightarrow> a \<in> seen))"

definition addresses :: "('o, 'x) topo_drgn_scheme \<Rightarrow> ('o \<times> 'o option) list \<Rightarrow> (exn + 64 word) list" where
  "addresses d up = map (tp_pointer d \<circ> fst) up"

lemma bus_chain_up_climbs:
  "bus_chain_up d bus seen chain = Inr r \<Longrightarrow>
    \<exists>up e. r = chain @ up \<and> climbs d bus up e \<and> distinct (addresses d up) \<and>
      (\<forall>x \<in> set (addresses d up). \<exists>a. x = Inr a \<and> a \<notin> seen) \<and>
      cut_off d (seen \<union> {a. Inr a \<in> set (addresses d up)}) e"
proof (induction d bus seen chain rule: bus_chain_up.induct)
  case (1 d bus seen chain)
  show ?case
  proof (cases "tp_pointer d bus")
    case (Inl x)
    with 1(2) show ?thesis
      by (subst (asm) bus_chain_up.simps) (auto simp: addresses_def cut_off_def intro!: exI [of _ "[]"] exI [of _ "Some bus"])
  next
    case addr: (Inr addr)
    consider (seen) "addr \<in> seen"
      | (root) "addr \<notin> seen" "r = chain @ [(bus, None)]" "\<forall>br. dg_member d bus ''self'' = Inr br \<longrightarrow> tp_truth d br = Inr False"
      | (bridge) br bus' where "addr \<notin> seen" "dg_member d bus ''self'' = Inr br" "tp_truth d br = Inr True"
          "dg_member d br ''bus'' = Inr bus'" "bus_chain_up d bus' (insert addr seen) (chain @ [(bus, Some br)]) = Inr r"
      using 1(2) addr by (subst (asm) bus_chain_up.simps) (auto simp: bindE_Inr split: if_splits sum.splits)
    then show ?thesis
    proof cases
      case seen
      with 1(2) addr show ?thesis
        by (subst (asm) bus_chain_up.simps) (auto simp: addresses_def cut_off_def intro!: exI [of _ "[]"] exI [of _ "Some bus"])
    next
      case root
      with addr show ?thesis
        by (intro exI [of _ "[(bus, None)]"] exI [of _ None]) (simp add: addresses_def cut_off_def)
    next
      case bridge
      from 1(1) [OF addr bridge(1,2,3) _ bridge(4,5)] obtain up e where
        up: "r = (chain @ [(bus, Some br)]) @ up" "climbs d bus' up e" "distinct (addresses d up)"
          "\<forall>x \<in> set (addresses d up). \<exists>a. x = Inr a \<and> a \<notin> insert addr seen"
          "cut_off d (insert addr seen \<union> {a. Inr a \<in> set (addresses d up)}) e" by auto
      have "insert addr seen \<union> {a. Inr a \<in> set (addresses d up)} = seen \<union> {a. Inr a \<in> set (addresses d ((bus, Some br) # up))}"
        using addr by (auto simp: addresses_def)
      with up addr bridge show ?thesis
        by (intro exI [of _ "(bus, Some br) # up"] exI [of _ e]) (auto simp: addresses_def)
    qed
  qed
qed

text \<open>
  C30: the walk up the buses ends and is right.  On any kernel memory, also a corrupt one with a cycle of
  buses, the walk returns or reports a failed read; the chain it returns, read from the device up,
  follows the bridges from the bus of the device to a root bus, visits no address twice, and is cut only
  before a bus that cannot be read or was visited already.
\<close>

theorem bus_chain_ancestry:
  assumes "bus_chain d pdev = Inr chain"
  shows "\<exists>bus e. dg_member d pdev ''bus'' = Inr bus \<and> climbs d bus (rev chain) e \<and> distinct (addresses d chain) \<and>
    cut_off d {a. Inr a \<in> set (addresses d chain)} e"
proof -
  from assms obtain bus up where bus: "dg_member d pdev ''bus'' = Inr bus" "bus_chain_up d bus {} [] = Inr up" "chain = rev up"
    by (auto simp: bus_chain_def bindE_Inr)
  from bus_chain_up_climbs [OF bus(2)] obtain e where
    "climbs d bus up e" "distinct (addresses d up)" "cut_off d {a. Inr a \<in> set (addresses d up)} e" by auto
  with bus(1,3) show ?thesis by (auto simp: addresses_def rev_map [symmetric])
qed

section \<open>A sample machine\<close>

text \<open>Objects are named after the member they were reached by; \<open>self\<close> of the only bus is null.\<close>

definition sample_pci :: "pystr topo_drgn" where
  "sample_pci =
     \<lparr>dg_type = (\<lambda>_. T_VOID),
      dg_int = (\<lambda>o'. if o' = ''devfn'' then Inr 32 else if o' = ''number'' then Inr 0 else Inl FaultError),
      dg_address = (\<lambda>_. Inl FaultError), dg_string = (\<lambda>_. Inr ''pci0000:00''), dg_str = (\<lambda>_. Inr ''(enum s)LIVE''),
      dg_value = (\<lambda>_. Inl FaultError),
      dg_member = (\<lambda>_ n. if n \<in> set [''dev'', ''bus'', ''self'', ''name'', ''devfn'', ''number'', ''ctrl'', ''state'']
         then Inr n else Inl AttributeError),
      dg_index = (\<lambda>_ _. Inl FaultError), dg_type_str = (\<lambda>_. []), dg_exn_text = (\<lambda>_. ''gone''),
      tp_pointer = (\<lambda>o'. Inr (if o' = ''bus'' then 64 else 128)), tp_truth = (\<lambda>o'. Inr (o' \<noteq> ''self'')), tp_address_of = Inr,
      tp_cast = (\<lambda>_ _. Inl FaultError), tp_container_of = (\<lambda>o' _ _. Inr o'), tp_list = (\<lambda>_ _ _. Inl FaultError),
      tp_disk_name = (\<lambda>_. Inl FaultError)\<rparr>"

definition sample_find :: "pystr \<Rightarrow> exn + pystr \<times> pystr" where
  "sample_find device = (if device = ''nvme0'' then Inr (''dev'', ''disk'') else Inl (DeviceNotFoundError device))"

lemma sample_function:
  "pci_function sample_pci sample_find ''nvme0'' = Inr (''dev'', ''dev'')"
  "pci_function sample_pci sample_find ''nvme1'' = Inl (DeviceNotFoundError ''nvme1'')"
  by (simp_all add: pci_function_def sample_find_def sample_pci_def)

lemma sample_chain: "bus_chain sample_pci ''dev'' = Inr [(''bus'', None)]"
  by (simp add: bus_chain_def bus_chain_up.simps sample_pci_def)

lemma sample_built: "\<exists>t. build_topology sample_pci [''nvme0'', ''nvme1''] sample_find ''drgn'' = Inr t"
proof -
  have "\<not> isl (build_topology sample_pci [''nvme0'', ''nvme1''] sample_find ''drgn'')" by code_simp
  then show ?thesis by (simp add: isl_def) (metis sum.exhaust)
qed


theorem bus_chain_ancestry_witness:
  "\<exists>bus e. climbs sample_pci bus [(''bus'', None)] e \<and> distinct (addresses sample_pci [(''bus'', None)])"
  using bus_chain_ancestry [OF sample_chain] by auto

end
