(* ===== verification/MockTopology.thy ===== *)
theory MockTopology
  imports MockBackend TopologyLaws
begin

text \<open>
  \<open>services/topology/mock.py\<close>: the synthetic topology.  It grows the same kind of tree as the real builder,
  from an inventory and an address generator that are given to it; only bridges are entered in its index.
\<close>

type_synonym inventory = "(pystr, mock_device) dict"

definition mock_system_node :: TopologyNode where
  "mock_system_node = TopologyNode ''system'' TOPO_SYSTEM [Ko ''system'', Lit '' (mock)'']
     [Lit ''PCI '', Ko ''host bridge'', Ko ''to'', Lit ''PCIe '', Ko ''lineage'', Ko ''to'', Lit ''NVMe '',
      Ko ''controllers/subsystems/namespaces/queues''] [] [] []"

definition mock_host_node :: TopologyNode where
  "mock_host_node = TopologyNode ''hostbridge:0000:00'' TOPO_HOST_BRIDGE [Lit ''pci0000:00'']
     [Lit ''PCI '', Ko ''host bridge (root bus)''] []
     [det [Ko ''domain:bus''] [Lit ''0000:00''], det [Ko ''bus number range''] [Lit ''0'', Ko ''to'', Lit ''255'']] []"

definition mock_bridge_node :: "pystr \<times> topo_text \<times> pystr \<Rightarrow> TopologyNode" where
  "mock_bridge_node = (\<lambda>(name, kind_text, ids). TopologyNode (''pci:'' @ name) TOPO_PCI_BRIDGE [Lit name] kind_text []
     [det [Lit ''vendor:device''] [Lit ids],
      det [Lit ''class''] [Lit ''PCI-to-PCI '', Ko ''bridge'', Lit '' (0x060400)''],
      det [Lit ''PCIe '', Ko ''type''] kind_text] [])"

text \<open>The loop over the parents: a bridge that is in the index is shared.\<close>

fun mock_place_parents :: "(pystr \<times> topo_text \<times> pystr) list \<Rightarrow> nat \<times> store \<Rightarrow> nat \<times> store" where
  "mock_place_parents [] s = s"
| "mock_place_parents ((name, rest) # ps) (parent, st) =
     mock_place_parents ps
       (case map_of (st_index st) (''pci:'' @ name) of
          Some a \<Rightarrow> (a, st)
        | None \<Rightarrow> add_node parent (mock_bridge_node (name, rest)) st)"

definition mock_queue_node :: "pystr \<Rightarrow> int \<Rightarrow> int \<Rightarrow> TopologyNode" where
  "mock_queue_node device depth qid =
     TopologyNode (''q:'' @ device @ '':'' @ int_dec qid) TOPO_QUEUE
       [Lit (''qid '' @ int_dec qid @ (if qid = 0 then '' (admin)'' else []))] [Lit (''depth '' @ int_dec depth)] device
       [det [Lit ''qid''] [Lit (int_dec qid)], det [Lit ''depth''] [Lit (int_dec depth)],
        det [Lit ''blk-mq hctx'']
          (if qid = 0 then [Ko ''none'', Lit '' (admin)''] else [Lit (''hctx['' @ int_dec (qid - 1) @ '']'')])] []"

definition mock_queues_node :: "pystr \<Rightarrow> mock_device \<Rightarrow> TopologyNode" where
  "mock_queues_node device topo =
     (let online = md_online_queues topo
      in TopologyNode (''queues:'' @ device) TOPO_QUEUE_GROUP [Ko ''queues'', Lit ('' '' @ int_dec online), Ko ''units'']
           [Lit (''admin 1 + I/O '' @ int_dec (online - 1) @ '' (''), Ko ''allocated'', Lit ('' '' @ int_dec online @ '')'')] device
           [det [Lit ''online_queues''] [Lit (int_dec online)]]
           (map (mock_queue_node device (md_depth topo)) [0..online - 1]))"

definition mock_namespace_node :: "pystr \<Rightarrow> mock_device \<Rightarrow> TopologyNode" where
  "mock_namespace_node device topo =
     (let cap = md_sectors topo * 512
      in TopologyNode (''ns:'' @ device @ ''n1'') TOPO_NAMESPACE [Lit (device @ ''n1'')]
           [Ko ''namespace'', Lit ('' nsid='' @ int_dec (md_nsid topo))] device
           [det [Lit ''nsid''] [Lit (int_dec (md_nsid topo))],
            det [Lit ''LBA '', Ko ''size''] [Lit (int_dec (md_lba topo) @ '' B'')],
            det [Ko ''capacity''] [Decimals (of_int cap / 2 ^ 30), Lit ('' GiB ('' @ int_dec (md_sectors topo)),
              Ko ''times'', Lit ''512B '', Ko ''sectors'', Lit '')'']] [])"

text \<open>The format \<open>{i:0<w>d}\<close>.\<close>

definition fmt_dec :: "nat \<Rightarrow> int \<Rightarrow> pystr" where
  "fmt_dec w i =
     (let sign = (if i < 0 then ''-'' else []); s = nat_dec (nat \<bar>i\<bar>)
      in sign @ replicate (w - (length sign + length s)) (CHR ''0'') @ s)"

definition mock_subsys_node :: "pystr \<Rightarrow> mock_device \<Rightarrow> TopologyNode" where
  "mock_subsys_node device topo =
     (let n = int_dec (md_subsys topo)
      in TopologyNode (''subsys:'' @ n) TOPO_NVME_SUBSYS [Lit (''nvme-subsys'' @ n)] [Lit ''NVMe '', Ko ''subsystem''] device
           [det [Lit ''subnqn''] [Lit (''nqn.2019-08.org.qemu:mock'' @ n)], det [Ko ''model''] [Lit (md_model topo)],
            det [Ko ''serial''] [Lit (''MOCK'' @ fmt_dec 4 (md_subsys topo))],
            det [Ko ''firmware''] [Lit ''1.0''], det [Ko ''member controllers''] [Lit ''1'', Ko ''units'']] [])"

definition mock_ctrl_node :: "(pystr list \<Rightarrow> int) \<Rightarrow> pystr \<Rightarrow> mock_device \<Rightarrow> TopologyNode" where
  "mock_ctrl_node addr device topo =
     TopologyNode (''ctrl:'' @ device) TOPO_NVME_CTRL [Lit device]
       [Lit ''NVMe '', Ko ''controller'', Lit '' (struct nvme_dev / nvme_ctrl)''] device
       [det [Ko ''state''] [Lit ''NVME_CTRL_LIVE''], det [Lit ''queue_count''] [Lit (int_dec (md_online_queues topo))],
        det [Ko ''namespace''] [Lit ''1'', Ko ''units''],
        det [Lit ''struct nvme_dev''] [Lit (py_hex (addr [device, ''nvme_dev'']))]]
       [mock_subsys_node device topo, mock_namespace_node device topo, mock_queues_node device topo]"

definition mock_endpoint_node :: "(pystr list \<Rightarrow> int) \<Rightarrow> pystr \<Rightarrow> mock_device \<Rightarrow> TopologyNode" where
  "mock_endpoint_node addr device topo =
     TopologyNode (''pci:'' @ md_bdf topo) TOPO_PCI_ENDPOINT [Lit (md_bdf topo)]
       [Lit ''NVM Express '', Ko ''controller'', Lit '' (0x010802)''] device
       [det [Lit ''vendor:device''] [Lit (md_ids topo)],
        det [Lit ''class''] [Lit ''NVM Express '', Ko ''controller'', Lit '' (0x010802)''],
        det [Lit ''PCIe '', Ko ''type''] [Lit ''PCIe '', Ko ''endpoint''],
        det [Ko ''interrupt mode''] [Lit ''MSI-X''],
        det [Lit ''struct pci_dev''] [Lit (py_hex (addr [device, ''pci_dev'']))]]
       [mock_ctrl_node addr device topo]"

definition mock_place_device :: "(pystr list \<Rightarrow> int) \<Rightarrow> pystr \<times> mock_device \<Rightarrow> store \<Rightarrow> store" where
  "mock_place_device addr = (\<lambda>(device, topo) st.
     (case mock_place_parents (md_parents topo) (1, st) of
        (parent, st1) \<Rightarrow> append_child parent (Own (mock_endpoint_node addr device topo)) st1))"

text \<open>The root is not in the index of the source; its id is not the id of a bridge, so no lookup finds it.\<close>

definition mock_get_topology :: "inventory \<Rightarrow> (pystr list \<Rightarrow> int) \<Rightarrow> Topology" where
  "mock_get_topology topo_map addr =
     \<lparr>tpl_root = finished_tree (fold (mock_place_device addr) topo_map
        (snd (add_node 0 mock_host_node (new_store mock_system_node)))),
      tpl_backend_kind = ''mock'', tpl_error = None\<rparr>"

text \<open>\<open>MockBackend.get_topology\<close>\<close>

definition mock_backend_topology :: "digest \<Rightarrow> Topology" where
  "mock_backend_topology sha = mock_get_topology TOPOLOGY (addr_for sha)"

section \<open>What the synthetic tree shows\<close>

definition bridge_key :: "pystr \<times> topo_text \<times> pystr \<Rightarrow> pystr \<times> pystr \<times> pystr" where
  "bridge_key p = (TOPO_PCI_BRIDGE, ''pci:'' @ fst p, [])"

text \<open>The invariant of the loop over the inventory: the bridges of the devices so far, and their endpoints.\<close>

definition mock_inv :: "store \<Rightarrow> (pystr \<times> TopologyNode) list \<Rightarrow> (pystr \<times> topo_text \<times> pystr) list \<Rightarrow> bool" where
  "mock_inv st ow bridges \<longleftrightarrow> tree_inv st ow \<and>
     (\<exists>ns. map cell_node (st_cells st) = mock_system_node # mock_host_node # ns \<and>
        node_key ` set ns = bridge_key ` set bridges)"

lemma mock_invD:
  assumes "mock_inv st ow bridges"
  shows "tree_inv st ow" "1 < length (st_cells st)" "node_id (cell_node (st_cells st ! 1)) = ''hostbridge:0000:00''"
proof -
  from assms obtain ns where inv: "tree_inv st ow" and ns: "map cell_node (st_cells st) = mock_system_node # mock_host_node # ns"
    by (auto simp: mock_inv_def)
  show "tree_inv st ow" by (rule inv)
  from ns have "length (map cell_node (st_cells st)) = Suc (Suc (length ns))" by simp
  then show len: "1 < length (st_cells st)" by simp
  have "map cell_node (st_cells st) ! 1 = mock_host_node" using ns by simp
  with len show "node_id (cell_node (st_cells st ! 1)) = ''hostbridge:0000:00''" by (simp add: mock_host_node_def)
qed

lemma mock_inv_found:
  assumes inv: "mock_inv st ow bridges" and found: "map_of (st_index st) (''pci:'' @ name) = Some a"
  shows "mock_inv st ow (bridges @ [(name, rest)])"
proof -
  from inv obtain ns where ns: "map cell_node (st_cells st) = mock_system_node # mock_host_node # ns"
    "node_key ` set ns = bridge_key ` set bridges" by (auto simp: mock_inv_def)
  have "store_ok st" using inv by (simp add: mock_inv_def tree_inv_def)
  from store_lookup [OF this found] have a: "a < length (map cell_node (st_cells st))"
    and "node_id (map cell_node (st_cells st) ! a) = ''pci:'' @ name" by simp_all
  moreover from a have "map cell_node (st_cells st) ! a \<in> set (map cell_node (st_cells st))" by (rule nth_mem)
  ultimately have "\<exists>n \<in> set (map cell_node (st_cells st)). node_id n = ''pci:'' @ name" by blast
  then have "\<exists>n \<in> set ns. node_id n = ''pci:'' @ name"
    unfolding ns(1) by (auto simp: mock_system_node_def mock_host_node_def)
  then obtain n where n: "n \<in> set ns" "node_id n = ''pci:'' @ name" by blast
  then have "node_key n \<in> bridge_key ` set bridges" using ns(2) by blast
  with n(2) have "bridge_key (name, rest) \<in> bridge_key ` set bridges"
    by (auto simp: node_key_def bridge_key_def)
  with inv ns show ?thesis by (auto simp: mock_inv_def insert_absorb)
qed

lemma mock_place_parents_inv:
  assumes "mock_inv st ow bridges" "p < length (st_cells st)" "mock_place_parents ps (p, st) = (a, st')"
  shows "mock_inv st' ow (bridges @ ps) \<and> a < length (st_cells st') \<and>
    node_id (cell_node (st_cells st' ! a)) =
      (if ps = [] then node_id (cell_node (st_cells st ! p)) else ''pci:'' @ fst (last ps))"
  using assms
proof (induction ps arbitrary: p st bridges)
  case (Cons q ps)
  obtain name rest where q: "q = (name, rest)" by (cases q)
  let ?s = "case map_of (st_index st) (''pci:'' @ name) of Some a \<Rightarrow> (a, st) | None \<Rightarrow> add_node p (mock_bridge_node (name, rest)) st"
  obtain p1 st1 where s: "?s = (p1, st1)" by (cases ?s)
  have step: "mock_inv st1 ow (bridges @ [q]) \<and> p1 < length (st_cells st1) \<and>
      node_id (cell_node (st_cells st1 ! p1)) = ''pci:'' @ name"
  proof (cases "map_of (st_index st) (''pci:'' @ name)")
    case None
    let ?n = "mock_bridge_node (name, rest)"
    have n: "node_id ?n = ''pci:'' @ name" "node_children ?n = []" "node_kind ?n \<in> shared_kinds"
      "node_key ?n = bridge_key q"
      by (simp_all add: mock_bridge_node_def shared_kinds_def node_key_def bridge_key_def q split: prod.split)
    from None s have st1: "p1 = length (st_cells st)" "st1 = snd (add_node p ?n st)"
      using add_node_fst [of p ?n st] by (auto split: prod.splits)
    from Cons.prems(1) obtain ns where "map cell_node (st_cells st) = mock_system_node # mock_host_node # ns"
      "node_key ` set ns = bridge_key ` set bridges" "tree_inv st ow" by (auto simp: mock_inv_def)
    with tree_inv_add [OF _ Cons.prems(2), of ow ?n] n None show ?thesis
      by (auto simp: st1 mock_inv_def add_node_nodes [OF Cons.prems(2)])
  next
    case (Some b)
    with mock_inv_found [OF Cons.prems(1) Some, of rest] store_lookup [of st _ b] Cons.prems(1) s q show ?thesis
      by (auto simp: mock_inv_def tree_inv_def)
  qed
  from Cons.prems(3) q s have "mock_place_parents ps (p1, st1) = (a, st')" by simp
  from Cons.IH [OF conjunct1 [OF step] conjunct1 [OF conjunct2 [OF step]] this] step show ?case
    by (cases "ps = []") (simp_all add: q)
qed simp

lemma mock_place_device_inv:
  assumes "mock_inv st ow bridges"
  shows "mock_inv (mock_place_device addr (dv, m) st)
    (ow @ [(if md_parents m = [] then ''hostbridge:0000:00'' else ''pci:'' @ fst (last (md_parents m)), mock_endpoint_node addr dv m)])
    (bridges @ md_parents m)"
proof -
  obtain a st1 where s: "mock_place_parents (md_parents m) (1, st) = (a, st1)" by (cases "mock_place_parents (md_parents m) (1, st)")
  from mock_place_parents_inv [OF assms mock_invD(2) [OF assms] s] mock_invD(3) [OF assms]
  have st1: "mock_inv st1 ow (bridges @ md_parents m)" "a < length (st_cells st1)"
    "node_id (cell_node (st_cells st1 ! a)) =
       (if md_parents m = [] then ''hostbridge:0000:00'' else ''pci:'' @ fst (last (md_parents m)))" by auto
  have "mock_place_device addr (dv, m) st = append_child a (Own (mock_endpoint_node addr dv m)) st1"
    unfolding mock_place_device_def by (simp only: prod.case s)
  with tree_inv_own [OF mock_invD(1) [OF st1(1)] st1(2), of "mock_endpoint_node addr dv m"] st1 show ?thesis
    by (simp add: mock_inv_def append_child_cells(3))
qed

lemma mock_endpoint_kinds:
  "tree_keys (mock_endpoint_node addr dv m) =
     add_mset (TOPO_PCI_ENDPOINT, ''pci:'' @ md_bdf m, dv) (add_mset (TOPO_NVME_CTRL, ''ctrl:'' @ dv, dv)
       (mset (map node_key (concat (map tree_nodes (node_children (mock_ctrl_node addr dv m)))))))"
  by (simp add: mock_endpoint_node_def mock_ctrl_node_def node_key_def)

lemma mock_nvme_kinds:
  "\<forall>n \<in> set (concat (map tree_nodes (node_children (mock_ctrl_node addr dv m)))). node_kind n \<in> nvme_kinds"
  by (auto simp: mock_ctrl_node_def mock_subsys_node_def mock_namespace_node_def mock_queues_node_def
      mock_queue_node_def nvme_kinds_def Let_def)

lemma filter_endpoint_keys:
  assumes "K \<inter> nvme_kinds = {}"
  shows "filter_mset (\<lambda>k. fst k \<in> K) (tree_keys (mock_endpoint_node addr dv m)) =
    (if TOPO_PCI_ENDPOINT \<in> K then {#(TOPO_PCI_ENDPOINT, ''pci:'' @ md_bdf m, dv)#} else {#}) +
    (if TOPO_NVME_CTRL \<in> K then {#(TOPO_NVME_CTRL, ''ctrl:'' @ dv, dv)#} else {#})"
proof -
  let ?sub = "concat (map tree_nodes (node_children (mock_ctrl_node addr dv m)))"
  have "filter (\<lambda>k. fst k \<in> K) (map node_key ?sub) = []"
    using assms mock_nvme_kinds [of addr dv m] by (fastforce simp: filter_empty_conv node_key_def)
  then have "filter_mset (\<lambda>k. fst k \<in> K) (mset (map node_key ?sub)) = {#}"
    by (simp only: mset_filter [symmetric] mset.simps)
  then show ?thesis unfolding mock_endpoint_kinds by simp
qed

lemma mock_store_start: "mock_inv (snd (add_node 0 mock_host_node (new_store mock_system_node))) [] []"
proof -
  have "tree_inv (new_store mock_system_node) []"
    using store_ok_new [of mock_system_node]
    by (simp add: tree_inv_def st_owned_def new_store_def mock_system_node_def shared_kinds_def)
  moreover have "0 < length (st_cells (new_store mock_system_node))" by (simp add: new_store_def)
  moreover have "map_of (st_index (new_store mock_system_node)) (node_id mock_host_node) = None"
    by (simp add: new_store_def mock_system_node_def mock_host_node_def)
  moreover have "node_children mock_host_node = []" "node_kind mock_host_node \<in> shared_kinds"
    by (simp_all add: mock_host_node_def shared_kinds_def)
  ultimately have "tree_inv (snd (add_node 0 mock_host_node (new_store mock_system_node))) []"
    by (rule tree_inv_add(1))
  then show ?thesis by (simp add: mock_inv_def add_node_nodes new_store_def)
qed

definition parent_id :: "mock_device \<Rightarrow> pystr" where
  "parent_id m = (if md_parents m = [] then ''hostbridge:0000:00'' else ''pci:'' @ fst (last (md_parents m)))"

lemma mock_devices_inv:
  "mock_inv st ow bridges \<Longrightarrow>
    mock_inv (fold (mock_place_device addr) devs st)
      (ow @ map (\<lambda>(dv, m). (parent_id m, mock_endpoint_node addr dv m)) devs) (bridges @ concat (map (md_parents \<circ> snd) devs))"
proof (induction devs arbitrary: st ow bridges)
  case (Cons x devs)
  obtain dv m where x: "x = (dv, m)" by (cases x)
  from Cons.IH [OF mock_place_device_inv [OF Cons.prems, of addr dv m]] show ?case
    by (simp add: x parent_id_def)
qed simp

lemma endpoint_sum:
  assumes "K \<notin> nvme_kinds"
  shows "(\<Sum>x\<leftarrow>map (\<lambda>(dv, m). (parent_id m, mock_endpoint_node addr dv m)) devs. filter_mset (\<lambda>k. fst k \<in> {K}) (tree_keys (snd x))) =
    (if K = TOPO_PCI_ENDPOINT then mset (map (\<lambda>(dv, m). (TOPO_PCI_ENDPOINT, ''pci:'' @ md_bdf m, dv)) devs)
     else if K = TOPO_NVME_CTRL then mset (map (\<lambda>(dv, m). (TOPO_NVME_CTRL, ''ctrl:'' @ dv, dv)) devs) else {#})"
proof (induction devs)
  case (Cons x devs)
  obtain dv m where x: "x = (dv, m)" by (cases x)
  have "TOPO_PCI_ENDPOINT \<noteq> TOPO_NVME_CTRL" by (simp add: topo_kinds)
  with Cons filter_endpoint_keys [of "{K}" addr dv m] assms show ?case by (simp add: x del: mset_map)
qed simp

lemma mock_inv_keys:
  assumes "mock_inv st ow bridges"
  shows "\<exists>ns. distinct ns \<and> set ns = bridge_key ` set bridges \<and>
    (\<forall>K. K \<noteq> TOPO_SYSTEM \<and> K \<noteq> TOPO_HOST_BRIDGE \<longrightarrow> mset (keys_of {K} (finished_tree st)) =
      (if K = TOPO_PCI_BRIDGE then mset ns else {#}) + (\<Sum>x\<leftarrow>ow. filter_mset (\<lambda>k. fst k \<in> {K}) (tree_keys (snd x))))"
proof -
  from assms obtain ns where inv: "tree_inv st ow" and nodes: "map cell_node (st_cells st) = mock_system_node # mock_host_node # ns"
    and ns: "node_key ` set ns = bridge_key ` set bridges" by (auto simp: mock_inv_def)
  have keys: "map (node_key \<circ> cell_node) (st_cells st) = node_key mock_system_node # node_key mock_host_node # map node_key ns"
    using arg_cong [OF nodes, of "map node_key"] by simp
  have "distinct (map node_id (map cell_node (st_cells st)))" using inv store_okD(6) unfolding tree_inv_def by blast
  then have "distinct (map node_id ns)" unfolding nodes by simp
  then have "distinct (map node_key ns)" by (auto simp: distinct_map inj_on_def node_key_def)
  moreover have "mset (keys_of {K} (finished_tree st)) = (if K = TOPO_PCI_BRIDGE then mset (map node_key ns) else {#}) +
      (\<Sum>x\<leftarrow>ow. filter_mset (\<lambda>k. fst k \<in> {K}) (tree_keys (snd x)))"
    if "K \<noteq> TOPO_SYSTEM" "K \<noteq> TOPO_HOST_BRIDGE" for K
  proof -
    have "\<forall>k \<in> set (map node_key ns). fst k = TOPO_PCI_BRIDGE" using ns by (auto simp: bridge_key_def)
    then have "filter (\<lambda>k. fst k \<in> {K}) (map node_key ns) = (if K = TOPO_PCI_BRIDGE then map node_key ns else [])"
      by (auto simp: filter_empty_conv intro: filter_True)
    moreover have "fst (node_key mock_system_node) = TOPO_SYSTEM" "fst (node_key mock_host_node) = TOPO_HOST_BRIDGE"
      by (simp_all add: node_key_def mock_system_node_def mock_host_node_def)
    ultimately show ?thesis unfolding tree_inv_split [OF inv, unfolded keys] using that by simp
  qed
  ultimately show ?thesis using ns by (intro exI [of _ "map node_key ns"]) (simp del: mset_map)
qed

text \<open>
  The synthetic topology shares ancestors like the real one.  For any inventory the tree has one
  endpoint and one controller per device, each endpoint below the last bridge of its device (or the
  host bridge); every bridge that some device names is in the tree, exactly once.
\<close>

theorem mock_topology_complete:
  "mset (keys_of {TOPO_NVME_CTRL} (tpl_root (mock_get_topology devs addr))) =
     mset (map (\<lambda>(dv, m). (TOPO_NVME_CTRL, ''ctrl:'' @ dv, dv)) devs) \<and>
   mset (keys_of {TOPO_PCI_ENDPOINT} (tpl_root (mock_get_topology devs addr))) =
     mset (map (\<lambda>(dv, m). (TOPO_PCI_ENDPOINT, ''pci:'' @ md_bdf m, dv)) devs) \<and>
   set (keys_of {TOPO_PCI_BRIDGE} (tpl_root (mock_get_topology devs addr))) =
     bridge_key ` set (concat (map (md_parents \<circ> snd) devs)) \<and>
   distinct (keys_of {TOPO_PCI_BRIDGE} (tpl_root (mock_get_topology devs addr))) \<and>
   (\<forall>(dv, m) \<in> set devs. \<exists>p \<in> set (tree_nodes (tpl_root (mock_get_topology devs addr))).
      node_id p = parent_id m \<and> mock_endpoint_node addr dv m \<in> set (node_children p))"
proof -
  let ?st = "fold (mock_place_device addr) devs (snd (add_node 0 mock_host_node (new_store mock_system_node)))"
  let ?ow = "map (\<lambda>(dv, m). (parent_id m, mock_endpoint_node addr dv m)) devs"
  have root: "tpl_root (mock_get_topology devs addr) = finished_tree ?st" by (simp add: mock_get_topology_def)
  have inv: "mock_inv ?st ?ow (concat (map (md_parents \<circ> snd) devs))"
    using mock_devices_inv [OF mock_store_start, of addr devs] by simp
  from mock_inv_keys [OF inv] obtain ns where ns: "distinct ns" "set ns = bridge_key ` set (concat (map (md_parents \<circ> snd) devs))"
    and keys: "\<And>K. K \<noteq> TOPO_SYSTEM \<Longrightarrow> K \<noteq> TOPO_HOST_BRIDGE \<Longrightarrow> mset (keys_of {K} (finished_tree ?st)) =
      (if K = TOPO_PCI_BRIDGE then mset ns else {#}) + (\<Sum>x\<leftarrow>?ow. filter_mset (\<lambda>k. fst k \<in> {K}) (tree_keys (snd x)))" by blast
  have kinds: "K \<in> {TOPO_NVME_CTRL, TOPO_PCI_ENDPOINT, TOPO_PCI_BRIDGE} \<Longrightarrow>
      K \<noteq> TOPO_SYSTEM \<and> K \<noteq> TOPO_HOST_BRIDGE \<and> K \<notin> nvme_kinds" for K
    by (auto simp: nvme_kinds_def topo_kinds)
  have neq: "TOPO_NVME_CTRL \<noteq> TOPO_PCI_BRIDGE" "TOPO_NVME_CTRL \<noteq> TOPO_PCI_ENDPOINT" "TOPO_PCI_ENDPOINT \<noteq> TOPO_PCI_BRIDGE"
    by (simp_all add: topo_kinds)
  have bridges: "mset (keys_of {TOPO_PCI_BRIDGE} (finished_tree ?st)) = mset ns"
    using keys [of TOPO_PCI_BRIDGE] endpoint_sum [of TOPO_PCI_BRIDGE addr devs] kinds [of TOPO_PCI_BRIDGE] neq by simp
  have "mset (keys_of {TOPO_NVME_CTRL} (finished_tree ?st)) = mset (map (\<lambda>(dv, m). (TOPO_NVME_CTRL, ''ctrl:'' @ dv, dv)) devs)"
    using keys [of TOPO_NVME_CTRL] endpoint_sum [of TOPO_NVME_CTRL addr devs] kinds [of TOPO_NVME_CTRL] neq by simp
  moreover have "mset (keys_of {TOPO_PCI_ENDPOINT} (finished_tree ?st)) =
      mset (map (\<lambda>(dv, m). (TOPO_PCI_ENDPOINT, ''pci:'' @ md_bdf m, dv)) devs)"
    using keys [of TOPO_PCI_ENDPOINT] endpoint_sum [of TOPO_PCI_ENDPOINT addr devs] kinds [of TOPO_PCI_ENDPOINT] neq by simp
  moreover have "set (keys_of {TOPO_PCI_BRIDGE} (finished_tree ?st)) = bridge_key ` set (concat (map (md_parents \<circ> snd) devs))"
    using mset_eq_setD [OF bridges] ns(2) by simp
  moreover have "distinct (keys_of {TOPO_PCI_BRIDGE} (finished_tree ?st))"
    using ns(1) mset_eq_imp_distinct_iff [OF bridges] by blast
  moreover have "\<exists>p \<in> set (tree_nodes (finished_tree ?st)). node_id p = parent_id m \<and> mock_endpoint_node addr dv m \<in> set (node_children p)"
    if "(dv, m) \<in> set devs" for dv m
    using tree_inv_child [OF mock_invD(1) [OF inv], of "parent_id m" "mock_endpoint_node addr dv m"] that by force
  ultimately show ?thesis unfolding root by blast
qed

theorem mock_topology_complete_witness:
  "set (keys_of {TOPO_PCI_BRIDGE} (tpl_root (mock_get_topology TOPOLOGY (addr_for (\<lambda>_. ''abcdef''))))) =
     {(TOPO_PCI_BRIDGE, ''pci:0000:00:02.0'', []), (TOPO_PCI_BRIDGE, ''pci:0000:01:00.0'', [])} \<and>
   length (keys_of {TOPO_PCI_BRIDGE} (tpl_root (mock_get_topology TOPOLOGY (addr_for (\<lambda>_. ''abcdef''))))) = 2"
proof -
  have "bridge_key ` set (concat (map (md_parents \<circ> snd) TOPOLOGY)) =
      {(TOPO_PCI_BRIDGE, ''pci:0000:00:02.0'', []), (TOPO_PCI_BRIDGE, ''pci:0000:01:00.0'', [])}"
    by (auto simp: TOPOLOGY_def bridge_key_def)
  with mock_topology_complete [of TOPOLOGY "addr_for (\<lambda>_. ''abcdef'')"]
  have bridges: "set (keys_of {TOPO_PCI_BRIDGE} (tpl_root (mock_get_topology TOPOLOGY (addr_for (\<lambda>_. ''abcdef''))))) =
     {(TOPO_PCI_BRIDGE, ''pci:0000:00:02.0'', []), (TOPO_PCI_BRIDGE, ''pci:0000:01:00.0'', [])}"
    and "distinct (keys_of {TOPO_PCI_BRIDGE} (tpl_root (mock_get_topology TOPOLOGY (addr_for (\<lambda>_. ''abcdef'')))))" by auto
  from distinct_card [OF this(2)] bridges show ?thesis by simp
qed

end
