(* ===== verification/Backend.thy ===== *)
theory Backend
  imports Profiler ProcInfo MockTopology
begin

text \<open>
  \<open>backend/base.py\<close> (the \<open>Backend\<close> protocol), \<open>backend/drgn_backend.py\<close> and the class \<open>MockBackend\<close>: the one
  object that the servers and the command line see.

  A backend is a record with one field per method of the protocol.  A method gets the environment of the call
  (what the kernel, the files and the clock answer meanwhile) and the state behind the backend, and returns
  its result or an exception with the new state.
\<close>

section \<open>The protocol\<close>

type_synonym ('e, 's, 'r) call = "'e \<Rightarrow> 's \<Rightarrow> (exn + 'r) \<times> 's"

record ('e, 's) Backend =
  be_kind :: pystr
  be_list_devices :: "('e, 's, pystr list) call"
  be_get_device_snapshot :: "pystr \<Rightarrow> ('e, 's, DeviceSnapshot) call"
  be_get_queue_entries :: "pystr \<Rightarrow> int \<Rightarrow> int \<Rightarrow> bool \<Rightarrow> ('e, 's, QueueEntry list) call"
  be_get_completion_entries :: "pystr \<Rightarrow> int \<Rightarrow> int \<Rightarrow> bool \<Rightarrow> ('e, 's, CompletionEntry list) call"
  be_get_prp_payload :: "pystr \<Rightarrow> int \<Rightarrow> int \<Rightarrow> ('e, 's, PrpPayload) call"
  be_get_tree_node :: "pystr \<Rightarrow> pystr list \<Rightarrow> ('e, 's, TreeExpansion) call"
  be_get_performance :: "pystr \<Rightarrow> ('e, 's, DevicePerf) call"
  be_get_events :: "pystr \<Rightarrow> ('e, 's, NvmeEvent list) call"
  be_get_error_stats :: "pystr \<Rightarrow> ('e, 's, DeviceErrorStats) call"
  be_get_topology :: "('e, 's, Topology) call"
  be_list_processes :: "bool \<Rightarrow> ('e, 's, ProcessListEntry list) call"
  be_list_targets :: "('e, 's, TargetRule list) call"
  be_add_target :: "TargetRule \<Rightarrow> ('e, 's, TargetRule list) call"
  be_remove_target :: "pystr \<Rightarrow> pystr \<Rightarrow> ('e, 's, TargetRule list) call"
  be_get_profile :: "('e, 's, ProfileSnapshot) call"
  be_list_event_kinds :: "('e, 's, EventKindInfo list) call"

text \<open>A method that only reads.\<close>

definition reads :: "('e \<Rightarrow> exn + 'r) \<Rightarrow> ('e, 's, 'r) call" where
  "reads f e s = (f e, s)"

section \<open>The mock backend\<close>

record mock_env =
  me_sha :: digest
  me_clock :: "int \<Rightarrow> pyfloat"   \<comment> \<open>the reading for each queue of a snapshot\<close>
  me_now :: pyfloat
  me_write_ok :: bool            \<comment> \<open>whether the targets file can be written\<close>
  me_refresh :: refresh_env

definition mock_backend :: "(mock_env, profiler_world) Backend" where
  "mock_backend =
     \<lparr>be_kind = ''mock'',
      be_list_devices = reads (\<lambda>e. Inr mock_list_devices),
      be_get_device_snapshot = (\<lambda>device. reads (\<lambda>e. mock_get_device_snapshot (me_sha e) (me_clock e) device)),
      be_get_queue_entries = (\<lambda>device qid limit around.
        reads (\<lambda>e. mock_get_queue_entries (me_sha e) (me_now e) device qid limit around)),
      be_get_completion_entries = (\<lambda>device qid limit around.
        reads (\<lambda>e. mock_get_completion_entries (me_sha e) (me_now e) device qid limit around)),
      be_get_prp_payload = (\<lambda>device qid cid. reads (\<lambda>e. mock_get_prp_payload (me_sha e) device qid cid)),
      be_get_tree_node = (\<lambda>device path. reads (\<lambda>e. mock_get_tree_node (me_sha e) (me_now e) device path)),
      be_get_performance = (\<lambda>device. reads (\<lambda>e. mock_performance (me_now e) device)),
      be_get_events = (\<lambda>device. reads (\<lambda>e. mock_events device)),
      be_get_error_stats = (\<lambda>device. reads (\<lambda>e. mock_error_stats device)),
      be_get_topology = reads (\<lambda>e. Inr (mock_backend_topology (me_sha e))),
      be_list_processes = (\<lambda>only_io e. mock_list_processes (rf_search (me_refresh e)) only_io),
      be_list_targets = (\<lambda>e. list_targets),
      be_add_target = (\<lambda>rule e. add_target (me_write_ok e) rule),
      be_remove_target = (\<lambda>kind v e. remove_target (me_write_ok e) kind v),
      be_get_profile = (\<lambda>e. mock_get_profile (me_refresh e)),
      be_list_event_kinds = reads (\<lambda>e. Inr mock_list_event_kinds)\<rparr>"

section \<open>The drgn backend\<close>

text \<open>
  A facade over the services: the kernel session and the log source are shared, the event and the profiler
  service keep state.  The objects of the tree walk and of the topology come from the same lookup as the queues.
\<close>

record 'o drgn_env =
  de_kernel :: kernel
  de_drgn :: "'o topo_drgn"
  de_deref :: "nvme_dev \<Rightarrow> exn + 'o"                       \<comment> \<open>\<open>dev[0]\<close>\<close>
  de_objects :: "nvme_dev \<times> gendisk \<Rightarrow> exn + 'o \<times> 'o"
  de_perf_check :: file_view
  de_perf_tail :: file_view
  de_events :: events_env
  de_stats_check :: file_view
  de_stats_tail :: file_view
  de_kinds_check :: file_view
  de_write_ok :: bool
  de_profiler :: profiler_env

record drgn_world =
  dw_ebpf :: FileEbpfLogSource
  dw_events :: EbpfEventService
  dw_profiler :: profiler_world

definition on_profiler :: "(profiler_world \<Rightarrow> (exn + 'r) \<times> profiler_world) \<Rightarrow> drgn_world \<Rightarrow> (exn + 'r) \<times> drgn_world" where
  "on_profiler f w = (case f (dw_profiler w) of (r, p) \<Rightarrow> (r, w\<lparr>dw_profiler := p\<rparr>))"

text \<open>\<open>_get_dev_and_disk\<close>, the callable given to the topology service.\<close>

definition get_dev_and_disk :: "'o drgn_env \<Rightarrow> pystr \<Rightarrow> exn + 'o \<times> 'o" where
  "get_dev_and_disk e device = bindE (lookup_device (de_kernel e) device) (de_objects e)"

definition plain_drgn :: "'o topo_drgn \<Rightarrow> 'o drgn" where
  "plain_drgn d = drgn.truncate d"

definition drgn_backend :: "('o drgn_env, drgn_world) Backend" where
  "drgn_backend =
     \<lparr>be_kind = ''drgn'',
      be_list_devices = reads (\<lambda>e. list_devices (de_kernel e)),
      be_get_device_snapshot = (\<lambda>device. reads (\<lambda>e. get_device_snapshot (de_kernel e) device)),
      be_get_queue_entries = (\<lambda>device qid limit around.
        reads (\<lambda>e. get_queue_entries (de_kernel e) device qid limit around)),
      be_get_completion_entries = (\<lambda>device qid limit around.
        reads (\<lambda>e. get_completion_entries (de_kernel e) device qid limit around)),
      be_get_prp_payload = (\<lambda>device qid cid. reads (\<lambda>e. get_prp_payload (de_kernel e) device qid cid)),
      be_get_tree_node = (\<lambda>device path.
        reads (\<lambda>e. get_tree_node (de_kernel e) (plain_drgn (de_drgn e)) (de_deref e) device path)),
      be_get_performance = (\<lambda>device e w. (get_performance (dw_ebpf w) (de_perf_check e) (de_perf_tail e) device, w)),
      be_get_events = (\<lambda>device e w.
        case get_events (de_events e) device (dw_events w) of (s, evs) \<Rightarrow> (Inr evs, w\<lparr>dw_events := s\<rparr>)),
      be_get_error_stats = (\<lambda>device e w.
        (Inr (get_error_stats (de_stats_check e) (de_stats_tail e) device (dw_events w)), w)),
      be_get_topology = reads (\<lambda>e. drgn_get_topology (de_drgn e) (list_devices (de_kernel e)) (get_dev_and_disk e)),
      be_list_processes = (\<lambda>only_io e. on_profiler (list_processes (de_profiler e) only_io)),
      be_list_targets = (\<lambda>e. on_profiler list_targets),
      be_add_target = (\<lambda>rule e. on_profiler (add_target (de_write_ok e) rule)),
      be_remove_target = (\<lambda>kind v e. on_profiler (remove_target (de_write_ok e) kind v)),
      be_get_profile = (\<lambda>e. on_profiler (get_profile (de_profiler e))),
      be_list_event_kinds = (\<lambda>e w. (Inr (list_event_kinds (de_kinds_check e) (dw_events w)), w))\<rparr>"

text \<open>The state after \<open>__init__\<close>: no reader and no registry yet, an empty cache, and the targets file as it is.\<close>

definition log_arg :: "pystr option \<Rightarrow> source_arg" where
  "log_arg p = (case p of None \<Rightarrow> NoSource | Some s \<Rightarrow> PathSource s)"

definition new_profiler_world :: "FileEbpfLogSource \<Rightarrow> state_doc option \<Rightarrow> profiler_world" where
  "new_profiler_world src disk = \<lparr>pw_service = new_profiler src, pw_cache = new_cache 30 3, pw_disk = disk\<rparr>"

definition new_drgn_world :: "pystr option \<Rightarrow> state_doc option \<Rightarrow> drgn_world" where
  "new_drgn_world ebpf_log_path disk =
     (let src = as_log_source (log_arg ebpf_log_path)
      in \<lparr>dw_ebpf = src, dw_events = new_event_service src, dw_profiler = new_profiler_world src disk\<rparr>)"

definition new_mock_world :: "state_doc option \<Rightarrow> profiler_world" where
  "new_mock_world disk = new_profiler_world NullEbpfLogSource disk"

section \<open>Choosing a backend\<close>

record backend_kwargs =
  bk_qemu_qmp_address :: "pystr option"
  bk_qemu_vmlinux :: "pystr option"
  bk_extra_symbols :: "pystr list"
  bk_ebpf_log_path :: "pystr option"
  bk_target_state :: "pystr option"

datatype backend_choice = MockBackend "pystr option" | DrgnBackend backend_kwargs

text \<open>The mock takes the path of the targets file and ignores the other arguments.\<close>

definition get_backend :: "pystr \<Rightarrow> backend_kwargs \<Rightarrow> exn + backend_choice" where
  "get_backend kind kwargs =
     (if kind = ''mock'' then Inr (MockBackend (bk_target_state kwargs))
      else if kind = ''drgn'' then Inr (DrgnBackend kwargs)
      else Inl (ValueError (MsgRaw kind)))"

definition no_kwargs :: backend_kwargs where
  "no_kwargs = \<lparr>bk_qemu_qmp_address = None, bk_qemu_vmlinux = None, bk_extra_symbols = [], bk_ebpf_log_path = None,
     bk_target_state = None\<rparr>"

text \<open>The arguments that the servers and the command line make of their options.\<close>

definition option_kwargs ::
  "pystr \<Rightarrow> pystr option \<Rightarrow> pystr option \<Rightarrow> pystr list \<Rightarrow> pystr option \<Rightarrow> backend_kwargs" where
  "option_kwargs backend qemu_qmp qemu_vmlinux extra_symbols ebpf_log =
     (let set = (\<lambda>x. x \<noteq> None \<and> x \<noteq> Some []);
          kwargs =
            (if backend = ''drgn'' \<and> set qemu_qmp then
               no_kwargs\<lparr>bk_qemu_qmp_address := qemu_qmp, bk_qemu_vmlinux := qemu_vmlinux, bk_extra_symbols := extra_symbols\<rparr>
             else if backend = ''drgn'' \<and> extra_symbols \<noteq> [] then no_kwargs\<lparr>bk_extra_symbols := extra_symbols\<rparr>
             else no_kwargs)
      in if backend = ''drgn'' \<and> set ebpf_log then kwargs\<lparr>bk_ebpf_log_path := ebpf_log\<rparr> else kwargs)"

end
