(* ===== verification/Wire.thy ===== *)
theory Wire
  imports TopologyTree
begin

text \<open>
  The messages of \<open>proto/telemetryd.proto\<close>: their names, their fields with types, and the values a field
  takes.

  The classes that the protobuf compiler generates are not part of the repository; their constructor is a
  parameter \<open>new\<close> of the conversions.  What the program relies on is its documented behaviour, \<open>runtime\<close>: a call
  whose keywords are fields of the message and whose values have the type of their field, integers in
  the range of their type, gives the message; any other call raises.
\<close>

section \<open>Messages and fields\<close>

datatype msg =
    M_Empty
  | M_DeviceListReply
  | M_DeviceRequest
  | M_StreamRequest
  | M_QueueSnapshot
  | M_DeviceSnapshot
  | M_QueueRequest
  | M_QueueEntry
  | M_QueueEntriesReply
  | M_CompletionEntry
  | M_CompletionEntriesReply
  | M_PrpRequest
  | M_PrpPage
  | M_PrpPayloadReply
  | M_TreeNodeRequest
  | M_TreeNode
  | M_TreeNodeReply
  | M_QueuePerf
  | M_DevicePerf
  | M_TimeoutEventDetail
  | M_NvmeEvent
  | M_ErrorEventDetail
  | M_ErrorStatusCount
  | M_ErrorStatsReply
  | M_EventKind
  | M_EventKindsReply
  | M_TopologyDetail
  | M_TopologyNode
  | M_TopologyReply
  | M_ProcessInfoMsg
  | M_ThreadRef
  | M_ProcessListRequest
  | M_ProcessListEntryMsg
  | M_ProcessListReply
  | M_TargetRuleMsg
  | M_TargetsReply
  | M_WorkloadSpecMsg
  | M_MeasuredWorkloadMsg
  | M_LogicalGroupMsg
  | M_SessionMsg
  | M_UnmonitoredIoMsg
  | M_DeviceAttributionMsg
  | M_ProfileReply
  | M_EventsReply

datatype ftype = Int32 | UInt32 | Int64 | UInt64 | Bool | Str | Double | Bytes | Sub msg | Repeated ftype

fun fields :: "msg \<Rightarrow> (pystr \<times> ftype) list" where
  "fields M_Empty =
     []"
| "fields M_DeviceListReply =
     [(''names'', Repeated Str)]"
| "fields M_DeviceRequest =
     [(''device'', Str)]"
| "fields M_StreamRequest =
     [(''device'', Str), (''interval_sec'', Double)]"
| "fields M_QueueSnapshot =
     [(''index'', Int32), (''qid'', Int32), (''is_admin'', Bool), (''depth'', Int32), (''sq_tail'', Int32),
      (''cq_head'', Int32), (''sq_dma_addr'', Str), (''cq_dma_addr'', Str), (''hctx_index'', Int32),
      (''inflight_driver'', Int32), (''inflight_sched'', Int32)]"
| "fields M_DeviceSnapshot =
     [(''name'', Str), (''addr'', Str), (''model'', Str), (''online_queues'', Int32),
      (''allocated_queues'', Int32), (''bar_addr'', Str), (''dbs_addr'', Str), (''iommu_enabled'', Bool),
      (''queues'', Repeated (Sub M_QueueSnapshot)), (''backend_kind'', Str)]"
| "fields M_QueueRequest =
     [(''device'', Str), (''qid'', Int32), (''limit'', Int32), (''around_doorbell'', Bool)]"
| "fields M_QueueEntry =
     [(''index'', Int32), (''cid'', Int32), (''opcode'', Int32), (''opcode_name'', Str), (''nsid'', UInt32),
      (''flags'', Int32), (''uses_sgl'', Bool), (''cdw2'', UInt32), (''cdw3'', UInt32), (''cdw10'', UInt32),
      (''cdw11'', UInt32), (''cdw12'', UInt32), (''cdw13'', UInt32), (''cdw14'', UInt32),
      (''cdw15'', UInt32), (''prp1'', Str), (''prp2'', Str)]"
| "fields M_QueueEntriesReply =
     [(''device'', Str), (''qid'', Int32), (''entries'', Repeated (Sub M_QueueEntry))]"
| "fields M_CompletionEntry =
     [(''index'', Int32), (''command_id'', Int32), (''sq_id'', Int32), (''sq_head'', Int32),
      (''status_raw'', Int32), (''phase'', Bool), (''status_code'', Int32), (''status_code_type'', Int32),
      (''result'', UInt32)]"
| "fields M_CompletionEntriesReply =
     [(''device'', Str), (''qid'', Int32), (''entries'', Repeated (Sub M_CompletionEntry))]"
| "fields M_PrpRequest =
     [(''device'', Str), (''qid'', Int32), (''cid'', Int32)]"
| "fields M_PrpPage =
     [(''phys_addr'', Str), (''offset_in_page'', Int32), (''data'', Bytes), (''is_list_page'', Bool)]"
| "fields M_PrpPayloadReply =
     [(''device'', Str), (''qid'', Int32), (''cid'', Int32), (''uses_sgl'', Bool), (''total_len'', Int64),
      (''pages'', Repeated (Sub M_PrpPage)), (''error'', Str)]"
| "fields M_TreeNodeRequest =
     [(''device'', Str), (''path'', Repeated Str)]"
| "fields M_TreeNode =
     [(''name'', Str), (''type_name'', Str), (''kind'', Str), (''value_repr'', Str), (''address'', Str),
      (''is_null'', Bool), (''expandable'', Bool)]"
| "fields M_TreeNodeReply =
     [(''node'', Sub M_TreeNode), (''children'', Repeated (Sub M_TreeNode)), (''depth'', Int32),
      (''error'', Str)]"
| "fields M_QueuePerf =
     [(''qid'', Int32), (''iops'', Double), (''read_iops'', Double), (''write_iops'', Double),
      (''bandwidth_bytes_per_sec'', Double), (''avg_latency_us'', Double), (''p50_latency_us'', Double),
      (''p95_latency_us'', Double), (''p99_latency_us'', Double), (''p999_latency_us'', Double)]"
| "fields M_DevicePerf =
     [(''device'', Str), (''queues'', Repeated (Sub M_QueuePerf)), (''available'', Bool), (''error'', Str),
      (''aggregate'', Sub M_QueuePerf)]"
| "fields M_TimeoutEventDetail =
     [(''tag'', Int32), (''opcode'', Int32), (''opcode_name'', Str), (''nsid'', UInt32), (''flags'', Int32),
      (''cdw10'', UInt32), (''cdw11'', UInt32), (''cdw12'', UInt32), (''cdw13'', UInt32),
      (''cdw14'', UInt32), (''cdw15'', UInt32), (''elapsed_us'', Double)]"
| "fields M_NvmeEvent =
     [(''kind'', Str), (''observed_at'', Double), (''device'', Str), (''qid'', Int32), (''summary'', Str),
      (''timeout'', Sub M_TimeoutEventDetail), (''error'', Sub M_ErrorEventDetail)]"
| "fields M_ErrorEventDetail =
     [(''cid'', Int32), (''tag'', Int32), (''opcode'', Int32), (''opcode_name'', Str), (''nsid'', UInt32),
      (''status'', UInt32), (''sct'', Int32), (''sc'', Int32), (''sct_name'', Str), (''sc_name'', Str),
      (''dnr'', Bool), (''more'', Bool), (''crd'', Int32), (''retries'', Int32), (''slba'', UInt64),
      (''nlb'', Int32), (''lba_valid'', Bool), (''submit_cached'', Bool), (''elapsed_us'', Double)]"
| "fields M_ErrorStatusCount =
     [(''sct'', Int32), (''sc'', Int32), (''sct_name'', Str), (''sc_name'', Str), (''count'', Int64)]"
| "fields M_ErrorStatsReply =
     [(''device'', Str), (''counts'', Repeated (Sub M_ErrorStatusCount)), (''total'', Int64),
      (''available'', Bool), (''error'', Str)]"
| "fields M_EventKind =
     [(''kind'', Str), (''label'', Str), (''source'', Str), (''description'', Str), (''active'', Bool)]"
| "fields M_EventKindsReply =
     [(''kinds'', Repeated (Sub M_EventKind))]"
| "fields M_TopologyDetail =
     [(''key'', Str), (''value'', Str)]"
| "fields M_TopologyNode =
     [(''id'', Str), (''kind'', Str), (''label'', Str), (''sublabel'', Str), (''device'', Str),
      (''details'', Repeated (Sub M_TopologyDetail)), (''children'', Repeated (Sub M_TopologyNode))]"
| "fields M_TopologyReply =
     [(''root'', Sub M_TopologyNode), (''backend_kind'', Str), (''error'', Str)]"
| "fields M_ProcessInfoMsg =
     [(''pid'', Int32), (''comm'', Str), (''cmdline'', Str), (''exe_path'', Str), (''uid'', Int32),
      (''start_time_ns'', UInt64), (''thread_count'', Int32), (''threads'', Repeated (Sub M_ThreadRef)),
      (''error'', Str)]"
| "fields M_ThreadRef =
     [(''tid'', Int32), (''comm'', Str)]"
| "fields M_ProcessListRequest =
     [(''only_io'', Bool)]"
| "fields M_ProcessListEntryMsg =
     [(''info'', Sub M_ProcessInfoMsg), (''io_active'', Bool), (''io_rate'', Double),
      (''target_devices'', Repeated Str), (''is_target'', Bool), (''matched_rule'', Str),
      (''selectable'', Bool), (''unselectable_reason'', Str)]"
| "fields M_ProcessListReply =
     [(''processes'', Repeated (Sub M_ProcessListEntryMsg))]"
| "fields M_TargetRuleMsg =
     [(''kind'', Str), (''value'', Str), (''adapter'', Str)]"
| "fields M_TargetsReply =
     [(''rules'', Repeated (Sub M_TargetRuleMsg))]"
| "fields M_WorkloadSpecMsg =
     [(''io_size'', UInt32), (''rw'', Str), (''pattern'', Str), (''queue_depth'', Int32),
      (''ioengine'', Str), (''direct'', Bool), (''filename'', Str), (''numjobs'', Int32),
      (''runtime_sec'', Int32), (''has_spec'', Bool)]"
| "fields M_MeasuredWorkloadMsg =
     [(''io_size_dominant'', UInt32), (''read_ratio'', Double), (''write_ratio'', Double),
      (''queue_depth_avg'', Double), (''iops'', Double), (''bandwidth_bps'', Double)]"
| "fields M_LogicalGroupMsg =
     [(''name'', Str), (''type'', Str), (''source'', Str), (''thread_tids'', Repeated Int32),
      (''expected_workload'', Sub M_WorkloadSpecMsg), (''measured_workload'', Sub M_MeasuredWorkloadMsg),
      (''has_expectation'', Bool), (''expectation_match'', Bool), (''mismatch_reasons'', Repeated Str),
      (''inferred'', Bool), (''progress_pct'', Double)]"
| "fields M_SessionMsg =
     [(''session_id'', Str), (''pid'', Int32), (''comm'', Str), (''cmdline'', Str), (''exe_path'', Str),
      (''adapter'', Str), (''status'', Str), (''start_time_ns'', UInt64), (''session_start_ns'', UInt64),
      (''session_end_ns'', UInt64), (''devices'', Repeated Str), (''thread_count_active'', Int32),
      (''aggregate'', Sub M_MeasuredWorkloadMsg), (''logical_groups'', Repeated (Sub M_LogicalGroupMsg)),
      (''matched_rule'', Str)]"
| "fields M_UnmonitoredIoMsg =
     [(''pid'', Int32), (''comm'', Str), (''device'', Str), (''io_rate'', Double), (''note'', Str)]"
| "fields M_DeviceAttributionMsg =
     [(''name'', Str), (''total_iops'', Double), (''attributed_iops'', Double),
      (''unattributed_iops'', Double), (''contributing_sessions'', Repeated Str),
      (''multi_process_warning'', Bool)]"
| "fields M_ProfileReply =
     [(''schema_version'', Str), (''collected_at_ns'', UInt64), (''sessions'', Repeated (Sub M_SessionMsg)),
      (''unmonitored_io'', Repeated (Sub M_UnmonitoredIoMsg)),
      (''devices'', Repeated (Sub M_DeviceAttributionMsg)), (''rules'', Repeated (Sub M_TargetRuleMsg)),
      (''available'', Bool), (''error'', Str)]"
| "fields M_EventsReply =
     [(''device'', Str), (''events'', Repeated (Sub M_NvmeEvent))]"

section \<open>Values\<close>

text \<open>A string field holds characters, a message text of the program, or a text made of pieces.\<close>

datatype wire_text = Plain pystr | Rendered message | Pieces topo_text

datatype wire =
    VInt int
  | VBool bool
  | VStr wire_text
  | VDouble pyfloat
  | VBytes pybytes
  | VMsg msg "(pystr \<times> wire) list"
  | VList "wire list"

type_synonym kwargs = "(pystr \<times> wire) list"
type_synonym pb_new = "msg \<Rightarrow> kwargs \<Rightarrow> exn + wire"

fun in_range :: "ftype \<Rightarrow> int \<Rightarrow> bool" where
  "in_range Int32 v \<longleftrightarrow> - (2 ^ 31) \<le> v \<and> v < 2 ^ 31"
| "in_range UInt32 v \<longleftrightarrow> 0 \<le> v \<and> v < 2 ^ 32"
| "in_range Int64 v \<longleftrightarrow> - (2 ^ 63) \<le> v \<and> v < 2 ^ 63"
| "in_range UInt64 v \<longleftrightarrow> 0 \<le> v \<and> v < 2 ^ 64"
| "in_range _ v \<longleftrightarrow> False"

fun fits :: "ftype \<Rightarrow> wire \<Rightarrow> bool" where
  "fits t (VInt v) \<longleftrightarrow> in_range t v"
| "fits t (VBool b) \<longleftrightarrow> t = Bool"
| "fits t (VStr s) \<longleftrightarrow> t = Str"
| "fits t (VDouble x) \<longleftrightarrow> t = Double"
| "fits t (VBytes b) \<longleftrightarrow> t = Bytes"
| "fits t (VMsg n kw) \<longleftrightarrow> t = Sub n"
| "fits t (VList vs) \<longleftrightarrow> (case t of Repeated t' \<Rightarrow> list_all (fits t') vs | _ \<Rightarrow> False)"

definition fits_field :: "msg \<Rightarrow> pystr \<times> wire \<Rightarrow> bool" where
  "fits_field n = (\<lambda>(k, v). case map_of (fields n) k of None \<Rightarrow> False | Some t \<Rightarrow> fits t v)"

definition runtime :: "pb_new \<Rightarrow> bool" where
  "runtime new \<longleftrightarrow> (\<forall>n kw. if list_all (fits_field n) kw then new n kw = Inr (VMsg n kw) else isl (new n kw))"

text \<open>A constructor with this behaviour.\<close>

definition checked_new :: pb_new where
  "checked_new n kw = (if list_all (fits_field n) kw then Inr (VMsg n kw) else Inl (ValueError (MsgRaw ''out of range'')))"

lemma runtime_checked_new: "runtime checked_new"
  by (simp add: runtime_def checked_new_def)

lemma runtime_Inr:
  "runtime new \<Longrightarrow> new n kw = Inr m \<longleftrightarrow> list_all (fits_field n) kw \<and> m = VMsg n kw"
  unfolding runtime_def by (metis isl_def sum.disc(2) sum.inject(2))

end
