(* ===== verification/Convert.thy ===== *)
theory Convert
  imports Wire
begin

text \<open>
  \<open>grpcserver/convert.py\<close>: from the dataclasses to the messages.  Addresses travel as hexadecimal text, an
  absent value as the default of its field.
\<close>

section \<open>Field values\<close>

definition str :: "pystr \<Rightarrow> wire" where "str s = VStr (Plain s)"

definition hex_str :: "int \<Rightarrow> wire" where "hex_str i = VStr (Plain (py_hex i))"

text \<open>\<open>x or ""\<close>\<close>

definition text_or_empty :: "message option \<Rightarrow> wire" where
  "text_or_empty e = (case e of None \<Rightarrow> str [] | Some m \<Rightarrow> VStr (Rendered m))"

definition str_or_empty :: "pystr option \<Rightarrow> wire" where
  "str_or_empty e = (case e of None \<Rightarrow> str [] | Some s \<Rightarrow> str s)"

definition int_or_zero :: "int option \<Rightarrow> wire" where
  "int_or_zero e = (case e of None \<Rightarrow> VInt 0 | Some i \<Rightarrow> VInt i)"

lemmas field_values = str_def hex_str_def text_or_empty_def str_or_empty_def int_or_zero_def

section \<open>Queues\<close>

definition queue_to_pb :: "pb_new \<Rightarrow> QueueSnapshot \<Rightarrow> exn + wire" where
  "queue_to_pb new q = new M_QueueSnapshot
     [(''index'', VInt (qs_index q)), (''qid'', VInt (qs_qid q)), (''is_admin'', VBool (qs_is_admin q)),
      (''depth'', VInt (qs_depth q)), (''sq_tail'', VInt (qs_sq_tail q)), (''cq_head'', VInt (qs_cq_head q)),
      (''sq_dma_addr'', hex_str (qs_sq_dma_addr q)), (''cq_dma_addr'', hex_str (qs_cq_dma_addr q)),
      (''hctx_index'', VInt (case qs_hctx_index q of None \<Rightarrow> - 1 | Some i \<Rightarrow> i)),
      (''inflight_driver'', VInt (qs_inflight_driver q)), (''inflight_sched'', VInt (qs_inflight_sched q))]"

definition device_to_pb :: "pb_new \<Rightarrow> DeviceSnapshot \<Rightarrow> exn + wire" where
  "device_to_pb new d =
     bindE (mapE (queue_to_pb new) (ds_queues d)) (\<lambda>queues.
       new M_DeviceSnapshot
         [(''name'', str (ds_name d)), (''addr'', hex_str (ds_addr d)), (''model'', str (ds_model d)),
          (''online_queues'', VInt (ds_online_queues d)), (''allocated_queues'', VInt (ds_allocated_queues d)),
          (''bar_addr'', hex_str (ds_bar_addr d)), (''dbs_addr'', hex_str (ds_dbs_addr d)),
          (''iommu_enabled'', VBool (ds_iommu_enabled d)), (''queues'', VList queues),
          (''backend_kind'', str (ds_backend_kind d))])"

definition entry_to_pb :: "pb_new \<Rightarrow> QueueEntry \<Rightarrow> exn + wire" where
  "entry_to_pb new e = new M_QueueEntry
     [(''index'', VInt (qe_index e)), (''cid'', VInt (qe_cid e)), (''opcode'', VInt (qe_opcode e)),
      (''opcode_name'', str (qe_opcode_name e)), (''nsid'', VInt (qe_nsid e)), (''flags'', VInt (qe_flags e)),
      (''uses_sgl'', VBool (qe_uses_sgl e)), (''cdw2'', VInt (qe_cdw2 e)), (''cdw3'', VInt (qe_cdw3 e)),
      (''cdw10'', VInt (qe_cdw10 e)), (''cdw11'', VInt (qe_cdw11 e)), (''cdw12'', VInt (qe_cdw12 e)),
      (''cdw13'', VInt (qe_cdw13 e)), (''cdw14'', VInt (qe_cdw14 e)), (''cdw15'', VInt (qe_cdw15 e)),
      (''prp1'', hex_str (qe_prp1 e)), (''prp2'', hex_str (qe_prp2 e))]"

definition completion_to_pb :: "pb_new \<Rightarrow> CompletionEntry \<Rightarrow> exn + wire" where
  "completion_to_pb new c = new M_CompletionEntry
     [(''index'', VInt (ce_index c)), (''command_id'', VInt (ce_command_id c)), (''sq_id'', VInt (ce_sq_id c)),
      (''sq_head'', VInt (ce_sq_head c)), (''status_raw'', VInt (ce_status_raw c)), (''phase'', VBool (ce_phase c)),
      (''status_code'', VInt (ce_status_code c)), (''status_code_type'', VInt (ce_status_code_type c)),
      (''result'', VInt (ce_result c))]"

definition page_to_pb :: "pb_new \<Rightarrow> PrpPage \<Rightarrow> exn + wire" where
  "page_to_pb new pg = new M_PrpPage
     [(''phys_addr'', hex_str (pp_phys_addr pg)), (''offset_in_page'', VInt (pp_offset_in_page pg)),
      (''data'', VBytes (pp_data pg)), (''is_list_page'', VBool (pp_is_list_page pg))]"

definition prp_to_pb :: "pb_new \<Rightarrow> PrpPayload \<Rightarrow> exn + wire" where
  "prp_to_pb new p =
     bindE (mapE (page_to_pb new) (pl_pages p)) (\<lambda>pages.
       new M_PrpPayloadReply
         [(''device'', str (pl_device p)), (''qid'', VInt (pl_qid p)), (''cid'', VInt (pl_cid p)),
          (''uses_sgl'', VBool (pl_uses_sgl p)), (''total_len'', VInt (pl_total_len p)), (''pages'', VList pages),
          (''error'', text_or_empty (pl_error p))])"

definition tree_node_to_pb :: "pb_new \<Rightarrow> TreeNode \<Rightarrow> exn + wire" where
  "tree_node_to_pb new n = new M_TreeNode
     [(''name'', str (tn_name n)), (''type_name'', str (tn_type_name n)), (''kind'', str (tn_kind n)),
      (''value_repr'', VStr (Rendered (tn_value_repr n))),
      (''address'', case tn_address n of None \<Rightarrow> str [] | Some a \<Rightarrow> hex_str a),
      (''is_null'', VBool (tn_is_null n)), (''expandable'', VBool (tn_expandable n))]"

definition tree_expansion_to_pb :: "pb_new \<Rightarrow> TreeExpansion \<Rightarrow> exn + wire" where
  "tree_expansion_to_pb new e =
     bindE (tree_node_to_pb new (te_node e)) (\<lambda>node.
     bindE (mapE (tree_node_to_pb new) (te_children e)) (\<lambda>children.
       new M_TreeNodeReply
         [(''node'', node), (''children'', VList children), (''depth'', VInt (int (te_depth e))),
          (''error'', text_or_empty (te_error e))]))"

section \<open>Performance and events\<close>

definition queue_perf_to_pb :: "pb_new \<Rightarrow> QueuePerf \<Rightarrow> exn + wire" where
  "queue_perf_to_pb new q = new M_QueuePerf
     [(''qid'', VInt (qp_qid q)), (''iops'', VDouble (qp_iops q)), (''read_iops'', VDouble (qp_read_iops q)),
      (''write_iops'', VDouble (qp_write_iops q)),
      (''bandwidth_bytes_per_sec'', VDouble (qp_bandwidth_bytes_per_sec q)),
      (''avg_latency_us'', VDouble (qp_avg_latency_us q)), (''p50_latency_us'', VDouble (qp_p50_latency_us q)),
      (''p95_latency_us'', VDouble (qp_p95_latency_us q)), (''p99_latency_us'', VDouble (qp_p99_latency_us q)),
      (''p999_latency_us'', VDouble (qp_p999_latency_us q))]"

text \<open>\<open>msg.f.CopyFrom(sub)\<close> on a finished message sets the field.\<close>

fun copy_from :: "wire \<Rightarrow> pystr \<Rightarrow> wire \<Rightarrow> wire" where
  "copy_from (VMsg n kw) k v = VMsg n (kw @ [(k, v)])"
| "copy_from m k v = m"

definition device_perf_to_pb :: "pb_new \<Rightarrow> DevicePerf \<Rightarrow> exn + wire" where
  "device_perf_to_pb new d =
     bindE (mapE (queue_perf_to_pb new) (dp_queues d)) (\<lambda>queues.
     bindE (new M_DevicePerf
         [(''device'', str (dp_device d)), (''queues'', VList queues), (''available'', VBool (dp_available d)),
          (''error'', text_or_empty (dp_error d))]) (\<lambda>m.
       case dp_aggregate d of
         None \<Rightarrow> Inr m
       | Some a \<Rightarrow> bindE (queue_perf_to_pb new a) (\<lambda>am. Inr (copy_from m ''aggregate'' am))))"

definition error_detail_to_pb :: "pb_new \<Rightarrow> ErrorEventDetail \<Rightarrow> exn + wire" where
  "error_detail_to_pb new d = new M_ErrorEventDetail
     [(''cid'', VInt (ed_cid d)), (''tag'', VInt (ed_tag d)), (''opcode'', VInt (ed_opcode d)),
      (''opcode_name'', str (ed_opcode_name d)), (''nsid'', VInt (ed_nsid d)), (''status'', VInt (ed_status d)),
      (''sct'', VInt (ed_sct d)), (''sc'', VInt (ed_sc d)), (''sct_name'', str (ed_sct_name d)),
      (''sc_name'', str (ed_sc_name d)), (''dnr'', VBool (ed_dnr d)), (''more'', VBool (ed_more d)),
      (''crd'', VInt (ed_crd d)), (''retries'', VInt (ed_retries d)), (''slba'', VInt (ed_slba d)),
      (''nlb'', VInt (ed_nlb d)), (''lba_valid'', VBool (ed_lba_valid d)),
      (''submit_cached'', VBool (ed_submit_cached d)), (''elapsed_us'', VDouble (ed_elapsed_us d))]"

definition timeout_detail_to_pb :: "pb_new \<Rightarrow> TimeoutEventDetail \<Rightarrow> exn + wire" where
  "timeout_detail_to_pb new d = new M_TimeoutEventDetail
     [(''tag'', VInt (td_tag d)), (''opcode'', VInt (td_opcode d)), (''opcode_name'', str (td_opcode_name d)),
      (''nsid'', VInt (td_nsid d)), (''flags'', VInt (td_flags d)), (''cdw10'', VInt (td_cdw10 d)),
      (''cdw11'', VInt (td_cdw11 d)), (''cdw12'', VInt (td_cdw12 d)), (''cdw13'', VInt (td_cdw13 d)),
      (''cdw14'', VInt (td_cdw14 d)), (''cdw15'', VInt (td_cdw15 d)), (''elapsed_us'', VDouble (td_elapsed_us d))]"

text \<open>The two details share a \<open>oneof\<close>: setting the second member clears the first.\<close>

definition nvme_event_to_pb :: "pb_new \<Rightarrow> NvmeEvent \<Rightarrow> exn + wire" where
  "nvme_event_to_pb new e =
     bindE (new M_NvmeEvent
         [(''kind'', str (ev_kind e)), (''observed_at'', VDouble (ev_observed_at e)), (''device'', str (ev_device e)),
          (''qid'', VInt (ev_qid e)), (''summary'', VStr (Rendered (ev_summary e)))]) (\<lambda>m.
     bindE (case ev_error e of
              None \<Rightarrow> Inr m | Some d \<Rightarrow> bindE (error_detail_to_pb new d) (\<lambda>v. Inr (copy_from m ''error'' v))) (\<lambda>m1.
       case ev_timeout e of
         None \<Rightarrow> Inr m1 | Some d \<Rightarrow> bindE (timeout_detail_to_pb new d) (\<lambda>v. Inr (copy_from m ''timeout'' v))))"

definition status_count_to_pb :: "pb_new \<Rightarrow> ErrorStatusCount \<Rightarrow> exn + wire" where
  "status_count_to_pb new c = new M_ErrorStatusCount
     [(''sct'', VInt (sc_sct c)), (''sc'', VInt (sc_sc c)), (''sct_name'', str (sc_sct_name c)),
      (''sc_name'', str (sc_sc_name c)), (''count'', VInt (sc_count c))]"

definition error_stats_to_pb :: "pb_new \<Rightarrow> DeviceErrorStats \<Rightarrow> exn + wire" where
  "error_stats_to_pb new st =
     bindE (mapE (status_count_to_pb new) (es_counts st)) (\<lambda>counts.
       new M_ErrorStatsReply
         [(''device'', str (es_device st)), (''counts'', VList counts), (''total'', VInt (es_total st)),
          (''available'', VBool (es_available st)), (''error'', text_or_empty (es_error st))])"

definition event_kind_to_pb :: "pb_new \<Rightarrow> EventKindInfo \<Rightarrow> exn + wire" where
  "event_kind_to_pb new k = new M_EventKind
     [(''kind'', str (ek_kind k)), (''label'', VStr (Rendered (ek_label k))), (''source'', str (ek_source k)),
      (''description'', VStr (Rendered (ek_description k))), (''active'', VBool (ek_active k))]"

section \<open>Topology\<close>

definition detail_to_pb :: "pb_new \<Rightarrow> TopologyDetail \<Rightarrow> exn + wire" where
  "detail_to_pb new d = new M_TopologyDetail
     [(''key'', VStr (Pieces (tpd_key d))), (''value'', VStr (Pieces (tpd_value d)))]"

lemma mapE_cong [fundef_cong]:
  "\<lbrakk>xs = ys; \<And>x. x \<in> set ys \<Longrightarrow> f x = g x\<rbrakk> \<Longrightarrow> mapE f xs = mapE g ys"
  by (induction xs arbitrary: ys) auto

fun topology_node_to_pb :: "pb_new \<Rightarrow> TopologyNode \<Rightarrow> exn + wire" where
  "topology_node_to_pb new (TopologyNode i k l s v ds cs) =
     bindE (mapE (detail_to_pb new) ds) (\<lambda>details.
     bindE (mapE (topology_node_to_pb new) cs) (\<lambda>children.
       new M_TopologyNode
         [(''id'', str i), (''kind'', str k), (''label'', VStr (Pieces l)), (''sublabel'', VStr (Pieces s)),
          (''device'', str v), (''details'', VList details), (''children'', VList children)]))"

definition topology_to_pb :: "pb_new \<Rightarrow> Topology \<Rightarrow> exn + wire" where
  "topology_to_pb new t =
     bindE (topology_node_to_pb new (tpl_root t)) (\<lambda>r.
       new M_TopologyReply [(''root'', r), (''backend_kind'', str (tpl_backend_kind t)), (''error'', text_or_empty (tpl_error t))])"

section \<open>Profiler\<close>

definition thread_ref_to_pb :: "pb_new \<Rightarrow> int \<times> pystr \<Rightarrow> exn + wire" where
  "thread_ref_to_pb new = (\<lambda>(t, c). new M_ThreadRef [(''tid'', VInt t), (''comm'', str c)])"

definition process_info_to_pb :: "pb_new \<Rightarrow> ProcessInfo \<Rightarrow> exn + wire" where
  "process_info_to_pb new i =
     bindE (mapE (thread_ref_to_pb new) (pi_threads i)) (\<lambda>threads.
       new M_ProcessInfoMsg
         [(''pid'', VInt (pi_pid i)), (''comm'', str (pi_comm i)), (''cmdline'', str (pi_cmdline i)),
          (''exe_path'', str (pi_exe_path i)), (''uid'', VInt (pi_uid i)),
          (''start_time_ns'', VInt (max 0 (pi_start_time_ns i))), (''thread_count'', VInt (pi_thread_count i)),
          (''threads'', VList threads), (''error'', text_or_empty (pi_error i))])"

definition process_entry_to_pb :: "pb_new \<Rightarrow> ProcessListEntry \<Rightarrow> exn + wire" where
  "process_entry_to_pb new e =
     bindE (process_info_to_pb new (le_info e)) (\<lambda>info.
       new M_ProcessListEntryMsg
         [(''info'', info), (''io_active'', VBool (le_io_active e)), (''io_rate'', VDouble (le_io_rate e)),
          (''target_devices'', VList (map str (le_target_devices e))), (''is_target'', VBool (le_is_target e)),
          (''matched_rule'', str_or_empty (le_matched_rule e)), (''selectable'', VBool (le_selectable e)),
          (''unselectable_reason'', text_or_empty (le_unselectable_reason e))])"

definition target_rule_to_pb :: "pb_new \<Rightarrow> TargetRule \<Rightarrow> exn + wire" where
  "target_rule_to_pb new r = new M_TargetRuleMsg
     [(''kind'', str (tr_kind r)), (''value'', str (tr_value r)), (''adapter'', str_or_empty (tr_adapter r))]"

definition workload_spec_to_pb :: "pb_new \<Rightarrow> WorkloadSpec option \<Rightarrow> exn + wire" where
  "workload_spec_to_pb new ws =
     (case ws of
        None \<Rightarrow> new M_WorkloadSpecMsg [(''has_spec'', VBool False)]
      | Some w \<Rightarrow> new M_WorkloadSpecMsg
          [(''io_size'', int_or_zero (ws_io_size w)), (''rw'', str_or_empty (ws_rw w)),
           (''pattern'', str_or_empty (ws_pattern w)), (''queue_depth'', int_or_zero (ws_queue_depth w)),
           (''ioengine'', str_or_empty (ws_ioengine w)), (''direct'', VBool (ws_direct w = Some True)),
           (''filename'', str_or_empty (ws_filename w)), (''numjobs'', int_or_zero (ws_numjobs w)),
           (''runtime_sec'', int_or_zero (ws_runtime_sec w)), (''has_spec'', VBool True)])"

definition measured_to_pb :: "pb_new \<Rightarrow> MeasuredWorkload option \<Rightarrow> exn + wire" where
  "measured_to_pb new mw =
     (case mw of
        None \<Rightarrow> new M_MeasuredWorkloadMsg []
      | Some m \<Rightarrow> new M_MeasuredWorkloadMsg
          [(''io_size_dominant'', VInt (mw_io_size_dominant m)), (''read_ratio'', VDouble (mw_read_ratio m)),
           (''write_ratio'', VDouble (mw_write_ratio m)), (''queue_depth_avg'', VDouble (mw_queue_depth_avg m)),
           (''iops'', VDouble (mw_iops m)), (''bandwidth_bps'', VDouble (mw_bandwidth_bps m))])"

definition group_to_pb :: "pb_new \<Rightarrow> LogicalGroup \<Rightarrow> exn + wire" where
  "group_to_pb new g =
     bindE (workload_spec_to_pb new (lg_expected_workload g)) (\<lambda>expected.
     bindE (measured_to_pb new (lg_measured_workload g)) (\<lambda>measured.
       new M_LogicalGroupMsg
         [(''name'', str (lg_name g)), (''type'', str (lg_type g)), (''source'', str (lg_source g)),
          (''thread_tids'', VList (map VInt (lg_thread_tids g))), (''expected_workload'', expected),
          (''measured_workload'', measured), (''has_expectation'', VBool (lg_expectation_match g \<noteq> None)),
          (''expectation_match'', VBool (lg_expectation_match g = Some True)),
          (''mismatch_reasons'', VList (map (\<lambda>r. VStr (Rendered r)) (lg_mismatch_reasons g))),
          (''inferred'', VBool (lg_inferred g)),
          (''progress_pct'', VDouble (case lg_progress_pct g of None \<Rightarrow> 0 | Some x \<Rightarrow> x))]))"

definition session_to_pb :: "pb_new \<Rightarrow> Session \<Rightarrow> exn + wire" where
  "session_to_pb new s =
     bindE (measured_to_pb new (se_aggregate s)) (\<lambda>agg.
     bindE (mapE (group_to_pb new) (se_logical_groups s)) (\<lambda>groups.
       new M_SessionMsg
         [(''session_id'', str (se_session_id s)), (''pid'', VInt (se_pid s)), (''comm'', str (se_comm s)),
          (''cmdline'', str (se_cmdline s)), (''exe_path'', str (se_exe_path s)), (''adapter'', str (se_adapter s)),
          (''status'', str (se_status s)), (''start_time_ns'', VInt (max 0 (se_start_time_ns s))),
          (''session_start_ns'', VInt (se_session_start_ns s)), (''session_end_ns'', int_or_zero (se_session_end_ns s)),
          (''devices'', VList (map str (se_devices s))), (''thread_count_active'', VInt (se_thread_count_active s)),
          (''aggregate'', agg), (''matched_rule'', str_or_empty (se_matched_rule s)),
          (''logical_groups'', VList groups)]))"

definition unmonitored_to_pb :: "pb_new \<Rightarrow> UnmonitoredIo \<Rightarrow> exn + wire" where
  "unmonitored_to_pb new u = new M_UnmonitoredIoMsg
     [(''pid'', VInt (um_pid u)), (''comm'', str (um_comm u)), (''device'', str (um_device u)),
      (''io_rate'', VDouble (um_io_rate u)), (''note'', VStr (Rendered (um_note u)))]"

definition attribution_to_pb :: "pb_new \<Rightarrow> DeviceAttribution \<Rightarrow> exn + wire" where
  "attribution_to_pb new d = new M_DeviceAttributionMsg
     [(''name'', str (da_name d)), (''total_iops'', VDouble (da_total_iops d)),
      (''attributed_iops'', VDouble (da_attributed_iops d)), (''unattributed_iops'', VDouble (da_unattributed_iops d)),
      (''contributing_sessions'', VList (map str (da_contributing_sessions d))),
      (''multi_process_warning'', VBool (da_multi_process_warning d))]"

definition profile_to_pb :: "pb_new \<Rightarrow> ProfileSnapshot \<Rightarrow> exn + wire" where
  "profile_to_pb new snap =
     bindE (mapE (session_to_pb new) (sn_sessions snap)) (\<lambda>sessions.
     bindE (mapE (unmonitored_to_pb new) (sn_unmonitored_io snap)) (\<lambda>unmonitored.
     bindE (mapE (attribution_to_pb new) (sn_devices snap)) (\<lambda>devices.
     bindE (mapE (target_rule_to_pb new) (sn_rules snap)) (\<lambda>rules.
       new M_ProfileReply
         [(''schema_version'', str (sn_schema_version snap)), (''collected_at_ns'', VInt (sn_collected_at_ns snap)),
          (''sessions'', VList sessions), (''unmonitored_io'', VList unmonitored), (''devices'', VList devices),
          (''rules'', VList rules), (''available'', VBool (sn_available snap)), (''error'', text_or_empty (sn_error snap))]))))"

end
