(* ===== verification/ConvertLaws.thy ===== *)
theory ConvertLaws
  imports Convert
begin

text \<open>
  What the conversions of \<open>grpcserver/convert.py\<close> promise: which dataclasses have a message, and that a message
  determines its dataclass.
\<close>

section \<open>Hexadecimal text\<close>

text \<open>The inverse of \<open>hexdigit\<close> and of \<open>hex\<close>, to read an address back.\<close>

definition hexdigit_val :: "char \<Rightarrow> nat" where
  "hexdigit_val c = (if code c < 58 then code c - 48 else code c - 87)"

definition hex_val :: "pystr \<Rightarrow> nat" where
  "hex_val s = foldl (\<lambda>n c. 16 * n + hexdigit_val c) 0 s"

lemma hexdigit_val_hexdigit [simp]: "d < 16 \<Longrightarrow> hexdigit_val (hexdigit d) = d"
  by (simp add: hexdigit_val_def hexdigit_def of_char_of take_bit_nat_def)

lemma hex_val_nat_hex [simp]: "hex_val (nat_hex n) = n"
proof (induction n rule: nat_hex.induct)
  case (1 n)
  then show ?case
    by (subst nat_hex.simps) (simp add: hex_val_def)
qed

lemma nat_hex_inject [simp]: "nat_hex m = nat_hex n \<longleftrightarrow> m = n"
  by (metis hex_val_nat_hex)

lemma py_hex_inject [simp]: "py_hex i = py_hex j \<longleftrightarrow> i = j"
  by (auto simp: py_hex_def)

lemma hex_str_inject [simp]: "hex_str i = hex_str j \<longleftrightarrow> i = j"
  by (simp add: hex_str_def)

lemma str_inject [simp]: "str s = str t \<longleftrightarrow> s = t"
  by (simp add: str_def)

section \<open>Lists of conversions\<close>

lemma mapE_list_all2: "mapE f xs = Inr ys \<longleftrightarrow> list_all2 (\<lambda>x y. f x = Inr y) xs ys"
  by (induction xs arbitrary: ys) (auto simp: bindE_Inr list_all2_Cons1)

lemma mapE_ok: "(\<exists>ys. mapE f xs = Inr ys) \<longleftrightarrow> (\<forall>x \<in> set xs. \<exists>y. f x = Inr y)"
  by (induction xs) (auto simp: bindE_Inr)

lemma mapE_inject:
  assumes "mapE f xs = Inr zs" "mapE f ys = Inr zs"
    and "\<And>x y z. \<lbrakk>x \<in> set xs; y \<in> set ys; f x = Inr z; f y = Inr z\<rbrakk> \<Longrightarrow> x = y"
  shows "xs = ys"
  using assms by (auto simp: mapE_list_all2 list_all2_conv_all_nth intro!: nth_equalityI)

lemma not_isl_Inr: "\<not> isl r \<longleftrightarrow> (\<exists>x. r = Inr x)"
  by (cases r) auto

section \<open>Which values travel\<close>

text \<open>A dataclass whose integers are in the range of their fields.\<close>

definition queue_in_range :: "QueueSnapshot \<Rightarrow> bool" where
  "queue_in_range q \<longleftrightarrow> list_all (in_range Int32)
     ([qs_index q, qs_qid q, qs_depth q, qs_sq_tail q, qs_cq_head q, qs_inflight_driver q, qs_inflight_sched q] @
      (case qs_hctx_index q of None \<Rightarrow> [] | Some i \<Rightarrow> [i]))"

definition device_in_range :: "DeviceSnapshot \<Rightarrow> bool" where
  "device_in_range d \<longleftrightarrow> in_range Int32 (ds_online_queues d) \<and> in_range Int32 (ds_allocated_queues d) \<and>
     list_all queue_in_range (ds_queues d)"

definition entry_in_range :: "QueueEntry \<Rightarrow> bool" where
  "entry_in_range e \<longleftrightarrow>
     list_all (in_range Int32) [qe_index e, qe_cid e, qe_opcode e, qe_flags e] \<and>
     list_all (in_range UInt32) [qe_nsid e, qe_cdw2 e, qe_cdw3 e, qe_cdw10 e, qe_cdw11 e, qe_cdw12 e, qe_cdw13 e, qe_cdw14 e, qe_cdw15 e]"

definition completion_in_range :: "CompletionEntry \<Rightarrow> bool" where
  "completion_in_range c \<longleftrightarrow>
     list_all (in_range Int32) [ce_index c, ce_command_id c, ce_sq_id c, ce_sq_head c, ce_status_raw c, ce_status_code c, ce_status_code_type c] \<and>
     in_range UInt32 (ce_result c)"

definition page_in_range :: "PrpPage \<Rightarrow> bool" where
  "page_in_range pg \<longleftrightarrow> in_range Int32 (pp_offset_in_page pg)"

definition payload_in_range :: "PrpPayload \<Rightarrow> bool" where
  "payload_in_range p \<longleftrightarrow> in_range Int32 (pl_qid p) \<and> in_range Int32 (pl_cid p) \<and> in_range Int64 (pl_total_len p) \<and>
     list_all page_in_range (pl_pages p)"

lemma checked_call: "runtime new \<Longrightarrow> isl (new n kw) \<longleftrightarrow> \<not> list_all (fits_field n) kw"
  unfolding runtime_def by (metis sum.disc(2))

lemma mapE_msgs:
  assumes "mapE f xs = Inr ys" and "\<And>x y. f x = Inr y \<Longrightarrow> \<exists>kw. y = VMsg n kw"
  shows "list_all (fits (Sub n)) ys"
  using assms by (fastforce simp: mapE_list_all2 list_all2_conv_all_nth list_all_length)

lemma in_range_minus_1 [simp]: "in_range Int32 (- 1)"
  by simp

lemma queue_converts: "runtime new \<Longrightarrow> (\<exists>m. queue_to_pb new q = Inr m) \<longleftrightarrow> queue_in_range q"
  by (auto simp: queue_to_pb_def runtime_Inr fits_field_def field_values queue_in_range_def simp del: in_range.simps
      split: option.splits)

lemma queue_msg: "runtime new \<Longrightarrow> queue_to_pb new q = Inr m \<Longrightarrow> \<exists>kw. m = VMsg M_QueueSnapshot kw"
  by (simp add: queue_to_pb_def runtime_Inr)

lemma device_converts:
  assumes "runtime new"
  shows "(\<exists>m. device_to_pb new d = Inr m) \<longleftrightarrow> device_in_range d"
proof -
  have "\<And>qs. mapE (queue_to_pb new) (ds_queues d) = Inr qs \<Longrightarrow> list_all (fits (Sub M_QueueSnapshot)) qs"
    using mapE_msgs queue_msg assms by blast
  moreover have "(\<exists>qs. mapE (queue_to_pb new) (ds_queues d) = Inr qs) \<longleftrightarrow> list_all queue_in_range (ds_queues d)"
    unfolding mapE_ok queue_converts [OF assms] by (simp add: list_all_iff)
  ultimately show ?thesis
    unfolding device_to_pb_def bindE_Inr runtime_Inr [OF assms] device_in_range_def
    by (auto simp: fits_field_def field_values simp del: in_range.simps)
qed

lemma entry_converts: "runtime new \<Longrightarrow> (\<exists>m. entry_to_pb new e = Inr m) \<longleftrightarrow> entry_in_range e"
  by (auto simp: entry_to_pb_def runtime_Inr fits_field_def field_values entry_in_range_def simp del: in_range.simps)

lemma completion_converts: "runtime new \<Longrightarrow> (\<exists>m. completion_to_pb new c = Inr m) \<longleftrightarrow> completion_in_range c"
  by (auto simp: completion_to_pb_def runtime_Inr fits_field_def field_values completion_in_range_def simp del: in_range.simps)

lemma page_converts: "runtime new \<Longrightarrow> (\<exists>m. page_to_pb new p = Inr m) \<longleftrightarrow> page_in_range p"
  by (auto simp: page_to_pb_def runtime_Inr fits_field_def field_values page_in_range_def simp del: in_range.simps)

lemma page_msg: "runtime new \<Longrightarrow> page_to_pb new q = Inr m \<Longrightarrow> \<exists>kw. m = VMsg M_PrpPage kw"
  by (simp add: page_to_pb_def runtime_Inr)

lemma payload_converts:
  assumes "runtime new"
  shows "(\<exists>m. prp_to_pb new p = Inr m) \<longleftrightarrow> payload_in_range p"
proof -
  have "\<And>qs. mapE (page_to_pb new) (pl_pages p) = Inr qs \<Longrightarrow> list_all (fits (Sub M_PrpPage)) qs"
    using mapE_msgs page_msg assms by blast
  moreover have "(\<exists>qs. mapE (page_to_pb new) (pl_pages p) = Inr qs) \<longleftrightarrow> list_all page_in_range (pl_pages p)"
    unfolding mapE_ok page_converts [OF assms] by (simp add: list_all_iff)
  ultimately show ?thesis
    unfolding prp_to_pb_def bindE_Inr runtime_Inr [OF assms] payload_in_range_def
    by (auto simp: fits_field_def field_values simp del: in_range.simps split: option.splits)
qed

lemma detail_msg: "runtime new \<Longrightarrow> detail_to_pb new d = Inr m \<longleftrightarrow>
    m = VMsg M_TopologyDetail [(''key'', VStr (Pieces (tpd_key d))), (''value'', VStr (Pieces (tpd_value d)))]"
  by (simp add: detail_to_pb_def runtime_Inr fits_field_def)

lemma mapE_msgs_total:
  assumes "\<And>x. x \<in> set xs \<Longrightarrow> \<exists>kw. f x = Inr (VMsg n kw)"
  shows "\<exists>ys. mapE f xs = Inr ys \<and> list_all (fits (Sub n)) ys"
  using assms
proof (induction xs)
  case (Cons x xs)
  from Cons.prems [of x] obtain kw where "f x = Inr (VMsg n kw)" by auto
  moreover from Cons obtain ys where "mapE f xs = Inr ys" "list_all (fits (Sub n)) ys" by auto
  ultimately show ?case by simp
qed simp

lemma topology_node_total:
  assumes "runtime new"
  shows "\<exists>kw. topology_node_to_pb new t = Inr (VMsg M_TopologyNode kw)"
proof (induction t)
  case (TopologyNode i k l s v ds cs)
  obtain ms where "mapE (detail_to_pb new) ds = Inr ms" "list_all (fits (Sub M_TopologyDetail)) ms"
    using mapE_msgs_total [of ds "detail_to_pb new" M_TopologyDetail] detail_msg [OF assms] by metis
  moreover obtain ns where "mapE (topology_node_to_pb new) cs = Inr ns" "list_all (fits (Sub M_TopologyNode)) ns"
    using mapE_msgs_total [of cs "topology_node_to_pb new" M_TopologyNode] TopologyNode by blast
  ultimately show ?case
    by (simp add: bindE_Inr runtime_Inr [OF assms] fits_field_def field_values)
qed

lemma topology_total: "runtime new \<Longrightarrow> \<exists>m. topology_to_pb new t = Inr m"
  using topology_node_total [of new "tpl_root t"]
  by (auto simp: topology_to_pb_def runtime_Inr fits_field_def field_values split: option.splits)

lemma event_kind_total: "runtime new \<Longrightarrow> \<exists>kw. event_kind_to_pb new k = Inr (VMsg M_EventKind kw)"
  by (auto simp: event_kind_to_pb_def runtime_Inr fits_field_def field_values)

lemma target_rule_total: "runtime new \<Longrightarrow> \<exists>kw. target_rule_to_pb new r = Inr (VMsg M_TargetRuleMsg kw)"
  by (auto simp: target_rule_to_pb_def runtime_Inr fits_field_def field_values split: option.splits)

lemma queue_perf_total:
  "runtime new \<Longrightarrow> in_range Int32 (qp_qid q) \<Longrightarrow> \<exists>kw. queue_perf_to_pb new q = Inr (VMsg M_QueuePerf kw)"
  by (auto simp: queue_perf_to_pb_def runtime_Inr fits_field_def field_values simp del: in_range.simps)

definition perf_in_range :: "DevicePerf \<Rightarrow> bool" where
  "perf_in_range d \<longleftrightarrow> list_all (\<lambda>q. in_range Int32 (qp_qid q))
     (dp_queues d @ (case dp_aggregate d of None \<Rightarrow> [] | Some a \<Rightarrow> [a]))"

lemma device_perf_total:
  assumes "runtime new" "perf_in_range d"
  shows "\<exists>m. device_perf_to_pb new d = Inr m"
proof -
  obtain qs where qs: "mapE (queue_perf_to_pb new) (dp_queues d) = Inr qs" "list_all (fits (Sub M_QueuePerf)) qs"
    using mapE_msgs_total [of "dp_queues d" "queue_perf_to_pb new" M_QueuePerf] queue_perf_total [OF assms(1)] assms(2)
    by (fastforce simp: perf_in_range_def list_all_iff)
  have kw: "list_all (fits_field M_DevicePerf)
     [(''device'', str (dp_device d)), (''queues'', VList qs), (''available'', VBool (dp_available d)),
      (''error'', text_or_empty (dp_error d))]"
    using qs(2) by (simp add: fits_field_def field_values split: option.splits)
  then show ?thesis
    using assms(2) queue_perf_total [OF assms(1)] qs(1)
    by (fastforce simp: device_perf_to_pb_def bindE_Inr runtime_Inr [OF assms(1)] perf_in_range_def split: option.splits)
qed

lemma tree_node_total: "runtime new \<Longrightarrow> \<exists>kw. tree_node_to_pb new n = Inr (VMsg M_TreeNode kw)"
  by (auto simp: tree_node_to_pb_def runtime_Inr fits_field_def field_values split: option.splits)

lemma tree_expansion_total:
  assumes "runtime new" "te_depth e < 2 ^ 31"
  shows "\<exists>m. tree_expansion_to_pb new e = Inr m"
proof -
  obtain cs where "mapE (tree_node_to_pb new) (te_children e) = Inr cs" "list_all (fits (Sub M_TreeNode)) cs"
    using mapE_msgs_total [of "te_children e" "tree_node_to_pb new" M_TreeNode] tree_node_total [OF assms(1)] by blast
  moreover obtain kw where "tree_node_to_pb new (te_node e) = Inr (VMsg M_TreeNode kw)"
    using tree_node_total [OF assms(1)] by blast
  moreover have "int (te_depth e) < 2 ^ 31" using assms(2) by simp
  ultimately show ?thesis
    by (auto simp: tree_expansion_to_pb_def bindE_Inr runtime_Inr [OF assms(1)] fits_field_def field_values
        simp del: of_nat_less_numeral_iff split: option.splits)
qed

definition info_in_range :: "ProcessInfo \<Rightarrow> bool" where
  "info_in_range i \<longleftrightarrow> list_all (in_range Int32) ([pi_pid i, pi_uid i, pi_thread_count i] @ map fst (pi_threads i)) \<and>
     pi_start_time_ns i < 2 ^ 64"

lemma thread_ref_converts: "runtime new \<Longrightarrow> (\<exists>m. thread_ref_to_pb new t = Inr m) \<longleftrightarrow> in_range Int32 (fst t)"
  by (auto simp: thread_ref_to_pb_def runtime_Inr fits_field_def field_values simp del: in_range.simps split: prod.split)

lemma thread_ref_msg: "runtime new \<Longrightarrow> thread_ref_to_pb new t = Inr m \<Longrightarrow> \<exists>kw. m = VMsg M_ThreadRef kw"
  by (simp add: thread_ref_to_pb_def runtime_Inr split: prod.splits)

lemma process_info_converts:
  assumes "runtime new"
  shows "(\<exists>m. process_info_to_pb new i = Inr m) \<longleftrightarrow> info_in_range i"
proof -
  have "\<And>ts. mapE (thread_ref_to_pb new) (pi_threads i) = Inr ts \<Longrightarrow> list_all (fits (Sub M_ThreadRef)) ts"
    using mapE_msgs thread_ref_msg assms by blast
  moreover have "(\<exists>ts. mapE (thread_ref_to_pb new) (pi_threads i) = Inr ts) \<longleftrightarrow>
      list_all (in_range Int32) (map fst (pi_threads i))"
    unfolding mapE_ok thread_ref_converts [OF assms] by (auto simp: list_all_iff)
  moreover have "in_range UInt64 (max 0 (pi_start_time_ns i)) \<longleftrightarrow> pi_start_time_ns i < 2 ^ 64" by auto
  ultimately show ?thesis
    unfolding process_info_to_pb_def bindE_Inr runtime_Inr [OF assms] info_in_range_def
    by (auto simp: fits_field_def field_values simp del: in_range.simps split: option.splits)
qed

lemma process_info_msg: "runtime new \<Longrightarrow> process_info_to_pb new i = Inr m \<Longrightarrow> \<exists>kw. m = VMsg M_ProcessInfoMsg kw"
  by (auto simp: process_info_to_pb_def bindE_Inr runtime_Inr)

lemma strs_fit [simp]: "list_all (fits Str) (map str ss)"
  by (simp add: list_all_iff str_def)

lemma process_entry_converts:
  assumes "runtime new"
  shows "(\<exists>m. process_entry_to_pb new e = Inr m) \<longleftrightarrow> info_in_range (le_info e)"
  using process_info_converts [OF assms, of "le_info e"] process_info_msg [OF assms, of "le_info e"]
  by (fastforce simp: process_entry_to_pb_def bindE_Inr runtime_Inr [OF assms] fits_field_def field_values
      list_all_iff split: option.splits)

lemma process_entries_convert:
  assumes "runtime new"
  shows "(\<exists>ms. mapE (process_entry_to_pb new) es = Inr ms) \<longleftrightarrow> (\<forall>e \<in> set es. info_in_range (le_info e))"
  unfolding mapE_ok process_entry_converts [OF assms] ..

section \<open>Nothing is lost\<close>

text \<open>The hardware queue of a snapshot is absent or a count, so \<open>-1\<close> stands for its absence only.\<close>

definition hctx_ok :: "QueueSnapshot \<Rightarrow> bool" where
  "hctx_ok q \<longleftrightarrow> (case qs_hctx_index q of None \<Rightarrow> True | Some i \<Rightarrow> 0 \<le> i)"

lemma queue_to_pb_inject:
  assumes "runtime new" "hctx_ok q" "hctx_ok q'" "queue_to_pb new q = Inr m" "queue_to_pb new q' = Inr m"
  shows "q = q'"
  using assms by (cases q, cases q') (auto simp: queue_to_pb_def runtime_Inr hctx_ok_def split: option.splits)

lemma entry_to_pb_inject:
  assumes "runtime new" "entry_to_pb new e = Inr m" "entry_to_pb new e' = Inr m"
  shows "e = e'"
  using assms by (cases e, cases e') (simp add: entry_to_pb_def runtime_Inr)

lemma completion_to_pb_inject:
  assumes "runtime new" "completion_to_pb new c = Inr m" "completion_to_pb new c' = Inr m"
  shows "c = c'"
  using assms by (cases c, cases c') (simp add: completion_to_pb_def runtime_Inr)

lemma page_to_pb_inject:
  assumes "runtime new" "page_to_pb new c = Inr m" "page_to_pb new c' = Inr m"
  shows "c = c'"
  using assms by (cases c, cases c') (simp add: page_to_pb_def runtime_Inr)

definition device_fields :: "DeviceSnapshot \<Rightarrow> wire list \<Rightarrow> kwargs" where
  "device_fields d queues =
     [(''name'', str (ds_name d)), (''addr'', hex_str (ds_addr d)), (''model'', str (ds_model d)),
      (''online_queues'', VInt (ds_online_queues d)), (''allocated_queues'', VInt (ds_allocated_queues d)),
      (''bar_addr'', hex_str (ds_bar_addr d)), (''dbs_addr'', hex_str (ds_dbs_addr d)),
      (''iommu_enabled'', VBool (ds_iommu_enabled d)), (''queues'', VList queues),
      (''backend_kind'', str (ds_backend_kind d))]"

lemma device_msg:
  assumes "runtime new" "device_to_pb new d = Inr m"
  shows "\<exists>qs. mapE (queue_to_pb new) (ds_queues d) = Inr qs \<and> m = VMsg M_DeviceSnapshot (device_fields d qs)"
  using assms(2) unfolding device_to_pb_def bindE_Inr runtime_Inr [OF assms(1)] device_fields_def by blast

text \<open>
  C19: a device snapshot converts exactly when its integers fit.  The conversion of a snapshot gives a message
  if and only if the queue counts and every integer of every queue are in the range of a signed 32-bit
  field; an absent hardware queue always fits, and the addresses, which travel as text, may have any size.
\<close>

theorem device_reply_typed:
  assumes "runtime new"
  shows "(\<exists>m. device_to_pb new d = Inr m) \<longleftrightarrow> device_in_range d"
  using assms by (rule device_converts)

text \<open>
  C20: the reply carries the whole snapshot.  Two device snapshots with the same message are equal: the
  addresses can be read back from their hexadecimal text, an absent hardware queue cannot be taken for
  one, and no field is dropped or merged with another.
\<close>

theorem device_reply_lossless:
  assumes "runtime new" and "list_all hctx_ok (ds_queues d)" and "list_all hctx_ok (ds_queues d')"
    and "device_to_pb new d = Inr m" and "device_to_pb new d' = Inr m"
  shows "d = d'"
proof -
  from device_msg [OF assms(1,4)] obtain qs where qs: "mapE (queue_to_pb new) (ds_queues d) = Inr qs"
    and m: "m = VMsg M_DeviceSnapshot (device_fields d qs)" by blast
  from device_msg [OF assms(1,5)] obtain qs' where qs': "mapE (queue_to_pb new) (ds_queues d') = Inr qs'"
    and m': "m = VMsg M_DeviceSnapshot (device_fields d' qs')" by blast
  have same: "qs' = qs" using m m' by (simp add: device_fields_def)
  have "ds_queues d = ds_queues d'"
    by (rule mapE_inject [OF qs qs' [unfolded same]]) (use assms(1-3) queue_to_pb_inject in \<open>auto simp: list_all_iff\<close>)
  with m m' show ?thesis by (intro DeviceSnapshot.equality) (simp_all add: device_fields_def)
qed

section \<open>A sample snapshot\<close>

definition sample_queue_row :: "int \<Rightarrow> int option \<Rightarrow> QueueSnapshot" where
  "sample_queue_row i h =
     \<lparr>qs_index = i, qs_qid = i, qs_is_admin = (i = 0), qs_depth = 64, qs_sq_tail = 5, qs_cq_head = 3,
      qs_sq_dma_addr = 0x1000, qs_cq_dma_addr = 0x2000, qs_hctx_index = h, qs_inflight_driver = 2, qs_inflight_sched = 0\<rparr>"

definition sample_snapshot :: DeviceSnapshot where
  "sample_snapshot =
     \<lparr>ds_name = ''nvme0'', ds_addr = 0xFFFF888000001000, ds_model = ''PM9A3'', ds_online_queues = 2,
      ds_allocated_queues = 2, ds_bar_addr = 0xFFFFC90000000000, ds_dbs_addr = 0xFFFFC90000001000,
      ds_iommu_enabled = False, ds_backend_kind = ''drgn'', ds_queues = [sample_queue_row 0 None, sample_queue_row 1 (Some 0)]\<rparr>"

lemma sample_in_range: "device_in_range sample_snapshot"
  by (simp add: device_in_range_def sample_snapshot_def queue_in_range_def sample_queue_row_def)

lemma sample_hctx: "list_all hctx_ok (ds_queues sample_snapshot)"
  by (simp add: sample_snapshot_def hctx_ok_def sample_queue_row_def)

theorem device_reply_typed_witness:
  "(\<exists>m. device_to_pb checked_new sample_snapshot = Inr m) \<and>
   \<not> (\<exists>m. device_to_pb checked_new (sample_snapshot\<lparr>ds_online_queues := 2 ^ 31\<rparr>) = Inr m)"
  unfolding device_reply_typed [OF runtime_checked_new] using sample_in_range by (simp add: device_in_range_def)

theorem device_reply_lossless_witness:
  "{d. list_all hctx_ok (ds_queues d) \<and> device_to_pb checked_new d = device_to_pb checked_new sample_snapshot}
    = {sample_snapshot}"
proof -
  obtain m where m: "device_to_pb checked_new sample_snapshot = Inr m"
    using device_converts [OF runtime_checked_new] sample_in_range by blast
  show ?thesis
    unfolding m using device_reply_lossless [OF runtime_checked_new _ sample_hctx _ m] m sample_hctx by auto
qed

end
