(* ===== verification/Server.thy ===== *)
theory Server
  imports Backend ConvertLaws
begin

text \<open>
  \<open>grpcserver/server.py\<close>: the handlers of the gRPC service.  A handler calls one method of the backend and
  converts its result.  The outcome of a call is a reply, an abort with a status code, or an exception that
  leaves the handler, which the framework reports as \<open>UNKNOWN\<close>.
\<close>

section \<open>Outcomes\<close>

datatype status_code = NOT_FOUND | INVALID_ARGUMENT

datatype rpc = Reply wire | Abort status_code message | Raised exn

text \<open>A reply, or the exception of the conversion.\<close>

definition reply :: "exn + wire \<Rightarrow> rpc" where
  "reply r = (case r of Inl e \<Rightarrow> Raised e | Inr m \<Rightarrow> Reply m)"

text \<open>The two \<open>except\<close> clauses of the queue handlers, and the handlers with only the first of them.\<close>

definition device_text :: "pystr \<Rightarrow> message" where
  "device_text device = MsgRaw (''device not found: '' @ device)"

definition qid_text :: "int \<Rightarrow> message" where
  "qid_text qid = MsgRaw (''qid not found: '' @ int_dec qid)"

fun abort_device :: "pystr \<Rightarrow> exn \<Rightarrow> rpc" where
  "abort_device device (DeviceNotFoundError d) = Abort NOT_FOUND (device_text device)"
| "abort_device device e = Raised e"

fun abort_queue :: "pystr \<Rightarrow> int \<Rightarrow> exn \<Rightarrow> rpc" where
  "abort_queue device qid (DeviceNotFoundError d) = Abort NOT_FOUND (device_text device)"
| "abort_queue device qid (QueueNotFoundError q) = Abort NOT_FOUND (qid_text qid)"
| "abort_queue device qid e = Raised e"

text \<open>The shape of every handler: run, map an exception, convert a result.\<close>

definition handle :: "(exn \<Rightarrow> rpc) \<Rightarrow> ('r \<Rightarrow> exn + wire) \<Rightarrow> (exn + 'r) \<times> 's \<Rightarrow> rpc \<times> 's" where
  "handle catch convert = (\<lambda>(r, s). (case r of Inl e \<Rightarrow> catch e | Inr x \<Rightarrow> reply (convert x), s))"

text \<open>A reply with one repeated field, filled by a loop.\<close>

definition list_reply :: "pb_new \<Rightarrow> msg \<Rightarrow> kwargs \<Rightarrow> pystr \<Rightarrow> ('a \<Rightarrow> exn + wire) \<Rightarrow> 'a list \<Rightarrow> exn + wire" where
  "list_reply new n kw field convert xs = bindE (mapE convert xs) (\<lambda>ms. new n (kw @ [(field, VList ms)]))"

section \<open>Queues, tree and topology\<close>

definition ListDevices :: "pb_new \<Rightarrow> ('e, 's) Backend \<Rightarrow> 'e \<Rightarrow> 's \<Rightarrow> rpc \<times> 's" where
  "ListDevices new b e s =
     handle Raised (\<lambda>names. new M_DeviceListReply [(''names'', VList (map str names))]) (be_list_devices b e s)"

definition GetDeviceSnapshot :: "pb_new \<Rightarrow> ('e, 's) Backend \<Rightarrow> pystr \<Rightarrow> 'e \<Rightarrow> 's \<Rightarrow> rpc \<times> 's" where
  "GetDeviceSnapshot new b device e s =
     handle (abort_device device) (device_to_pb new) (be_get_device_snapshot b device e s)"

definition GetQueueEntries ::
  "pb_new \<Rightarrow> ('e, 's) Backend \<Rightarrow> pystr \<Rightarrow> int \<Rightarrow> int \<Rightarrow> bool \<Rightarrow> 'e \<Rightarrow> 's \<Rightarrow> rpc \<times> 's" where
  "GetQueueEntries new b device qid limit around e s =
     handle (abort_queue device qid)
       (list_reply new M_QueueEntriesReply [(''device'', str device), (''qid'', VInt qid)] ''entries'' (entry_to_pb new))
       (be_get_queue_entries b device qid limit around e s)"

definition GetCompletionEntries ::
  "pb_new \<Rightarrow> ('e, 's) Backend \<Rightarrow> pystr \<Rightarrow> int \<Rightarrow> int \<Rightarrow> bool \<Rightarrow> 'e \<Rightarrow> 's \<Rightarrow> rpc \<times> 's" where
  "GetCompletionEntries new b device qid limit around e s =
     handle (abort_queue device qid)
       (list_reply new M_CompletionEntriesReply [(''device'', str device), (''qid'', VInt qid)] ''entries''
          (completion_to_pb new))
       (be_get_completion_entries b device qid limit around e s)"

definition GetPrpPayload :: "pb_new \<Rightarrow> ('e, 's) Backend \<Rightarrow> pystr \<Rightarrow> int \<Rightarrow> int \<Rightarrow> 'e \<Rightarrow> 's \<Rightarrow> rpc \<times> 's" where
  "GetPrpPayload new b device qid cid e s =
     handle (abort_queue device qid) (prp_to_pb new) (be_get_prp_payload b device qid cid e s)"

definition GetTreeNode :: "pb_new \<Rightarrow> ('e, 's) Backend \<Rightarrow> pystr \<Rightarrow> pystr list \<Rightarrow> 'e \<Rightarrow> 's \<Rightarrow> rpc \<times> 's" where
  "GetTreeNode new b device path e s =
     handle (abort_device device) (tree_expansion_to_pb new) (be_get_tree_node b device path e s)"

definition GetTopology :: "pb_new \<Rightarrow> ('e, 's) Backend \<Rightarrow> 'e \<Rightarrow> 's \<Rightarrow> rpc \<times> 's" where
  "GetTopology new b e s = handle Raised (topology_to_pb new) (be_get_topology b e s)"

section \<open>Performance and events\<close>

definition GetPerformance :: "pb_new \<Rightarrow> ('e, 's) Backend \<Rightarrow> pystr \<Rightarrow> 'e \<Rightarrow> 's \<Rightarrow> rpc \<times> 's" where
  "GetPerformance new b device e s = handle Raised (device_perf_to_pb new) (be_get_performance b device e s)"

definition GetEvents :: "pb_new \<Rightarrow> ('e, 's) Backend \<Rightarrow> pystr \<Rightarrow> 'e \<Rightarrow> 's \<Rightarrow> rpc \<times> 's" where
  "GetEvents new b device e s =
     handle Raised (list_reply new M_EventsReply [(''device'', str device)] ''events'' (nvme_event_to_pb new))
       (be_get_events b device e s)"

definition GetErrorStats :: "pb_new \<Rightarrow> ('e, 's) Backend \<Rightarrow> pystr \<Rightarrow> 'e \<Rightarrow> 's \<Rightarrow> rpc \<times> 's" where
  "GetErrorStats new b device e s = handle Raised (error_stats_to_pb new) (be_get_error_stats b device e s)"

definition ListEventKinds :: "pb_new \<Rightarrow> ('e, 's) Backend \<Rightarrow> 'e \<Rightarrow> 's \<Rightarrow> rpc \<times> 's" where
  "ListEventKinds new b e s =
     handle Raised (list_reply new M_EventKindsReply [] ''kinds'' (event_kind_to_pb new)) (be_list_event_kinds b e s)"

section \<open>Profiler\<close>

definition ListProcesses :: "pb_new \<Rightarrow> ('e, 's) Backend \<Rightarrow> bool \<Rightarrow> 'e \<Rightarrow> 's \<Rightarrow> rpc \<times> 's" where
  "ListProcesses new b only_io e s =
     handle Raised (list_reply new M_ProcessListReply [] ''processes'' (process_entry_to_pb new))
       (be_list_processes b only_io e s)"

definition targets_reply :: "pb_new \<Rightarrow> TargetRule list \<Rightarrow> exn + wire" where
  "targets_reply new = list_reply new M_TargetsReply [] ''rules'' (target_rule_to_pb new)"

definition ListTargets :: "pb_new \<Rightarrow> ('e, 's) Backend \<Rightarrow> 'e \<Rightarrow> 's \<Rightarrow> rpc \<times> 's" where
  "ListTargets new b e s = handle Raised (targets_reply new) (be_list_targets b e s)"

fun abort_value :: "exn \<Rightarrow> rpc" where
  "abort_value (ValueError m) = Abort INVALID_ARGUMENT m"
| "abort_value e = Raised e"

definition AddTarget :: "pb_new \<Rightarrow> ('e, 's) Backend \<Rightarrow> pystr \<Rightarrow> pystr \<Rightarrow> pystr \<Rightarrow> 'e \<Rightarrow> 's \<Rightarrow> rpc \<times> 's" where
  "AddTarget new b kind v adapter e s =
     handle abort_value (targets_reply new)
       (be_add_target b \<lparr>tr_kind = kind, tr_value = v, tr_adapter = (if adapter = [] then None else Some adapter)\<rparr> e s)"

definition RemoveTarget :: "pb_new \<Rightarrow> ('e, 's) Backend \<Rightarrow> pystr \<Rightarrow> pystr \<Rightarrow> 'e \<Rightarrow> 's \<Rightarrow> rpc \<times> 's" where
  "RemoveTarget new b kind v e s = handle Raised (targets_reply new) (be_remove_target b kind v e s)"

definition GetProfile :: "pb_new \<Rightarrow> ('e, 's) Backend \<Rightarrow> 'e \<Rightarrow> 's \<Rightarrow> rpc \<times> 's" where
  "GetProfile new b e s = handle Raised (profile_to_pb new) (be_get_profile b e s)"

section \<open>Streams\<close>

text \<open>
  A stream answers one poll after the other, sleeping in between, until the client cancels it or a poll does
  not give a reply.  The list of environments has one element for each poll that completes before the cancellation;
  the sleep after the last of them may be cut short.
\<close>

datatype stream_act = Sent wire | Slept pyfloat

datatype stream_end = Cancelled | Aborted status_code message | Failed exn

fun stream ::
  "pyfloat \<Rightarrow> ('e \<Rightarrow> 's \<Rightarrow> rpc \<times> 's) \<Rightarrow> 'e list \<Rightarrow> 's \<Rightarrow> stream_act list \<times> stream_end \<times> 's" where
  "stream interval poll [] s = ([], Cancelled, s)"
| "stream interval poll (e # es) s =
     (case poll e s of
        (Abort c m, s') \<Rightarrow> ([], Aborted c m, s')
      | (Raised x, s') \<Rightarrow> ([], Failed x, s')
      | (Reply w, s') \<Rightarrow>
          (case stream interval poll es s' of (acts, fin, s'') \<Rightarrow> (Sent w # Slept interval # acts, fin, s'')))"

text \<open>\<open>request.interval_sec or d\<close>\<close>

definition interval_or :: "pyfloat \<Rightarrow> pyfloat \<Rightarrow> pyfloat" where
  "interval_or interval_sec d = (if interval_sec = 0 then d else interval_sec)"

definition StreamDeviceMetrics where
  "StreamDeviceMetrics new b device interval_sec =
     stream (interval_or interval_sec (1 / 2)) (GetDeviceSnapshot new b device)"

definition StreamPerformance where
  "StreamPerformance new b device interval_sec = stream (interval_or interval_sec 1) (GetPerformance new b device)"

definition StreamEvents where
  "StreamEvents new b device interval_sec = stream (interval_or interval_sec 1) (GetEvents new b device)"

definition StreamProfile where
  "StreamProfile new b interval_sec = stream (interval_or interval_sec 2) (GetProfile new b)"

end
