(* ===== verification/ServerLaws.thy ===== *)
theory ServerLaws
  imports Server
begin

unbundle bit_operations_syntax

text \<open>
  What a client of the gRPC service gets: the contract of a backend that the queue handlers rely on, its
  interpretation on both backends, and the answers of the handlers on every branch.
\<close>

section \<open>Outcomes of a handler\<close>

lemma handle_simps [simp]:
  "handle c f (Inl x, s) = (c x, s)" "handle c f (Inr y, s) = (reply (f y), s)"
  by (simp_all add: handle_def)

lemma reply_Inr [simp]: "reply (Inr m) = Reply m"
  by (simp add: reply_def)

lemma reply_total: "\<exists>m. r = Inr m \<Longrightarrow> \<exists>m. reply r = Reply m"
  by auto

lemma reply_isl: "\<nexists>m. r = Inr m \<Longrightarrow> \<exists>x. reply r = Raised x"
  by (cases r) (auto simp: reply_def)

text \<open>A list reply exists when every element converts to the message type of the field.\<close>

lemma list_reply_total:
  assumes "runtime new" and "\<And>x. x \<in> set xs \<Longrightarrow> \<exists>kw. convert x = Inr (VMsg n' kw)"
    and "list_all (fits_field n) kw" and "map_of (fields n) field = Some (Repeated (Sub n'))"
  shows "\<exists>m. reply (list_reply new n kw field convert xs) = Reply m"
proof -
  obtain ms where "mapE convert xs = Inr ms" "list_all (fits (Sub n')) ms"
    using mapE_msgs_total [of xs convert n'] assms(2) by blast
  then show ?thesis
    using assms(3,4) by (intro reply_total) (auto simp: list_reply_def runtime_Inr [OF assms(1)] fits_field_def)
qed

section \<open>Unknown devices\<close>

text \<open>
  What the handlers rely on: on a connected backend, looking up a device that is not there raises
  \<open>DeviceNotFoundError\<close>, from every method that takes a device of the queue family, and changes nothing.
\<close>

locale device_lookup =
  fixes b :: "('e, 's) Backend" and connected :: "'e \<Rightarrow> bool" and known :: "'e \<Rightarrow> pystr \<Rightarrow> bool"
  assumes unknown_snapshot:
      "connected e \<Longrightarrow> \<not> known e d \<Longrightarrow> be_get_device_snapshot b d e s = (Inl (DeviceNotFoundError d), s)"
    and unknown_entries:
      "connected e \<Longrightarrow> \<not> known e d \<Longrightarrow> be_get_queue_entries b d q l a e s = (Inl (DeviceNotFoundError d), s)"
    and unknown_completions:
      "connected e \<Longrightarrow> \<not> known e d \<Longrightarrow> be_get_completion_entries b d q l a e s = (Inl (DeviceNotFoundError d), s)"
    and unknown_prp:
      "connected e \<Longrightarrow> \<not> known e d \<Longrightarrow> be_get_prp_payload b d q c e s = (Inl (DeviceNotFoundError d), s)"
    and unknown_tree:
      "connected e \<Longrightarrow> \<not> known e d \<Longrightarrow> be_get_tree_node b d p e s = (Inl (DeviceNotFoundError d), s)"
begin

lemmas unknown = unknown_snapshot unknown_entries unknown_completions unknown_prp unknown_tree

lemma unknown_device:
  assumes "connected e" "\<not> known e d"
  shows "GetDeviceSnapshot new b d e s = (Abort NOT_FOUND (device_text d), s)"
    "GetQueueEntries new b d q l a e s = (Abort NOT_FOUND (device_text d), s)"
    "GetCompletionEntries new b d q l a e s = (Abort NOT_FOUND (device_text d), s)"
    "GetPrpPayload new b d q c e s = (Abort NOT_FOUND (device_text d), s)"
    "GetTreeNode new b d p e s = (Abort NOT_FOUND (device_text d), s)"
  using unknown [OF assms]
  by (simp_all add: GetDeviceSnapshot_def GetQueueEntries_def GetCompletionEntries_def GetPrpPayload_def GetTreeNode_def)

lemma unknown_stream:
  assumes "connected e" "\<not> known e d"
  shows "StreamDeviceMetrics new b d i (e # es) s = ([], Aborted NOT_FOUND (device_text d), s)"
  using unknown_device(1) [OF assms] by (simp add: StreamDeviceMetrics_def)

end

section \<open>The drgn backend\<close>

definition drgn_connected :: "'o drgn_env \<Rightarrow> bool" where
  "drgn_connected e \<longleftrightarrow> \<not> isl (for_each_disk (de_kernel e))"

definition drgn_known :: "'o drgn_env \<Rightarrow> pystr \<Rightarrow> bool" where
  "drgn_known e d \<longleftrightarrow>
     (case instance_of d of Inl _ \<Rightarrow> False | Inr i \<Rightarrow> find_any_namespace_disk (de_kernel e) i \<noteq> Inr None)"

lemma drgn_unknown_lookup:
  assumes "drgn_connected e" "\<not> drgn_known e d"
  shows "lookup_device (de_kernel e) d = Inl (DeviceNotFoundError d)" "kn_program (de_kernel e) = Inr ()"
proof -
  show "kn_program (de_kernel e) = Inr ()"
    using assms(1) by (cases "kn_program (de_kernel e)") (auto simp: drgn_connected_def for_each_disk_def)
  show "lookup_device (de_kernel e) d = Inl (DeviceNotFoundError d)"
  proof (cases "instance_of d")
    case (Inl x)
    then have "x = DeviceNotFoundError d" by (auto simp: instance_of_def split: option.splits list.splits capture.splits)
    with Inl show ?thesis by (simp add: lookup_device_def)
  next
    case (Inr i)
    with assms(2) show ?thesis by (simp add: drgn_known_def lookup_device_def)
  qed
qed

interpretation drgn_lookup: device_lookup drgn_backend drgn_connected drgn_known
  by unfold_locales
    (simp_all add: drgn_backend_def reads_def get_device_snapshot_def get_queue_entries_def get_completion_entries_def
      get_prp_payload_def get_tree_node_def drgn_unknown_lookup)

section \<open>The mock backend\<close>

lemma mock_unknown: "d \<notin> set mock_list_devices \<Longrightarrow> topology_of d = Inl (DeviceNotFoundError d)"
  by (auto simp: mock_list_devices_def topology_of_def TOPOLOGY_def)

lemma mock_known: "d \<in> set mock_list_devices \<Longrightarrow> \<exists>t. topology_of d = Inr t"
  by (auto simp: mock_list_devices_def topology_of_def TOPOLOGY_def)

lemma queue_topology_unknown: "d \<notin> set mock_list_devices \<Longrightarrow> queue_topology d q = Inl (DeviceNotFoundError d)"
  by (simp add: queue_topology_def mock_unknown)

lemmas mock_methods = mock_backend_def reads_def mock_get_device_snapshot_def mock_get_queue_entries_def
  mock_get_completion_entries_def mock_get_prp_payload_def mock_get_tree_node_def

interpretation mock_lookup: device_lookup mock_backend "\<lambda>_. True" "\<lambda>_ d. d \<in> set mock_list_devices"
  by unfold_locales (simp_all add: mock_methods queue_topology_unknown mock_unknown)

subsection \<open>Synthetic values are in range\<close>

lemma mock_sizes:
  "topology_of d = Inr t \<Longrightarrow> 0 < md_depth t \<and> md_depth t \<le> 128 \<and> 0 < md_online_queues t \<and> md_online_queues t \<le> 3"
  by (auto simp: topology_of_def TOPOLOGY_def split: if_splits option.splits)

lemma small_int32: "- 1000000 \<le> v \<Longrightarrow> v \<le> 1000000 \<Longrightarrow> in_range Int32 v"
  by simp

lemma mod_int32: "0 < n \<Longrightarrow> n \<le> 128 \<Longrightarrow> in_range Int32 (v mod n)"
proof -
  assume n: "0 < n" "n \<le> 128"
  then have "0 \<le> v mod n" "v mod n < n" by simp_all
  with n show ?thesis by (intro small_int32) linarith+
qed

lemma mod_max_int32:
  fixes k :: int
  assumes "0 < n" "n \<le> 128" "0 < k"
  shows "in_range Int32 (v mod max 1 (n div k))"
proof -
  have "n div k \<le> n" using zdiv_mono2 [of n 1 k] assms by simp
  with assms show ?thesis by (intro mod_int32) auto
qed

lemma mock_queue_in_range:
  assumes "topology_of d = Inr t" "0 \<le> i" "i < md_online_queues t"
  shows "queue_in_range (mock_queue sha d (md_depth t) k i)"
  using mock_sizes [OF assms(1)] assms(2,3)
  by (simp add: queue_in_range_def mock_queue_def queue_dynamics_at_def Let_def small_int32 mod_int32 mod_max_int32
      del: in_range.simps)

lemma mock_snapshot_in_range:
  assumes "topology_of d = Inr t" "mock_get_device_snapshot sha clock d = Inr s"
  shows "device_in_range s"
  using assms mock_sizes [OF assms(1)]
  by (auto simp: mock_get_device_snapshot_def device_in_range_def list_all_iff small_int32 mock_queue_in_range
      simp del: in_range.simps)

lemma mock_dump_indices_range:
  assumes "0 < n" "n \<le> 128" "i \<in> set (mock_dump_indices k n limit around)"
  shows "0 \<le> i \<and> i < n"
  using assms by (auto simp: mock_dump_indices_def mock_window_indices_def Let_def split: if_splits)

lemma and_mask_range: "0 \<le> v AND m \<and> v AND m \<le> m" if "0 \<le> m" for v m :: int
  using that AND_upper2 [of m v] by (simp add: and_nonnegative_int_iff)

lemma and_int32: "0 \<le> m \<Longrightarrow> m \<le> 1000000 \<Longrightarrow> in_range Int32 (v AND m)"
  using and_mask_range [of m v] by (intro small_int32) linarith+

lemma and_uint32: "in_range UInt32 (v AND 0xFFFFFFFF)"
  using and_mask_range [of "0xFFFFFFFF" v] by auto

lemma opcodes_small: "\<forall>c \<in> fst ` set (ADM_OPC @ NVM_OPC). 0 \<le> c \<and> c \<le> 255" "ADM_OPC \<noteq> []" "NVM_OPC \<noteq> []"
  by (simp_all add: ADM_OPC_def NVM_OPC_def)

lemma nth_mod_set: "xs \<noteq> [] \<Longrightarrow> xs ! nat (i mod int (length xs)) \<in> set xs"
  by (rule nth_mem) (simp add: nat_less_iff)

lemma synthetic_opcode:
  "0 \<le> qe_opcode (synthetic_entry sha d q i) \<and> qe_opcode (synthetic_entry sha d q i) \<le> 255"
proof -
  let ?l = "map fst (if q = 0 then ADM_OPC else NVM_OPC)"
  have "?l ! nat (i mod int (length ?l)) \<in> set ?l" by (rule nth_mod_set) (simp add: opcodes_small)
  then have "?l ! nat (i mod int (length ?l)) \<in> fst ` set (ADM_OPC @ NVM_OPC)" by (auto split: if_splits)
  with opcodes_small(1) show ?thesis by (simp only: synthetic_entry_def Let_def QueueEntry.select_convs)
qed

lemma synthetic_cdw12:
  "0 \<le> qe_cdw12 (synthetic_entry sha d q i) \<and> qe_cdw12 (synthetic_entry sha d q i) \<le> 0xFFFF"
  using and_mask_range [of "0xFFFF" "i mod 8 + 1"] by (simp add: synthetic_entry_def Let_def)

lemma synthetic_entry_in_range:
  assumes "0 \<le> i" "i < 128"
  shows "entry_in_range (synthetic_entry sha d q i)"
proof -
  have "0 \<le> (i * 37) AND 0xFFFFFFFF \<and> (i * 37) AND 0xFFFFFFFF \<le> 0xFFFFFFFF" by (rule and_mask_range) simp
  moreover have "in_range Int32 (qe_opcode (synthetic_entry sha d q i))"
    using synthetic_opcode [of sha d q i] by (intro small_int32) auto
  moreover have "in_range UInt32 (qe_cdw12 (synthetic_entry sha d q i))"
    using synthetic_cdw12 [of sha d q i] by simp
  moreover have "qe_cdw10 (synthetic_entry sha d q i) = (i * 37) AND 0xFFFFFFFF"
    "qe_index (synthetic_entry sha d q i) = i" "qe_cid (synthetic_entry sha d q i) = i"
    "qe_flags (synthetic_entry sha d q i) \<in> {0x40, 0}" "qe_nsid (synthetic_entry sha d q i) = 1"
    "qe_cdw2 (synthetic_entry sha d q i) = 0" "qe_cdw3 (synthetic_entry sha d q i) = 0"
    "qe_cdw11 (synthetic_entry sha d q i) = 0" "qe_cdw13 (synthetic_entry sha d q i) = 0"
    "qe_cdw14 (synthetic_entry sha d q i) = 0" "qe_cdw15 (synthetic_entry sha d q i) = 0"
    by (simp_all add: synthetic_entry_def Let_def)
  ultimately show ?thesis using assms by (auto simp: entry_in_range_def)
qed

lemma synthetic_completion_in_range:
  assumes "0 \<le> i" "i < n" "n \<le> 128" "0 \<le> q" "q < 128"
  shows "completion_in_range (synthetic_completion sha d q n i)"
proof -
  have "in_range Int32 ((i + 1) mod n)" "in_range Int32 i" "in_range Int32 q"
    using assms by (auto intro: mod_int32 small_int32 simp del: in_range.simps)
  then show ?thesis
    unfolding completion_in_range_def synthetic_completion_def Let_def CompletionEntry.select_convs list.pred_inject
    by (intro conjI and_int32 and_uint32 TrueI) (simp_all del: in_range.simps)
qed

lemma mock_pages_in_range: "pg \<in> set (mock_pages p1 p2 n) \<Longrightarrow> page_in_range pg"
proof -
  have more: "list_all page_in_range (more_pages p r s js)" for p r s js
    by (induction p r s js rule: more_pages.induct) (auto simp: synthetic_page_def page_in_range_def Let_def)
  have "in_range Int32 (p1 AND (PAGE_SIZE - 1))" by (rule and_int32) (simp_all add: PAGE_SIZE_def)
  then have "list_all page_in_range (mock_pages p1 p2 n)"
    using more small_int32 [of 0]
    by (simp add: mock_pages_def synthetic_page_def page_in_range_def Let_def del: in_range.simps)
  then show "pg \<in> set (mock_pages p1 p2 n) \<Longrightarrow> page_in_range pg" by (simp add: list_all_iff)
qed

lemma mock_payload_in_range:
  assumes "mock_get_prp_payload sha d q c = Inr p" "in_range Int32 q" "in_range Int32 c"
  shows "payload_in_range p"
proof -
  have "0 \<le> v AND 0xFFFF \<and> v AND 0xFFFF \<le> 0xFFFF" for v :: int by (rule and_mask_range) simp
  then have len: "in_range Int64 (((v AND 0xFFFF) + 1) * 512)" for v :: int by simp
  have "in_range Int64 0" by simp
  with len show ?thesis
    using assms by (auto simp: mock_get_prp_payload_def payload_in_range_def bindE_Inr Let_def list_all_iff
      mock_pages_in_range simp del: in_range.simps split: if_splits)
qed

subsection \<open>The answers of the mock server\<close>

lemma mock_snapshot_reply:
  assumes "runtime new" "d \<in> set mock_list_devices"
  shows "\<exists>m. GetDeviceSnapshot new mock_backend d e w = (Reply m, w)"
proof -
  obtain t where t: "topology_of d = Inr t" using mock_known [OF assms(2)] by blast
  then obtain s where s: "mock_get_device_snapshot (me_sha e) (me_clock e) d = Inr s"
    by (simp add: mock_get_device_snapshot_def)
  with device_converts [OF assms(1)] mock_snapshot_in_range [OF t s]
  obtain m where "device_to_pb new s = Inr m" by blast
  with s show ?thesis by (simp add: GetDeviceSnapshot_def mock_backend_def reads_def)
qed

lemma entry_msg: "runtime new \<Longrightarrow> entry_in_range e \<Longrightarrow> \<exists>kw. entry_to_pb new e = Inr (VMsg M_QueueEntry kw)"
  using entry_converts [of new e] by (auto simp: entry_to_pb_def runtime_Inr)

lemma completion_msg:
  "runtime new \<Longrightarrow> completion_in_range c \<Longrightarrow> \<exists>kw. completion_to_pb new c = Inr (VMsg M_CompletionEntry kw)"
  using completion_converts [of new c] by (auto simp: completion_to_pb_def runtime_Inr)

lemma device_qid_fit:
  assumes "in_range Int32 q"
  shows "list_all (fits_field M_QueueEntriesReply) [(''device'', str d), (''qid'', VInt q)]"
    "list_all (fits_field M_CompletionEntriesReply) [(''device'', str d), (''qid'', VInt q)]"
  using assms by (simp_all add: fits_field_def str_def del: in_range.simps)

lemma queue_topology_iff:
  "queue_topology d q = Inr t \<longleftrightarrow> topology_of d = Inr t \<and> 0 \<le> q \<and> q < md_online_queues t"
  by (auto simp: queue_topology_def bindE_Inr)

lemma queue_int32: "queue_topology d q = Inr t \<Longrightarrow> in_range Int32 q"
  using mock_sizes [of d t] by (intro small_int32) (auto simp: queue_topology_iff)

lemma mock_ring:
  assumes "queue_topology d q = Inr t" "i \<in> set (mock_dump_indices k (md_depth t) l a)"
  shows "0 \<le> i \<and> i < md_depth t \<and> md_depth t \<le> 128 \<and> 0 \<le> q \<and> q < 128"
  using mock_sizes [of d t] mock_dump_indices_range [OF _ _ assms(2)] assms(1) by (auto simp: queue_topology_iff)

lemma mock_entries_reply:
  assumes rt: "runtime new" and found: "queue_topology d q = Inr t"
  shows "\<exists>m. GetQueueEntries new mock_backend d q l a e w = (Reply m, w)"
proof -
  have "\<exists>m. reply (list_reply new M_QueueEntriesReply [(''device'', str d), (''qid'', VInt q)] ''entries'' (entry_to_pb new)
      (map (synthetic_entry (me_sha e) d q) (mock_dump_indices k (md_depth t) l a))) = Reply m" for k
  proof (rule list_reply_total [where n' = M_QueueEntry, OF rt _ device_qid_fit(1) [OF queue_int32 [OF found]]])
    fix x assume "x \<in> set (map (synthetic_entry (me_sha e) d q) (mock_dump_indices k (md_depth t) l a))"
    then have "entry_in_range x" using mock_ring [OF found] by (fastforce intro: synthetic_entry_in_range)
    then show "\<exists>kw. entry_to_pb new x = Inr (VMsg M_QueueEntry kw)" by (rule entry_msg [OF rt])
  qed simp
  then show ?thesis
    by (simp add: GetQueueEntries_def mock_backend_def reads_def mock_get_queue_entries_def found)
qed

lemma mock_completions_reply:
  assumes rt: "runtime new" and found: "queue_topology d q = Inr t"
  shows "\<exists>m. GetCompletionEntries new mock_backend d q l a e w = (Reply m, w)"
proof -
  have "\<exists>m. reply (list_reply new M_CompletionEntriesReply [(''device'', str d), (''qid'', VInt q)] ''entries''
      (completion_to_pb new)
      (map (synthetic_completion (me_sha e) d q (md_depth t)) (mock_dump_indices k (md_depth t) l a))) = Reply m" for k
  proof (rule list_reply_total [where n' = M_CompletionEntry, OF rt _ device_qid_fit(2) [OF queue_int32 [OF found]]])
    fix x assume "x \<in> set (map (synthetic_completion (me_sha e) d q (md_depth t)) (mock_dump_indices k (md_depth t) l a))"
    then have "completion_in_range x" using mock_ring [OF found] by (fastforce intro: synthetic_completion_in_range)
    then show "\<exists>kw. completion_to_pb new x = Inr (VMsg M_CompletionEntry kw)" by (rule completion_msg [OF rt])
  qed simp
  then show ?thesis
    by (simp add: GetCompletionEntries_def mock_backend_def reads_def mock_get_completion_entries_def found)
qed

lemma mock_payload_reply:
  assumes rt: "runtime new" and found: "queue_topology d q = Inr t" and c: "in_range Int32 c"
  shows "\<exists>m. GetPrpPayload new mock_backend d q c e w = (Reply m, w)"
proof -
  obtain p where p: "mock_get_prp_payload (me_sha e) d q c = Inr p"
    unfolding mock_get_prp_payload_def found bindE_simps Let_def by (atomize_elim) (auto split: if_split)
  obtain m where "prp_to_pb new p = Inr m"
    using payload_converts [OF rt] mock_payload_in_range [OF p queue_int32 [OF found] c] by blast
  with p show ?thesis by (simp add: GetPrpPayload_def mock_backend_def reads_def)
qed

lemma mock_queue_missing:
  assumes "topology_of d = Inr t" "\<not> (0 \<le> q \<and> q < md_online_queues t)"
  shows "GetQueueEntries new mock_backend d q l a e w = (Abort NOT_FOUND (qid_text q), w)"
    "GetCompletionEntries new mock_backend d q l a e w = (Abort NOT_FOUND (qid_text q), w)"
    "GetPrpPayload new mock_backend d q c e w = (Abort NOT_FOUND (qid_text q), w)"
proof -
  have "queue_topology d q = Inl (QueueNotFoundError q)" using assms by (simp add: queue_topology_def)
  then show "GetQueueEntries new mock_backend d q l a e w = (Abort NOT_FOUND (qid_text q), w)"
    "GetCompletionEntries new mock_backend d q l a e w = (Abort NOT_FOUND (qid_text q), w)"
    "GetPrpPayload new mock_backend d q c e w = (Abort NOT_FOUND (qid_text q), w)"
    by (simp_all add: GetQueueEntries_def GetCompletionEntries_def GetPrpPayload_def mock_methods)
qed

text \<open>
  What a client of the queue family sees: the device and the queue are looked up in this order, and each lookup
  that fails is the \<open>NOT_FOUND\<close> that names it.
\<close>

definition queue_answer :: "pystr \<Rightarrow> int \<Rightarrow> rpc \<Rightarrow> bool" where
  "queue_answer d q r =
     (case topology_of d of
        Inl _ \<Rightarrow> r = Abort NOT_FOUND (device_text d)
      | Inr t \<Rightarrow>
          if 0 \<le> q \<and> q < md_online_queues t then (case r of Reply _ \<Rightarrow> True | _ \<Rightarrow> False)
          else r = Abort NOT_FOUND (qid_text q))"

lemma mock_queue_rpc:
  assumes "runtime new" "in_range Int32 c"
  shows "queue_answer d q (fst (GetQueueEntries new mock_backend d q l a e w))"
    "queue_answer d q (fst (GetCompletionEntries new mock_backend d q l a e w))"
    "queue_answer d q (fst (GetPrpPayload new mock_backend d q c e w))"
proof -
  consider "d \<notin> set mock_list_devices"
    | t where "topology_of d = Inr t" "\<not> (0 \<le> q \<and> q < md_online_queues t)"
    | t where "queue_topology d q = Inr t" "topology_of d = Inr t" "0 \<le> q" "q < md_online_queues t"
    using mock_known queue_topology_iff by metis
  then have "queue_answer d q (fst (GetQueueEntries new mock_backend d q l a e w)) \<and>
    queue_answer d q (fst (GetCompletionEntries new mock_backend d q l a e w)) \<and>
    queue_answer d q (fst (GetPrpPayload new mock_backend d q c e w))"
  proof cases
    case 1
    with mock_lookup.unknown_device [OF TrueI this] mock_unknown [OF this] show ?thesis by (simp add: queue_answer_def)
  next
    case 2
    with mock_queue_missing [OF 2] show ?thesis by (simp add: queue_answer_def)
  next
    case 3
    with mock_entries_reply [OF assms(1) 3(1), of l a e w] mock_completions_reply [OF assms(1) 3(1), of l a e w]
      mock_payload_reply [OF assms(1) 3(1) assms(2), of e w]
    show ?thesis by (auto simp: queue_answer_def)
  qed
  then show "queue_answer d q (fst (GetQueueEntries new mock_backend d q l a e w))"
    "queue_answer d q (fst (GetCompletionEntries new mock_backend d q l a e w))"
    "queue_answer d q (fst (GetPrpPayload new mock_backend d q c e w))" by blast+
qed

lemma mock_performance_range:
  assumes "mock_performance now d = Inr p"
  shows "perf_in_range p"
proof -
  from assms obtain t where t: "topology_of d = Inr t"
    and p: "p = mock_get_performance (\<lambda>_. md_online_queues t) (tick now) d"
    by (auto simp: mock_performance_def bindE_Inr)
  then show ?thesis
    using mock_sizes [OF t] small_int32 [of "- 1"]
    by (auto simp: perf_in_range_def mock_get_performance_def Let_def mock_queue_perf_def list_all_iff
        simp del: in_range.simps intro: small_int32)
qed

lemma mock_monitoring_reply:
  assumes "runtime new" "d \<in> set mock_list_devices"
  shows "\<exists>m. GetPerformance new mock_backend d e w = (Reply m, w)"
    "\<exists>m. GetEvents new mock_backend d e w = (Reply m, w)"
    "\<exists>m. GetErrorStats new mock_backend d e w = (Reply m, w)"
proof -
  obtain t where t: "topology_of d = Inr t" using mock_known [OF assms(2)] by blast
  then obtain p where p: "mock_performance (me_now e) d = Inr p" by (simp add: mock_performance_def)
  show "\<exists>m. GetPerformance new mock_backend d e w = (Reply m, w)"
    using reply_total [OF device_perf_total [OF assms(1) mock_performance_range [OF p]]] p
    by (simp add: GetPerformance_def mock_backend_def reads_def)
  have "\<exists>m. reply (list_reply new M_EventsReply [(''device'', str d)] ''events'' (nvme_event_to_pb new) []) = Reply m"
    by (rule list_reply_total [where n' = M_NvmeEvent, OF assms(1)]) (simp_all add: fits_field_def str_def)
  then show "\<exists>m. GetEvents new mock_backend d e w = (Reply m, w)"
    by (simp add: GetEvents_def mock_backend_def reads_def mock_events_def t mock_get_events_def)
  have "\<exists>m. error_stats_to_pb new (mock_get_error_stats d) = Inr m"
    by (simp add: error_stats_to_pb_def mock_get_error_stats_def runtime_Inr [OF assms(1)] fits_field_def field_values)
  from reply_total [OF this] show "\<exists>m. GetErrorStats new mock_backend d e w = (Reply m, w)"
    by (simp add: GetErrorStats_def mock_backend_def reads_def mock_error_stats_def t)
qed

lemma mock_monitoring_unknown:
  assumes "d \<notin> set mock_list_devices"
  shows "GetPerformance new mock_backend d e w = (Raised (DeviceNotFoundError d), w)"
    "GetEvents new mock_backend d e w = (Raised (DeviceNotFoundError d), w)"
    "GetErrorStats new mock_backend d e w = (Raised (DeviceNotFoundError d), w)"
  using mock_unknown [OF assms]
  by (simp_all add: GetPerformance_def GetEvents_def GetErrorStats_def mock_backend_def reads_def mock_performance_def
      mock_events_def mock_error_stats_def)

section \<open>Properties\<close>

text \<open>
  C18: a missing device is \<open>NOT_FOUND\<close>.  When the drgn backend can reach the kernel but no disk belongs to the named
  controller, or the name is not a controller name, each of the five handlers of the queue family aborts with
  \<open>NOT_FOUND\<close> and the device in the text, the stream of snapshots ends the same way without sending
  anything, and the state of the daemon is unchanged.
\<close>

theorem missing_device_not_found:
  assumes "drgn_connected e" and "\<not> drgn_known e d"
  shows "GetDeviceSnapshot new drgn_backend d e w = (Abort NOT_FOUND (device_text d), w) \<and>
    GetQueueEntries new drgn_backend d q l a e w = (Abort NOT_FOUND (device_text d), w) \<and>
    GetCompletionEntries new drgn_backend d q l a e w = (Abort NOT_FOUND (device_text d), w) \<and>
    GetPrpPayload new drgn_backend d q c e w = (Abort NOT_FOUND (device_text d), w) \<and>
    GetTreeNode new drgn_backend d p e w = (Abort NOT_FOUND (device_text d), w) \<and>
    StreamDeviceMetrics new drgn_backend d i (e # es) w = ([], Aborted NOT_FOUND (device_text d), w)"
  using drgn_lookup.unknown_device [OF assms] drgn_lookup.unknown_stream [OF assms] by simp

text \<open>
  C17: the mock server always answers a queue request.  For every device name, queue number, window and
  command id that fit their request fields, the dump of the submission ring, of the completion ring
  and the PRP payload answer with a reply when the device and the queue exist, and otherwise with the
  \<open>NOT_FOUND\<close> that names what is missing; no value of the synthetic data is out of range of its field.
\<close>

theorem mock_queue_answers:
  assumes "runtime new" and "in_range Int32 c"
  shows "queue_answer d q (fst (GetQueueEntries new mock_backend d q l a e w)) \<and>
    queue_answer d q (fst (GetCompletionEntries new mock_backend d q l a e w)) \<and>
    queue_answer d q (fst (GetPrpPayload new mock_backend d q c e w))"
  using mock_queue_rpc [OF assms] by blast

text \<open>
  Performance and events do not report a missing device as such.  On the mock backend the three monitoring
  handlers reply for every listed device, but for any other name \<open>DeviceNotFoundError\<close> leaves the
  handler, so that the client does not get the \<open>NOT_FOUND\<close> the queue handlers give for the same name.
\<close>

theorem mock_monitoring_answers:
  assumes "runtime new"
  shows "if d \<in> set mock_list_devices
    then (\<exists>m. GetPerformance new mock_backend d e w = (Reply m, w)) \<and>
      (\<exists>m. GetEvents new mock_backend d e w = (Reply m, w)) \<and> (\<exists>m. GetErrorStats new mock_backend d e w = (Reply m, w))
    else GetDeviceSnapshot new mock_backend d e w = (Abort NOT_FOUND (device_text d), w) \<and>
      GetPerformance new mock_backend d e w = (Raised (DeviceNotFoundError d), w) \<and>
      GetEvents new mock_backend d e w = (Raised (DeviceNotFoundError d), w) \<and>
      GetErrorStats new mock_backend d e w = (Raised (DeviceNotFoundError d), w)"
  using mock_monitoring_reply [OF assms] mock_monitoring_unknown mock_lookup.unknown_device(1) by simp

text \<open>
  C31: one process can hide all others.  The user id of a process is an unsigned 32-bit number in the kernel and a
  signed 32-bit field in the message.  The process list converts exactly when every entry fits, so a single
  process with a user id from \<open>2 ^ 31\<close> on makes the whole call fail, whatever the other entries are.
\<close>

theorem large_uid_fails_listing:
  assumes "runtime new" and "be_list_processes b only_io e s = (Inr ps, s')"
    and "p \<in> set ps" and "2 ^ 31 \<le> pi_uid (le_info p)"
  shows "\<exists>x. ListProcesses new b only_io e s = (Raised x, s')"
proof -
  have "\<not> info_in_range (le_info p)" using assms(4) by (simp add: info_in_range_def)
  then have "\<nexists>ms. mapE (process_entry_to_pb new) ps = Inr ms"
    using process_entries_convert [OF assms(1)] assms(3) by blast
  then have "\<nexists>m. list_reply new M_ProcessListReply [] ''processes'' (process_entry_to_pb new) ps = Inr m"
    by (auto simp: list_reply_def bindE_Inr)
  from reply_isl [OF this] show ?thesis using assms(2) by (auto simp: ListProcesses_def)
qed

section \<open>Concrete calls\<close>

lemma sample_missing:
  "drgn_connected (e\<lparr>de_kernel := sample_kernel\<rparr>)" "\<not> drgn_known (e\<lparr>de_kernel := sample_kernel\<rparr>) ''nvme7''"
proof -
  have "instance_of ''nvme7'' = Inr 7" "disk_ids ''nvme0n1'' = Some (0, 1)" by code_simp+
  then show "drgn_connected (e\<lparr>de_kernel := sample_kernel\<rparr>)" "\<not> drgn_known (e\<lparr>de_kernel := sample_kernel\<rparr>) ''nvme7''"
    by (simp_all add: drgn_connected_def drgn_known_def find_any_namespace_disk_def for_each_disk_def sample_kernel_def
        better_disk_def sample_disk_def)
qed

theorem missing_device_not_found_witness:
  "\<forall>(e :: nat drgn_env) w. GetPrpPayload checked_new drgn_backend ''nvme7'' 1 0 (e\<lparr>de_kernel := sample_kernel\<rparr>) w =
     (Abort NOT_FOUND (MsgRaw ''device not found: nvme7''), w)"
proof (intro allI)
  fix e :: "nat drgn_env" and w
  show "GetPrpPayload checked_new drgn_backend ''nvme7'' 1 0 (e\<lparr>de_kernel := sample_kernel\<rparr>) w =
      (Abort NOT_FOUND (MsgRaw ''device not found: nvme7''), w)"
    using missing_device_not_found [OF sample_missing [of e], where w = w] by (simp add: device_text_def)
qed

theorem mock_queue_answers_witness:
  "\<forall>e w. queue_answer ''nvme1'' 1 (fst (GetPrpPayload checked_new mock_backend ''nvme1'' 1 5 e w))"
  using mock_queue_answers [OF runtime_checked_new, of 5] by simp

theorem mock_monitoring_answers_witness:
  "\<forall>e w. GetEvents checked_new mock_backend ''nvme7'' e w = (Raised (DeviceNotFoundError ''nvme7''), w)"
  using mock_monitoring_answers [OF runtime_checked_new, of "''nvme7''"] by (simp add: mock_list_devices_def TOPOLOGY_def)

definition nobody :: ProcessInfo where
  "nobody = (mock_processes ! 0)\<lparr>pi_uid := 0xFFFFFFFE\<rparr>"

definition uid_env :: profiler_env where
  "uid_env = sample_profiler_env\<lparr>pe_listing := Inr [mock_processes ! 1, nobody]\<rparr>"

lemma process_list_has:
  "pr \<in> set procs \<Longrightarrow> \<exists>p \<in> set (process_list search rules procs stats False). le_info p = pr"
proof -
  assume pr: "pr \<in> set procs"
  let ?p = "process_entry search rules (io_by_pid stats) pr"
  have "?p \<in> set (process_list search rules procs stats False)" using pr by (simp add: process_list_def Let_def)
  moreover have "le_info ?p = pr" by (simp add: process_entry_def Let_def)
  ultimately show ?thesis by blast
qed

theorem large_uid_fails_listing_witness:
  "\<forall>e :: nat drgn_env. \<exists>x. fst (ListProcesses checked_new drgn_backend False (e\<lparr>de_profiler := uid_env\<rparr>)
     (new_drgn_world None None)) = Raised x"
proof
  fix e :: "nat drgn_env"
  have "fst (list_processes uid_env False (new_profiler_world NullEbpfLogSource None)) =
      Inr (process_list (rf_search (pe_refresh uid_env)) [] [mock_processes ! 1, nobody]
        (service_process_stats uid_env (new_profiler NullEbpfLogSource)) False)"
    by (simp add: list_processes_def proc_infos_def get_or_compute_def live_value_def new_profiler_world_def uid_env_def
        new_cache_def new_profiler_def sample_profiler_env_def registry_def load_def empty_registry_def Let_def)
  then have "\<exists>es. fst (list_processes uid_env False (new_profiler_world NullEbpfLogSource None)) = Inr es \<and>
      (\<exists>p \<in> set es. le_info p = nobody)"
    using process_list_has [of nobody "[mock_processes ! 1, nobody]"] by simp
  then obtain es w p where l: "list_processes uid_env False (new_profiler_world NullEbpfLogSource None) = (Inr es, w)"
    and p: "p \<in> set es" "le_info p = nobody"
    by (metis prod.collapse)
  have b: "be_list_processes drgn_backend False (e\<lparr>de_profiler := uid_env\<rparr>) (new_drgn_world None None) =
      (Inr es, (new_drgn_world None None)\<lparr>dw_profiler := w\<rparr>)"
    by (simp add: drgn_backend_def on_profiler_def new_drgn_world_def log_arg_def l)
  have "2 ^ 31 \<le> pi_uid (le_info p)" by (simp add: p(2) nobody_def)
  with large_uid_fails_listing [OF runtime_checked_new b p(1)]
  show "\<exists>x. fst (ListProcesses checked_new drgn_backend False (e\<lparr>de_profiler := uid_env\<rparr>) (new_drgn_world None None)) = Raised x"
    by auto
qed

end
