(* ===== verification/WebRelay.thy ===== *)
theory WebRelay
  imports "HOL-Library.Sublist"
begin

text \<open>
  \<open>_stream_ws\<close> and \<open>_watch_disconnect\<close> of \<open>web/app.py\<close>: one WebSocket that relays the items of a generator while a second
  task waits for the browser to go away.  The event loop may run the tasks in any order, so the handler is a
  step relation; a step is what happens between two suspension points.
\<close>

section \<open>States\<close>

text \<open>The generator, the task of its next item, and the task that watches the socket.\<close>

datatype gen_state = Suspended | Running | Finished | Closed

datatype 'a next_task = NoTask | Pending | Item 'a | Stop | Fail | Unwound

datatype watch_task = Watching | SawDisconnect | WatchStopped

datatype outcome = Returned | Propagated

datatype 'a pc = Loop | Waiting | Sending 'a | Unwinding | Finalising outcome | Closing outcome | Ended outcome

record 'a ws =
  produced :: "'a list"       \<comment> \<open>items the generator has yielded\<close>
  sent :: "'a list"           \<comment> \<open>items written to the socket\<close>
  gen :: gen_state
  next_item :: "'a next_task"
  watch :: watch_task
  pc :: "'a pc"
  killed :: bool              \<comment> \<open>the handler itself was cancelled\<close>
  close_failed :: bool        \<comment> \<open>\<open>aclose\<close> raised \<open>RuntimeError\<close>, which is swallowed\<close>

definition ws_start :: "'a ws" where
  "ws_start = \<lparr>produced = [], sent = [], gen = Suspended, next_item = NoTask, watch = Watching, pc = Loop,
     killed = False, close_failed = False\<rparr>"

section \<open>Steps\<close>

inductive ws_step :: "'a ws \<Rightarrow> 'a ws \<Rightarrow> bool" where
  \<comment> \<open>the loop: \<open>ensure_future(gen.__anext__())\<close>, then \<open>asyncio.wait\<close>\<close>
  next_started: "pc s = Loop \<Longrightarrow> ws_step s (s\<lparr>pc := Waiting, gen := Running, next_item := Pending\<rparr>)"
  \<comment> \<open>the generator runs\<close>
| yielded: "next_item s = Pending \<Longrightarrow> gen s = Running \<Longrightarrow>
    ws_step s (s\<lparr>gen := Suspended, next_item := Item x, produced := produced s @ [x]\<rparr>)"
| stopped: "next_item s = Pending \<Longrightarrow> gen s = Running \<Longrightarrow> ws_step s (s\<lparr>gen := Finished, next_item := Stop\<rparr>)"
| failed: "next_item s = Pending \<Longrightarrow> gen s = Running \<Longrightarrow> ws_step s (s\<lparr>gen := Finished, next_item := Fail\<rparr>)"
  \<comment> \<open>the browser goes away\<close>
| disconnected: "watch s = Watching \<Longrightarrow> ws_step s (s\<lparr>watch := SawDisconnect\<rparr>)"
  \<comment> \<open>\<open>wait\<close> returns: the disconnect is looked at first\<close>
| woke_disconnect: "pc s = Waiting \<Longrightarrow> watch s = SawDisconnect \<Longrightarrow> ws_step s (s\<lparr>pc := Unwinding\<rparr>)"
| woke_item: "pc s = Waiting \<Longrightarrow> watch s = Watching \<Longrightarrow> next_item s = Item x \<Longrightarrow> ws_step s (s\<lparr>pc := Sending x\<rparr>)"
| woke_stop: "pc s = Waiting \<Longrightarrow> watch s = Watching \<Longrightarrow> next_item s = Stop \<Longrightarrow> ws_step s (s\<lparr>pc := Finalising Returned\<rparr>)"
| woke_fail: "pc s = Waiting \<Longrightarrow> watch s = Watching \<Longrightarrow> next_item s = Fail \<Longrightarrow> ws_step s (s\<lparr>pc := Finalising Propagated\<rparr>)"
  \<comment> \<open>the cancelled task is awaited until the generator has let go\<close>
| unwound: "pc s = Unwinding \<Longrightarrow> next_item s = Pending \<Longrightarrow> ws_step s (s\<lparr>gen := Finished, next_item := Unwound\<rparr>)"
| unwinding_done: "pc s = Unwinding \<Longrightarrow> next_item s \<noteq> Pending \<Longrightarrow> ws_step s (s\<lparr>pc := Finalising Returned\<rparr>)"
  \<comment> \<open>\<open>send_json\<close>\<close>
| sent_item: "pc s = Sending x \<Longrightarrow> ws_step s (s\<lparr>pc := Loop, sent := sent s @ [x], next_item := NoTask\<rparr>)"
| send_disconnect: "pc s = Sending x \<Longrightarrow> ws_step s (s\<lparr>pc := Finalising Returned\<rparr>)"
| send_error: "pc s = Sending x \<Longrightarrow> ws_step s (s\<lparr>pc := Finalising Propagated\<rparr>)"
  \<comment> \<open>the \<open>finally\<close> block\<close>
| watch_cancelled: "pc s = Finalising r \<Longrightarrow> ws_step s (s\<lparr>watch := WatchStopped, pc := Closing r\<rparr>)"
| closed: "pc s = Closing r \<Longrightarrow> gen s \<noteq> Running \<Longrightarrow> ws_step s (s\<lparr>gen := Closed, pc := Ended r\<rparr>)"
| close_refused: "pc s = Closing r \<Longrightarrow> gen s = Running \<Longrightarrow> ws_step s (s\<lparr>close_failed := True, pc := Ended r\<rparr>)"
  \<comment> \<open>the server cancels the handler while it waits\<close>
| cancelled: "pc s = Waiting \<Longrightarrow> ws_step s (s\<lparr>killed := True, pc := Finalising Propagated\<rparr>)"

inductive ws_run :: "'a ws \<Rightarrow> bool" where
  ws_first: "ws_run ws_start"
| ws_more: "ws_run s \<Longrightarrow> ws_step s s' \<Longrightarrow> ws_run s'"

section \<open>Invariant\<close>

text \<open>Every item but the one being handled has been sent.\<close>

fun in_hand :: "'a pc \<Rightarrow> 'a next_task \<Rightarrow> 'a list \<Rightarrow> bool" where
  "in_hand Loop n ys \<longleftrightarrow> ys = [] \<and> n = NoTask"
| "in_hand Waiting n ys \<longleftrightarrow> (case n of NoTask \<Rightarrow> False | Item x \<Rightarrow> ys = [x] | Unwound \<Rightarrow> False | _ \<Rightarrow> ys = [])"
| "in_hand (Sending x) n ys \<longleftrightarrow> ys = [x] \<and> n = Item x"
| "in_hand p n ys \<longleftrightarrow> length ys \<le> 1 \<and> (n = Pending \<longrightarrow> ys = [])"

definition ws_inv :: "'a ws \<Rightarrow> bool" where
  "ws_inv s \<longleftrightarrow>
     (\<exists>ys. produced s = sent s @ ys \<and> in_hand (pc s) (next_item s) ys) \<and>
     (gen s = Running \<longleftrightarrow> next_item s = Pending) \<and>
     (gen s = Running \<longrightarrow> pc s \<in> {Waiting, Unwinding} \<or> killed s) \<and>
     (gen s = Closed \<longrightarrow> (\<exists>r. pc s = Ended r)) \<and>
     (killed s \<longrightarrow> (\<exists>r. pc s \<in> {Finalising r, Closing r, Ended r})) \<and>
     (watch s = WatchStopped \<longleftrightarrow> (\<exists>r. pc s \<in> {Closing r, Ended r})) \<and>
     (close_failed s \<longrightarrow> killed s) \<and>
     ((\<exists>r. pc s = Ended r) \<longrightarrow> gen s = Closed \<or> close_failed s)"

lemma ws_inv_start: "ws_inv ws_start"
  by (simp add: ws_inv_def ws_start_def)

lemma ws_inv_step: "ws_step s s' \<Longrightarrow> ws_inv s \<Longrightarrow> ws_inv s'"
proof (induction rule: ws_step.induct)
  case (woke_disconnect s)
  then show ?case by (cases "next_item s") (auto simp: ws_inv_def)
next
  case (cancelled s)
  then show ?case by (cases "next_item s") (auto simp: ws_inv_def)
qed (auto simp: ws_inv_def split: next_task.splits)

lemma ws_run_inv: "ws_run s \<Longrightarrow> ws_inv s"
  by (induction rule: ws_run.induct) (auto intro: ws_inv_start ws_inv_step)

section \<open>After the disconnect\<close>

text \<open>What is still to be done: a bound on the steps of all tasks together, and on the items.\<close>

fun pc_rank :: "'a pc \<Rightarrow> nat" where
  "pc_rank (Sending x) = 6"
| "pc_rank Loop = 5"
| "pc_rank Waiting = 4"
| "pc_rank Unwinding = 3"
| "pc_rank (Finalising r) = 2"
| "pc_rank (Closing r) = 1"
| "pc_rank (Ended r) = 0"

definition steps_left :: "'a ws \<Rightarrow> nat" where
  "steps_left s = 2 * pc_rank (pc s) + (if next_item s = Pending then 1 else 0)"

definition items_left :: "'a ws \<Rightarrow> nat" where
  "items_left s = length (sent s) + (case pc s of Sending x \<Rightarrow> 1 | _ \<Rightarrow> 0)"

lemma step_after_disconnect:
  assumes "ws_step s s'" "ws_inv s" "watch s \<noteq> Watching"
  shows "steps_left s' < steps_left s \<and> items_left s' \<le> items_left s \<and> watch s' \<noteq> Watching"
  using assms by (induction rule: ws_step.induct) (auto simp: steps_left_def items_left_def ws_inv_def)

lemma steps_after_disconnect:
  assumes "(ws_step ^^ n) s s'" "ws_inv s" "watch s \<noteq> Watching"
  shows "n + steps_left s' \<le> steps_left s \<and> items_left s' \<le> items_left s \<and> ws_inv s' \<and> watch s' \<noteq> Watching"
  using assms
proof (induction n arbitrary: s')
  case (Suc n)
  then obtain t where t: "(ws_step ^^ n) s t" "ws_step t s'" by auto
  with Suc step_after_disconnect [OF t(2)] ws_inv_step [OF t(2)] show ?case by fastforce
qed simp

lemma ws_progress:
  assumes "ws_inv s" "watch s \<noteq> Watching" "\<nexists>s'. ws_step s s'"
  shows "\<exists>r. pc s = Ended r"
proof (cases "pc s")
  case Waiting
  with assms(1,2) have "watch s = SawDisconnect" by (cases "watch s") (auto simp: ws_inv_def)
  with Waiting assms(3) show ?thesis using woke_disconnect by blast
qed (use assms(3) in \<open>blast intro: ws_step.intros\<close>)+

text \<open>
  C3: the relay sends what the generator gives, and never closes it too early.  In every state of the handler the
  items sent are those the generator has yielded, in order, all but at most the last; \<open>aclose\<close> is never refused
  because the generator is still running, unless the server cancelled the handler itself; and when the
  handler has ended, the watching task is stopped and the generator is closed.
\<close>

theorem relay_safe:
  assumes "ws_run s"
  shows "prefix (sent s) (produced s) \<and> length (produced s) \<le> length (sent s) + 1 \<and>
    (\<not> killed s \<longrightarrow> \<not> close_failed s) \<and>
    (\<forall>r. pc s = Ended r \<longrightarrow> watch s = WatchStopped \<and> (killed s \<or> gen s = Closed))"
proof -
  have inv: "ws_inv s" using ws_run_inv [OF assms] .
  then obtain ys where ys: "produced s = sent s @ ys" "in_hand (pc s) (next_item s) ys" by (auto simp: ws_inv_def)
  from ys(2) have "length ys \<le> 1" by (cases "pc s"; cases "next_item s") auto
  with inv ys(1) show ?thesis by (auto simp: ws_inv_def)
qed

text \<open>
  C4: a disconnect ends the relay.  From the moment the disconnect is seen, the tasks can take at most thirteen more
  steps, in whatever order they run, at most one more item is written, and when no task can go on the
  handler has ended; it cannot wait for an item that never comes.
\<close>

theorem relay_ends_after_disconnect:
  assumes "ws_run s" and "watch s = SawDisconnect" and "(ws_step ^^ n) s s'"
  shows "n \<le> 13 \<and> length (sent s') \<le> length (sent s) + 1 \<and> (\<exists>r s''. pc s' = Ended r \<or> ws_step s' s'')"
proof -
  have inv: "ws_inv s" using ws_run_inv [OF assms(1)] .
  note after = steps_after_disconnect [OF assms(3) inv]
  have "steps_left s \<le> 13" by (cases "pc s") (simp_all add: steps_left_def)
  moreover have "items_left s \<le> length (sent s) + 1" "length (sent s') \<le> items_left s'"
    by (simp_all add: items_left_def split: pc.split)
  ultimately show ?thesis using after assms(2) ws_progress [of s'] by fastforce
qed

section \<open>A concrete session\<close>

text \<open>One item is sent, then the browser leaves while the generator computes the next.\<close>

definition ws_sample :: "nat ws" where
  "ws_sample = \<lparr>produced = [7], sent = [7], gen = Running, next_item = Pending, watch = SawDisconnect, pc = Waiting,
     killed = False, close_failed = False\<rparr>"

lemma ws_sample_run: "ws_run ws_sample"
proof -
  note more = ws_more [rotated]
  have "ws_run (ws_start :: nat ws)" by (rule ws_first)
  from more [OF next_started this] have 1: "ws_run (ws_start\<lparr>pc := Waiting, gen := Running, next_item := Pending\<rparr> :: nat ws)"
    by (simp add: ws_start_def)
  from more [OF yielded this, of 7] have 2: "ws_run (ws_start\<lparr>pc := Waiting, next_item := Item 7, produced := [7]\<rparr> :: nat ws)"
    by (simp add: ws_start_def)
  from more [OF woke_item this, of 7] have 3: "ws_run (ws_start\<lparr>pc := Sending 7, next_item := Item 7, produced := [7]\<rparr> :: nat ws)"
    by (simp add: ws_start_def)
  from more [OF sent_item this, of 7] have 4: "ws_run (ws_start\<lparr>produced := [7], sent := [7]\<rparr> :: nat ws)"
    by (simp add: ws_start_def)
  from more [OF next_started this] have 5: "ws_run (ws_start\<lparr>produced := [7], sent := [7], pc := Waiting, gen := Running,
      next_item := Pending\<rparr> :: nat ws)" by (simp add: ws_start_def)
  from more [OF disconnected this] show ?thesis by (simp add: ws_start_def ws_sample_def)
qed

theorem relay_safe_witness: "prefix (sent ws_sample) (produced ws_sample) \<and> \<not> close_failed ws_sample"
  using relay_safe [OF ws_sample_run] by (simp add: ws_sample_def)

theorem relay_ends_after_disconnect_witness:
  "\<exists>s. (ws_step ^^ 1) ws_sample s \<and> length (sent s) \<le> 2"
proof -
  let ?s = "ws_sample\<lparr>pc := Unwinding\<rparr>"
  have "ws_step ws_sample ?s" by (rule woke_disconnect) (simp_all add: ws_sample_def)
  then have "(ws_step ^^ 1) ws_sample ?s" by auto
  moreover from relay_ends_after_disconnect [OF ws_sample_run _ this] have "length (sent ?s) \<le> 2"
    by (simp add: ws_sample_def)
  ultimately show ?thesis by blast
qed

end
