(* ===== verification/Web.thy ===== *)
theory Web
  imports ServerLaws WebRelay
begin

text \<open>
  \<open>grpcserver/client.py\<close> and the REST handlers of \<open>web/app.py\<close>: the web server calls the gRPC service and answers the
  browser with JSON.

  Two pieces are not part of the repository and are parameters: \<open>carry\<close>, how the gRPC framework delivers the outcome of a
  handler to the client, and \<open>to_dict\<close>, the JSON form that protobuf gives a message.
\<close>

section \<open>The client\<close>

datatype rpc_code = Code status_code | UNKNOWN | OTHER

record AioRpcError =
  rpc_code :: rpc_code
  rpc_details :: "message option"

type_synonym carry = "rpc \<Rightarrow> AioRpcError + wire"

text \<open>
  The documented delivery: a reply arrives as it is, an abort as its status and text, and an exception that left the
  handler as \<open>UNKNOWN\<close>.
\<close>

definition delivers :: "carry \<Rightarrow> bool" where
  "delivers carry \<longleftrightarrow>
     (\<forall>m. carry (Reply m) = Inr m) \<and>
     (\<forall>c t. carry (Abort c t) = Inl \<lparr>rpc_code = Code c, rpc_details = Some t\<rparr>) \<and>
     (\<forall>e. \<exists>t. carry (Raised e) = Inl \<lparr>rpc_code = UNKNOWN, rpc_details = t\<rparr>)"

text \<open>A client method: it builds the request, which may raise, and awaits the answer.\<close>

datatype client_result = Message wire | RpcError AioRpcError | ClientRaised exn

definition call_stub :: "carry \<Rightarrow> exn + wire \<Rightarrow> rpc \<times> 's \<Rightarrow> client_result" where
  "call_stub carry request answer =
     (case request of
        Inl e \<Rightarrow> ClientRaised e
      | Inr _ \<Rightarrow> (case carry (fst answer) of Inl err \<Rightarrow> RpcError err | Inr m \<Rightarrow> Message m))"

definition device_request :: "pb_new \<Rightarrow> pystr \<Rightarrow> exn + wire" where
  "device_request new device = new M_DeviceRequest [(''device'', str device)]"

definition queue_request :: "pb_new \<Rightarrow> pystr \<Rightarrow> int \<Rightarrow> int \<Rightarrow> bool \<Rightarrow> exn + wire" where
  "queue_request new device qid limit around_doorbell =
     new M_QueueRequest [(''device'', str device), (''qid'', VInt qid), (''limit'', VInt limit),
       (''around_doorbell'', VBool around_doorbell)]"

definition client_get_device_snapshot where
  "client_get_device_snapshot new carry b device e s =
     call_stub carry (device_request new device) (GetDeviceSnapshot new b device e s)"

definition client_get_queue_entries where
  "client_get_queue_entries new carry b device qid limit around e s =
     call_stub carry (queue_request new device qid limit around) (GetQueueEntries new b device qid limit around e s)"

definition client_get_completion_entries where
  "client_get_completion_entries new carry b device qid limit around e s =
     call_stub carry (queue_request new device qid limit around) (GetCompletionEntries new b device qid limit around e s)"

definition client_get_prp_payload where
  "client_get_prp_payload new carry b device qid cid e s =
     call_stub carry (new M_PrpRequest [(''device'', str device), (''qid'', VInt qid), (''cid'', VInt cid)])
       (GetPrpPayload new b device qid cid e s)"

definition client_get_tree_node where
  "client_get_tree_node new carry b device path e s =
     call_stub carry (new M_TreeNodeRequest [(''device'', str device), (''path'', VList (map str path))])
       (GetTreeNode new b device path e s)"

definition client_get_performance where
  "client_get_performance new carry b device e s =
     call_stub carry (device_request new device) (GetPerformance new b device e s)"

definition client_get_events where
  "client_get_events new carry b device e s = call_stub carry (device_request new device) (GetEvents new b device e s)"

definition client_get_error_stats where
  "client_get_error_stats new carry b device e s =
     call_stub carry (device_request new device) (GetErrorStats new b device e s)"

definition client_list_devices where
  "client_list_devices new carry b e s = call_stub carry (new M_Empty []) (ListDevices new b e s)"

definition client_list_processes where
  "client_list_processes new carry b only_io e s =
     call_stub carry (new M_ProcessListRequest [(''only_io'', VBool only_io)]) (ListProcesses new b only_io e s)"

definition client_list_targets where
  "client_list_targets new carry b e s = call_stub carry (new M_Empty []) (ListTargets new b e s)"

definition client_add_target where
  "client_add_target new carry b kind v adapter e s =
     call_stub carry (new M_TargetRuleMsg [(''kind'', str kind), (''value'', str v), (''adapter'', str adapter)])
       (AddTarget new b kind v adapter e s)"

definition client_remove_target where
  "client_remove_target new carry b kind v e s =
     call_stub carry (new M_TargetRuleMsg [(''kind'', str kind), (''value'', str v)]) (RemoveTarget new b kind v e s)"

definition client_get_profile where
  "client_get_profile new carry b e s = call_stub carry (new M_Empty []) (GetProfile new b e s)"

definition client_get_topology where
  "client_get_topology new carry b e s = call_stub carry (new M_Empty []) (GetTopology new b e s)"

definition client_list_event_kinds where
  "client_list_event_kinds new carry b e s = call_stub carry (new M_Empty []) (ListEventKinds new b e s)"

section \<open>REST\<close>

text \<open>
  An answer to the browser: JSON, an HTTP error, or an exception of the web server itself (status 500).  The detail of an
  error is the text of the status, or the name of its code.
\<close>

datatype detail = DetailText message | DetailCode rpc_code

datatype 'j http = Json 'j | HTTPException nat detail | ServerError exn

definition call_status :: "AioRpcError \<Rightarrow> nat" where
  "call_status err = (if rpc_code err = Code NOT_FOUND then 404 else 502)"

definition call_detail :: "AioRpcError \<Rightarrow> detail" where
  "call_detail err =
     (case rpc_details err of
        None \<Rightarrow> DetailCode (rpc_code err)
      | Some t \<Rightarrow> if t = MsgRaw [] then DetailCode (rpc_code err) else DetailText t)"

definition http_call :: "(wire \<Rightarrow> 'j) \<Rightarrow> client_result \<Rightarrow> 'j http" where
  "http_call to_json r =
     (case r of
        Message m \<Rightarrow> Json (to_json m)
      | RpcError err \<Rightarrow> HTTPException (call_status err) (call_detail err)
      | ClientRaised e \<Rightarrow> ServerError e)"

subsection \<open>Payload pages\<close>

text \<open>\<open>_prp_dict\<close> makes its own JSON, with the bytes of a page as hexadecimal text (\<open>bytes.hex\<close>).\<close>

datatype json = JStr wire_text | JInt int | JBool bool | JList "json list" | JObj "(pystr \<times> json) list" | JNull

definition byte_hex :: "char \<Rightarrow> pystr" where
  "byte_hex c = [hexdigit (code c div 16), hexdigit (code c mod 16)]"

definition bytes_hex :: "pybytes \<Rightarrow> pystr" where
  "bytes_hex bs = concat (map byte_hex bs)"

text \<open>Reading a field of a message: the last value set.\<close>

fun msg_field :: "wire \<Rightarrow> pystr \<Rightarrow> wire option" where
  "msg_field (VMsg n kw) k = map_of (rev kw) k"
| "msg_field m k = None"

fun json_of :: "wire option \<Rightarrow> json" where
  "json_of (Some (VInt i)) = JInt i"
| "json_of (Some (VBool b)) = JBool b"
| "json_of (Some (VStr t)) = JStr t"
| "json_of (Some (VBytes bs)) = JStr (Plain (bytes_hex bs))"
| "json_of _ = JNull"

definition page_dict :: "wire \<Rightarrow> json" where
  "page_dict p = JObj
     [(''phys_addr'', json_of (msg_field p ''phys_addr'')), (''offset_in_page'', json_of (msg_field p ''offset_in_page'')),
      (''is_list_page'', json_of (msg_field p ''is_list_page'')), (''data_hex'', json_of (msg_field p ''data''))]"

definition prp_dict :: "wire \<Rightarrow> json" where
  "prp_dict m = JObj
     [(''device'', json_of (msg_field m ''device'')), (''qid'', json_of (msg_field m ''qid'')),
      (''cid'', json_of (msg_field m ''cid'')), (''uses_sgl'', json_of (msg_field m ''uses_sgl'')),
      (''total_len'', json_of (msg_field m ''total_len'')), (''error'', json_of (msg_field m ''error'')),
      (''pages'', JList (case msg_field m ''pages'' of Some (VList ps) \<Rightarrow> map page_dict ps | _ \<Rightarrow> []))]"

subsection \<open>Handlers\<close>

definition api_snapshot where
  "api_snapshot new carry to_dict b device e s =
     http_call to_dict (client_get_device_snapshot new carry b device e s)"

definition api_entries where
  "api_entries new carry to_dict b device qid limit around e s =
     http_call to_dict (client_get_queue_entries new carry b device qid limit around e s)"

definition api_completions where
  "api_completions new carry to_dict b device qid limit around e s =
     http_call to_dict (client_get_completion_entries new carry b device qid limit around e s)"

definition api_prp where
  "api_prp new carry b device qid cid e s = http_call prp_dict (client_get_prp_payload new carry b device qid cid e s)"

definition api_tree where
  "api_tree new carry to_dict b device path e s = http_call to_dict (client_get_tree_node new carry b device path e s)"

definition api_performance where
  "api_performance new carry to_dict b device e s = http_call to_dict (client_get_performance new carry b device e s)"

definition api_events where
  "api_events new carry to_dict b device e s = http_call to_dict (client_get_events new carry b device e s)"

definition api_error_stats where
  "api_error_stats new carry to_dict b device e s = http_call to_dict (client_get_error_stats new carry b device e s)"

definition api_processes where
  "api_processes new carry to_dict b only_io e s = http_call to_dict (client_list_processes new carry b only_io e s)"

definition api_targets where
  "api_targets new carry to_dict b e s = http_call to_dict (client_list_targets new carry b e s)"

text \<open>The body of the request is an object of texts; a missing key counts as the empty text.\<close>

definition api_add_target where
  "api_add_target new carry to_dict b body e s =
     http_call to_dict (client_add_target new carry b (dict_get body ''kind'' []) (dict_get body ''value'' [])
       (dict_get body ''adapter'' []) e s)"

definition api_remove_target where
  "api_remove_target new carry to_dict b kind v e s = http_call to_dict (client_remove_target new carry b kind v e s)"

definition api_profile where
  "api_profile new carry to_dict b e s = http_call to_dict (client_get_profile new carry b e s)"

definition api_topology where
  "api_topology new carry to_dict b e s = http_call to_dict (client_get_topology new carry b e s)"

definition api_event_kinds where
  "api_event_kinds new carry to_dict b e s = http_call to_dict (client_list_event_kinds new carry b e s)"

text \<open>\<open>api_devices\<close> returns the list of names itself.\<close>

definition names_of :: "wire \<Rightarrow> pystr list" where
  "names_of m = (case msg_field m ''names'' of Some (VList vs) \<Rightarrow> [s. VStr (Plain s) \<leftarrow> vs] | _ \<Rightarrow> [])"

definition api_devices where
  "api_devices new carry b e s = http_call names_of (client_list_devices new carry b e s)"

end
