(* ===== verification/WebLaws.thy ===== *)
theory WebLaws
  imports Web
begin

text \<open>
  What the browser gets: the HTTP status of every outcome of a call, and the bytes of a dumped page.
\<close>

section \<open>Answers of the web server\<close>

lemma deliversD:
  assumes "delivers carry"
  shows "carry (Reply m) = Inr m" "carry (Abort c t) = Inl \<lparr>rpc_code = Code c, rpc_details = Some t\<rparr>"
    "\<exists>t. carry (Raised e) = Inl \<lparr>rpc_code = UNKNOWN, rpc_details = t\<rparr>"
  using assms by (auto simp: delivers_def)

lemma http_not_found:
  assumes "delivers carry" "request = Inr m" "fst answer = Abort NOT_FOUND t" "t \<noteq> MsgRaw []"
  shows "http_call j (call_stub carry request answer) = HTTPException 404 (DetailText t)"
  using assms deliversD [OF assms(1)] by (simp add: http_call_def call_stub_def call_status_def call_detail_def)

lemma http_other:
  assumes "delivers carry" "request = Inr m" "fst answer = Raised x"
  shows "\<exists>d. http_call j (call_stub carry request answer) = HTTPException 502 d"
  using assms deliversD(3) [OF assms(1), of x] by (auto simp: http_call_def call_stub_def call_status_def)

lemma http_reply:
  assumes "delivers carry" "request = Inr m" "fst answer = Reply w"
  shows "http_call j (call_stub carry request answer) = Json (j w)"
  using assms deliversD [OF assms(1)] by (simp add: http_call_def call_stub_def)

lemma device_request_ok: "runtime new \<Longrightarrow> \<exists>m. device_request new d = Inr m"
  by (simp add: device_request_def runtime_Inr fits_field_def str_def)

lemma queue_request_converts:
  "runtime new \<Longrightarrow> (\<exists>m. queue_request new d q l a = Inr m) \<longleftrightarrow> in_range Int32 q \<and> in_range Int32 l"
  by (simp add: queue_request_def runtime_Inr fits_field_def str_def del: in_range.simps)

lemma texts_not_empty [simp]: "device_text d \<noteq> MsgRaw []" "qid_text q \<noteq> MsgRaw []"
  by (simp_all add: device_text_def qid_text_def)

text \<open>
  What the browser gets for a ring of the mock server.  A queue number or limit that does not fit its field is an
  error of the web server; otherwise an unknown device or queue is a 404 whose text names it, and everything
  else is the JSON of the reply.
\<close>

theorem web_entries_answer:
  assumes "runtime new" and "delivers carry"
  shows "case api_entries new carry to_dict mock_backend d q l a e w of
      ServerError x \<Rightarrow> \<not> (in_range Int32 q \<and> in_range Int32 l)
    | HTTPException n t \<Rightarrow> n = 404 \<and>
        t = DetailText (if d \<in> set mock_list_devices then qid_text q else device_text d)
    | Json j \<Rightarrow> d \<in> set mock_list_devices \<and>
        (\<exists>m. fst (GetQueueEntries new mock_backend d q l a e w) = Reply m \<and> j = to_dict m)"
proof (cases "queue_request new d q l a")
  case (Inl x)
  then have "\<nexists>m. queue_request new d q l a = Inr m" by simp
  then have "\<not> (in_range Int32 q \<and> in_range Int32 l)" unfolding queue_request_converts [OF assms(1)] .
  with Inl show ?thesis by (simp add: api_entries_def client_get_queue_entries_def http_call_def call_stub_def del: in_range.simps)
next
  case (Inr m)
  have ans: "queue_answer d q (fst (GetQueueEntries new mock_backend d q l a e w))"
    using mock_queue_rpc(1) [OF assms(1), of 0] by simp
  have known: "d \<in> set mock_list_devices \<longleftrightarrow> \<not> isl (topology_of d)"
    using mock_known mock_unknown by fastforce
  consider "fst (GetQueueEntries new mock_backend d q l a e w) = Abort NOT_FOUND (device_text d)" "d \<notin> set mock_list_devices"
    | "fst (GetQueueEntries new mock_backend d q l a e w) = Abort NOT_FOUND (qid_text q)" "d \<in> set mock_list_devices"
    | r where "fst (GetQueueEntries new mock_backend d q l a e w) = Reply r" "d \<in> set mock_list_devices"
    using ans known by (auto simp: queue_answer_def split: sum.splits if_splits rpc.splits)
  then show ?thesis
    unfolding api_entries_def client_get_queue_entries_def
    by cases (simp_all add: http_not_found [OF assms(2) Inr] http_reply [OF assms(2) Inr])
qed

text \<open>
  C32: the web server does not tell a missing device from a broken daemon on its monitoring pages.  For a
  device the mock backend does not have, the snapshot is a 404, while performance, events and error counters
  are 502.
\<close>

theorem web_monitoring_status:
  assumes "runtime new" and "delivers carry" and "d \<notin> set mock_list_devices"
  shows "api_snapshot new carry to_dict mock_backend d e w = HTTPException 404 (DetailText (device_text d)) \<and>
    (\<exists>t. api_performance new carry to_dict mock_backend d e w = HTTPException 502 t) \<and>
    (\<exists>t. api_events new carry to_dict mock_backend d e w = HTTPException 502 t) \<and>
    (\<exists>t. api_error_stats new carry to_dict mock_backend d e w = HTTPException 502 t)"
proof -
  obtain m where m: "device_request new d = Inr m" using device_request_ok [OF assms(1)] by blast
  note un = mock_monitoring_unknown [OF assms(3)] mock_lookup.unknown_device(1) [OF TrueI assms(3)]
  have "fst (GetDeviceSnapshot new mock_backend d e w) = Abort NOT_FOUND (device_text d)"
    "fst (GetPerformance new mock_backend d e w) = Raised (DeviceNotFoundError d)"
    "fst (GetEvents new mock_backend d e w) = Raised (DeviceNotFoundError d)"
    "fst (GetErrorStats new mock_backend d e w) = Raised (DeviceNotFoundError d)"
    by (simp_all add: un)
  then show ?thesis
    unfolding api_snapshot_def api_performance_def api_events_def api_error_stats_def client_get_device_snapshot_def
      client_get_performance_def client_get_events_def client_get_error_stats_def
    by (intro conjI http_other [OF assms(2) m] http_not_found [OF assms(2) m]) simp_all
qed

section \<open>Payload bytes\<close>

text \<open>\<open>bytes.fromhex\<close>, as the browser reads a dump back.\<close>

fun hex_bytes :: "pystr \<Rightarrow> pybytes" where
  "hex_bytes (h # l # s) = char_of (16 * hexdigit_val h + hexdigit_val l) # hex_bytes s"
| "hex_bytes s = []"

lemma hex_bytes_hex [simp]: "hex_bytes (bytes_hex bs) = bs"
proof (induction bs)
  case (Cons c bs)
  have "code c < 256" by simp
  then have "code c div 16 < 16" by (simp add: div_less_iff_less_mult)
  then have "char_of (16 * hexdigit_val (hexdigit (code c div 16)) + hexdigit_val (hexdigit (code c mod 16))) = c"
    by simp
  with Cons show ?case by (simp add: bytes_hex_def byte_hex_def)
qed (simp add: bytes_hex_def)

text \<open>The pages of a payload as the browser reads them.\<close>

fun obj_field :: "json \<Rightarrow> pystr \<Rightarrow> json" where
  "obj_field (JObj fs) k = (case map_of fs k of None \<Rightarrow> JNull | Some j \<Rightarrow> j)"
| "obj_field j k = JNull"

fun list_of :: "json \<Rightarrow> json list" where
  "list_of (JList js) = js"
| "list_of j = []"

fun plain_text :: "json \<Rightarrow> pystr" where
  "plain_text (JStr (Plain s)) = s"
| "plain_text j = []"

definition read_back :: "json \<Rightarrow> (pystr \<times> pybytes) list" where
  "read_back j = map (\<lambda>p. (plain_text (obj_field p ''phys_addr''), hex_bytes (plain_text (obj_field p ''data_hex''))))
     (list_of (obj_field j ''pages''))"

lemma page_dict_read:
  assumes "runtime new" "page_to_pb new pg = Inr m"
  shows "plain_text (obj_field (page_dict m) ''phys_addr'') = py_hex (pp_phys_addr pg) \<and>
    hex_bytes (plain_text (obj_field (page_dict m) ''data_hex'')) = pp_data pg"
  using assms by (simp add: page_to_pb_def runtime_Inr page_dict_def hex_str_def)

text \<open>
  The bytes of a dump survive the way to the browser.  When a payload is converted to a message and the message to
  the JSON of the payload page, the page addresses and the bytes read back from the hexadecimal text are
  those of the payload, page by page, whatever the bytes are.
\<close>

theorem prp_json_roundtrip:
  assumes "runtime new" and "prp_to_pb new p = Inr m"
  shows "read_back (prp_dict m) = map (\<lambda>pg. (py_hex (pp_phys_addr pg), pp_data pg)) (pl_pages p)"
proof -
  from assms(2) obtain pages where pages: "mapE (page_to_pb new) (pl_pages p) = Inr pages"
    and m: "msg_field m ''pages'' = Some (VList pages)"
    by (auto simp: prp_to_pb_def bindE_Inr runtime_Inr [OF assms(1)])
  from pages have "list_all2 (\<lambda>pg m. page_to_pb new pg = Inr m) (pl_pages p) pages"
    by (simp add: mapE_list_all2)
  then have "map (\<lambda>p. (plain_text (obj_field (page_dict p) ''phys_addr''),
      hex_bytes (plain_text (obj_field (page_dict p) ''data_hex'')))) pages =
    map (\<lambda>pg. (py_hex (pp_phys_addr pg), pp_data pg)) (pl_pages p)"
    by (induction rule: list_all2_induct) (simp_all add: page_dict_read [OF assms(1)])
  then show ?thesis by (simp add: read_back_def prp_dict_def m comp_def)
qed

section \<open>Concrete requests\<close>

definition plain_carry :: carry where
  "plain_carry r =
     (case r of
        Reply m \<Rightarrow> Inr m
      | Abort c t \<Rightarrow> Inl \<lparr>rpc_code = Code c, rpc_details = Some t\<rparr>
      | Raised x \<Rightarrow> Inl \<lparr>rpc_code = UNKNOWN, rpc_details = None\<rparr>)"

lemma delivers_plain: "delivers plain_carry"
  by (simp add: delivers_def plain_carry_def)

theorem web_entries_answer_witness:
  "\<forall>e w. case api_entries checked_new plain_carry id mock_backend ''nvme1'' 9 16 True e w of
     HTTPException n t \<Rightarrow> n = 404 | ServerError x \<Rightarrow> False | Json j \<Rightarrow> True"
proof (intro allI)
  fix e w
  show "case api_entries checked_new plain_carry id mock_backend ''nvme1'' 9 16 True e w of
     HTTPException n t \<Rightarrow> n = 404 | ServerError x \<Rightarrow> False | Json j \<Rightarrow> True"
    using web_entries_answer [OF runtime_checked_new delivers_plain, where to_dict = id and d = "''nvme1''" and q = 9 and l = 16 and a = True and e = e and w = w]
    by (auto split: http.splits)
qed

theorem web_monitoring_status_witness:
  "\<forall>e w. \<exists>t. api_events checked_new plain_carry id mock_backend ''nvme7'' e w = HTTPException 502 t"
proof (intro allI)
  fix e w
  have "''nvme7'' \<notin> set mock_list_devices" by (simp add: mock_list_devices_def TOPOLOGY_def)
  from web_monitoring_status [OF runtime_checked_new delivers_plain this, where to_dict = id and e = e and w = w]
  show "\<exists>t. api_events checked_new plain_carry id mock_backend ''nvme7'' e w = HTTPException 502 t" by blast
qed

definition sample_payload :: PrpPayload where
  "sample_payload =
     \<lparr>pl_device = ''nvme0'', pl_qid = 1, pl_cid = 3, pl_uses_sgl = False, pl_total_len = 3,
      pl_pages = [\<lparr>pp_phys_addr = 0x1F, pp_offset_in_page = 0, pp_data = ''a z'', pp_is_list_page = False\<rparr>],
      pl_error = None\<rparr>"

theorem prp_json_roundtrip_witness:
  "\<exists>m. prp_to_pb checked_new sample_payload = Inr m \<and> read_back (prp_dict m) = [(''0x1f'', ''a z'')]"
proof -
  have "payload_in_range sample_payload" by (simp add: payload_in_range_def sample_payload_def page_in_range_def)
  then obtain m where m: "prp_to_pb checked_new sample_payload = Inr m"
    using payload_converts [OF runtime_checked_new] by blast
  have "py_hex 0x1F = ''0x1f''" by code_simp
  with prp_json_roundtrip [OF runtime_checked_new m] m show ?thesis by (simp add: sample_payload_def)
qed

end
