(* ===== verification/WebStreams.thy ===== *)
theory WebStreams
  imports WebLaws
begin

text \<open>
  The WebSocket routes of \<open>web/app.py\<close> over the streaming methods of \<open>grpcserver/client.py\<close>: what arrives at a browser that stays
  connected.  The tasks behind a route, and a browser that leaves, are in \<open>WebRelay\<close>.
\<close>

section \<open>Routes\<close>

text \<open>How a route ends: the stream was cancelled, the route closes the socket with a code and a reason, or it fails.\<close>

datatype close_reason = ReasonText message | GrpcError

datatype ws_end = WsReturned | WsClosed nat close_reason | WsRaised exn

definition stream_request :: "pb_new \<Rightarrow> pystr \<Rightarrow> pyfloat \<Rightarrow> exn + wire" where
  "stream_request new device interval =
     new M_StreamRequest [(''device'', str device), (''interval_sec'', VDouble interval)]"

text \<open>The items of a stream, and the error with which it ends at the client.\<close>

definition stream_items :: "stream_act list \<Rightarrow> wire list" where
  "stream_items acts = [m. Sent m \<leftarrow> acts]"

definition stream_error :: "carry \<Rightarrow> stream_end \<Rightarrow> AioRpcError option" where
  "stream_error carry fin =
     (case fin of
        Cancelled \<Rightarrow> None
      | Aborted c t \<Rightarrow> (case carry (Abort c t) of Inl err \<Rightarrow> Some err | Inr _ \<Rightarrow> None)
      | Failed x \<Rightarrow> (case carry (Raised x) of Inl err \<Rightarrow> Some err | Inr _ \<Rightarrow> None))"

text \<open>\<open>e.details() or "grpc error"\<close>\<close>

definition close_of :: "AioRpcError \<Rightarrow> ws_end" where
  "close_of err =
     WsClosed 1011 (case rpc_details err of None \<Rightarrow> GrpcError | Some t \<Rightarrow> if t = MsgRaw [] then GrpcError else ReasonText t)"

definition ws_route :: "carry \<Rightarrow> (wire \<Rightarrow> 'j) \<Rightarrow> exn + wire \<Rightarrow> stream_act list \<times> stream_end \<times> 's \<Rightarrow> 'j list \<times> ws_end" where
  "ws_route carry to_dict request = (\<lambda>(acts, fin, s).
     (case request of
        Inl e \<Rightarrow> ([], WsRaised e)
      | Inr _ \<Rightarrow>
          (map to_dict (stream_items acts),
           (case stream_error carry fin of None \<Rightarrow> WsReturned | Some err \<Rightarrow> close_of err))))"

definition ws_metrics where
  "ws_metrics new carry to_dict b device interval es s =
     ws_route carry to_dict (stream_request new device interval) (StreamDeviceMetrics new b device interval es s)"

definition ws_performance where
  "ws_performance new carry to_dict b device interval es s =
     ws_route carry to_dict (stream_request new device interval) (StreamPerformance new b device interval es s)"

definition ws_events where
  "ws_events new carry to_dict b device interval es s =
     ws_route carry to_dict (stream_request new device interval) (StreamEvents new b device interval es s)"

definition ws_profile where
  "ws_profile new carry to_dict b interval es s =
     ws_route carry to_dict (stream_request new [] interval) (StreamProfile new b interval es s)"

section \<open>What the browser gets\<close>

lemma stream_replies:
  assumes "\<forall>e \<in> set es. \<exists>m. poll e s = (Reply m, s)"
  shows "\<exists>acts. stream interval poll es s = (acts, Cancelled, s) \<and> length (stream_items acts) = length es"
  using assms
proof (induction es)
  case (Cons e es)
  then obtain m acts where "poll e s = (Reply m, s)" "stream interval poll es s = (acts, Cancelled, s)"
    "length (stream_items acts) = length es" by auto
  then show ?case by (simp add: stream_items_def)
qed (simp add: stream_items_def)

lemma stream_request_ok: "runtime new \<Longrightarrow> \<exists>m. stream_request new d i = Inr m"
  by (simp add: stream_request_def runtime_Inr fits_field_def str_def)

lemma route_replies:
  assumes "request = Inr m" "\<forall>e \<in> set es. \<exists>m. poll e s = (Reply m, s)"
  shows "\<exists>js. ws_route carry j request (stream interval poll es s) = (js, WsReturned) \<and> length js = length es"
  using stream_replies [of es poll s interval] assms by (auto simp: ws_route_def stream_error_def)

lemma route_abort:
  assumes "delivers carry" "request = Inr m" "poll e s = (Abort c t, s')" "t \<noteq> MsgRaw []"
  shows "ws_route carry j request (stream interval poll (e # es) s) = ([], WsClosed 1011 (ReasonText t))"
  using assms deliversD(2) [OF assms(1)]
  by (simp add: ws_route_def stream_error_def stream_items_def close_of_def)

lemma route_raised:
  assumes "delivers carry" "request = Inr m" "poll e s = (Raised x, s')"
  shows "\<exists>r. ws_route carry j request (stream interval poll (e # es) s) = ([], WsClosed 1011 r)"
  using assms deliversD(3) [OF assms(1), of x]
  by (auto simp: ws_route_def stream_error_def stream_items_def close_of_def)

text \<open>
  C21: a live page shows every poll, or says why not.  For a device of the mock backend the metrics socket delivers one document per
  poll and stays open until the browser leaves; for any other device it delivers nothing and is closed at the first poll with
  code 1011 and the name of the missing device.  The performance socket of a missing device closes with the same code.
\<close>

theorem ws_metrics_answers:
  assumes "runtime new" and "delivers carry"
  shows "if d \<in> set mock_list_devices
    then \<exists>js. ws_metrics new carry to_dict mock_backend d interval es w = (js, WsReturned) \<and> length js = length es
    else es = [] \<or>
      ws_metrics new carry to_dict mock_backend d interval es w = ([], WsClosed 1011 (ReasonText (device_text d))) \<and>
      (\<exists>r. ws_performance new carry to_dict mock_backend d interval es w = ([], WsClosed 1011 r))"
proof -
  obtain m where m: "stream_request new d interval = Inr m" using stream_request_ok [OF assms(1)] by blast
  show ?thesis
  proof (cases "d \<in> set mock_list_devices")
    case True
    then show ?thesis
      using route_replies [OF m, of es "GetDeviceSnapshot new mock_backend d" w] mock_snapshot_reply [OF assms(1) True]
      unfolding ws_metrics_def StreamDeviceMetrics_def by simp
  next
    case False
    note un = mock_monitoring_unknown [OF False] mock_lookup.unknown_device(1) [OF TrueI False]
    show ?thesis
    proof (cases es)
      case (Cons e es')
      obtain s1 s2 where a: "GetDeviceSnapshot new mock_backend d e w = (Abort NOT_FOUND (device_text d), s1)"
        and r: "GetPerformance new mock_backend d e w = (Raised (DeviceNotFoundError d), s2)"
        using un by (metis prod.collapse)
      have "ws_metrics new carry to_dict mock_backend d interval es w = ([], WsClosed 1011 (ReasonText (device_text d)))"
        unfolding ws_metrics_def StreamDeviceMetrics_def Cons
        by (rule route_abort [OF assms(2) m, where poll = "GetDeviceSnapshot new mock_backend d", OF a]) (simp add: texts_not_empty)
      moreover have "\<exists>r. ws_performance new carry to_dict mock_backend d interval es w = ([], WsClosed 1011 r)"
        unfolding ws_performance_def StreamPerformance_def Cons 
        by (rule route_raised [OF assms(2) m, where poll = "GetPerformance new mock_backend d", OF r])
      ultimately show ?thesis using False by simp
    qed (use False in simp)
  qed
qed

theorem ws_metrics_answers_witness:
  "\<forall>e w. ws_metrics checked_new plain_carry id mock_backend ''nvme7'' (1 / 2) [e] w =
     ([], WsClosed 1011 (ReasonText (device_text ''nvme7'')))"
proof (intro allI)
  fix e w
  have "''nvme7'' \<notin> set mock_list_devices" by (simp add: mock_list_devices_def TOPOLOGY_def)
  with ws_metrics_answers [OF runtime_checked_new delivers_plain, of "''nvme7''" id "1 / 2" "[e]" w]
  show "ws_metrics checked_new plain_carry id mock_backend ''nvme7'' (1 / 2) [e] w =
     ([], WsClosed 1011 (ReasonText (device_text ''nvme7'')))" by simp
qed

end
