(* ===== verification/Ffi.thy ===== *)
theory Ffi
  imports WebLaws
begin

text \<open>
  \<open>ffi.py\<close>: the functions that a C++ program calls through an embedded interpreter.  Each makes a new backend, calls one
  operation and returns the JSON of its result: a dataclass becomes an object with its fields (\<open>asdict\<close>), \<open>None\<close> becomes
  null.  A JSON document stands for its text.
\<close>

section \<open>\<open>asdict\<close>\<close>

abbreviation jtext :: "pystr \<Rightarrow> json" where
  "jtext s \<equiv> JStr (Plain s)"

definition opt_json :: "('a \<Rightarrow> json) \<Rightarrow> 'a option \<Rightarrow> json" where
  "opt_json f x = (case x of None \<Rightarrow> JNull | Some a \<Rightarrow> f a)"

definition message_json :: "message \<Rightarrow> json" where
  "message_json m = JStr (Rendered m)"

definition queue_json :: "QueueSnapshot \<Rightarrow> json" where
  "queue_json q = JObj
     [(''index'', JInt (qs_index q)), (''qid'', JInt (qs_qid q)), (''is_admin'', JBool (qs_is_admin q)),
      (''depth'', JInt (qs_depth q)), (''sq_tail'', JInt (qs_sq_tail q)), (''cq_head'', JInt (qs_cq_head q)),
      (''sq_dma_addr'', JInt (qs_sq_dma_addr q)), (''cq_dma_addr'', JInt (qs_cq_dma_addr q)),
      (''hctx_index'', opt_json JInt (qs_hctx_index q)), (''inflight_driver'', JInt (qs_inflight_driver q)),
      (''inflight_sched'', JInt (qs_inflight_sched q))]"

definition device_json :: "DeviceSnapshot \<Rightarrow> json" where
  "device_json d = JObj
     [(''name'', jtext (ds_name d)), (''addr'', JInt (ds_addr d)), (''model'', jtext (ds_model d)),
      (''online_queues'', JInt (ds_online_queues d)), (''allocated_queues'', JInt (ds_allocated_queues d)),
      (''bar_addr'', JInt (ds_bar_addr d)), (''dbs_addr'', JInt (ds_dbs_addr d)), (''iommu_enabled'', JBool (ds_iommu_enabled d)),
      (''backend_kind'', jtext (ds_backend_kind d)), (''queues'', JList (map queue_json (ds_queues d)))]"

definition entry_json :: "QueueEntry \<Rightarrow> json" where
  "entry_json e = JObj
     [(''index'', JInt (qe_index e)), (''cid'', JInt (qe_cid e)), (''opcode'', JInt (qe_opcode e)),
      (''opcode_name'', jtext (qe_opcode_name e)), (''nsid'', JInt (qe_nsid e)), (''flags'', JInt (qe_flags e)),
      (''uses_sgl'', JBool (qe_uses_sgl e)), (''cdw2'', JInt (qe_cdw2 e)), (''cdw3'', JInt (qe_cdw3 e)),
      (''cdw10'', JInt (qe_cdw10 e)), (''cdw11'', JInt (qe_cdw11 e)), (''cdw12'', JInt (qe_cdw12 e)),
      (''cdw13'', JInt (qe_cdw13 e)), (''cdw14'', JInt (qe_cdw14 e)), (''cdw15'', JInt (qe_cdw15 e)),
      (''prp1'', JInt (qe_prp1 e)), (''prp2'', JInt (qe_prp2 e))]"

definition completion_json :: "CompletionEntry \<Rightarrow> json" where
  "completion_json c = JObj
     [(''index'', JInt (ce_index c)), (''command_id'', JInt (ce_command_id c)), (''sq_id'', JInt (ce_sq_id c)),
      (''sq_head'', JInt (ce_sq_head c)), (''status_raw'', JInt (ce_status_raw c)), (''phase'', JBool (ce_phase c)),
      (''status_code'', JInt (ce_status_code c)), (''status_code_type'', JInt (ce_status_code_type c)),
      (''result'', JInt (ce_result c))]"

text \<open>Bytes are no JSON: \<open>data\<close> is replaced by \<open>data_hex\<close>, which comes last.\<close>

definition page_json :: "PrpPage \<Rightarrow> json" where
  "page_json p = JObj
     [(''phys_addr'', JInt (pp_phys_addr p)), (''offset_in_page'', JInt (pp_offset_in_page p)),
      (''is_list_page'', JBool (pp_is_list_page p)), (''data_hex'', jtext (bytes_hex (pp_data p)))]"

definition payload_json :: "PrpPayload \<Rightarrow> json" where
  "payload_json p = JObj
     [(''device'', jtext (pl_device p)), (''qid'', JInt (pl_qid p)), (''cid'', JInt (pl_cid p)),
      (''uses_sgl'', JBool (pl_uses_sgl p)), (''total_len'', JInt (pl_total_len p)),
      (''pages'', JList (map page_json (pl_pages p))), (''error'', opt_json message_json (pl_error p))]"

definition node_json :: "TreeNode \<Rightarrow> json" where
  "node_json n = JObj
     [(''name'', jtext (tn_name n)), (''type_name'', jtext (tn_type_name n)), (''kind'', jtext (tn_kind n)),
      (''value_repr'', message_json (tn_value_repr n)), (''address'', opt_json JInt (tn_address n)),
      (''is_null'', JBool (tn_is_null n)), (''expandable'', JBool (tn_expandable n))]"

definition expansion_json :: "TreeExpansion \<Rightarrow> json" where
  "expansion_json x = JObj
     [(''node'', node_json (te_node x)), (''children'', JList (map node_json (te_children x))),
      (''depth'', JInt (int (te_depth x))), (''error'', opt_json message_json (te_error x))]"

section \<open>The functions\<close>

text \<open>What the two backends would see, and the targets file.\<close>

record 'o ffi_env =
  fe_mock :: mock_env
  fe_drgn :: "'o drgn_env"
  fe_disk :: "state_doc option"

text \<open>The call on a new backend of the kind, with no options.\<close>

definition on_backend ::
  "'o ffi_env \<Rightarrow> pystr \<Rightarrow> (mock_env, profiler_world, 'r) call \<Rightarrow> ('o drgn_env, drgn_world, 'r) call \<Rightarrow> exn + 'r" where
  "on_backend env kind on_mock on_drgn =
     bindE (get_backend kind no_kwargs) (\<lambda>choice.
       case choice of
         MockBackend _ \<Rightarrow> fst (on_mock (fe_mock env) (new_mock_world (fe_disk env)))
       | DrgnBackend _ \<Rightarrow> fst (on_drgn (fe_drgn env) (new_drgn_world None (fe_disk env))))"

definition list_devices_json :: "pystr \<Rightarrow> 'o ffi_env \<Rightarrow> exn + json" where
  "list_devices_json kind env =
     bindE (on_backend env kind (be_list_devices mock_backend) (be_list_devices drgn_backend)) (\<lambda>names.
       Inr (JList (map jtext names)))"

definition get_device_snapshot_json :: "pystr \<Rightarrow> pystr \<Rightarrow> 'o ffi_env \<Rightarrow> exn + json" where
  "get_device_snapshot_json device kind env =
     bindE (on_backend env kind (be_get_device_snapshot mock_backend device) (be_get_device_snapshot drgn_backend device)) (\<lambda>d.
       Inr (device_json d))"

definition get_queue_entries_json :: "pystr \<Rightarrow> int \<Rightarrow> int \<Rightarrow> bool \<Rightarrow> pystr \<Rightarrow> 'o ffi_env \<Rightarrow> exn + json" where
  "get_queue_entries_json device qid limit around kind env =
     bindE (on_backend env kind (be_get_queue_entries mock_backend device qid limit around)
         (be_get_queue_entries drgn_backend device qid limit around)) (\<lambda>es.
       Inr (JList (map entry_json es)))"

definition get_completion_entries_json :: "pystr \<Rightarrow> int \<Rightarrow> int \<Rightarrow> bool \<Rightarrow> pystr \<Rightarrow> 'o ffi_env \<Rightarrow> exn + json" where
  "get_completion_entries_json device qid limit around kind env =
     bindE (on_backend env kind (be_get_completion_entries mock_backend device qid limit around)
         (be_get_completion_entries drgn_backend device qid limit around)) (\<lambda>es.
       Inr (JList (map completion_json es)))"

definition get_prp_payload_json :: "pystr \<Rightarrow> int \<Rightarrow> int \<Rightarrow> pystr \<Rightarrow> 'o ffi_env \<Rightarrow> exn + json" where
  "get_prp_payload_json device qid cid kind env =
     bindE (on_backend env kind (be_get_prp_payload mock_backend device qid cid) (be_get_prp_payload drgn_backend device qid cid))
       (\<lambda>p. Inr (payload_json p))"

definition get_tree_node_json :: "pystr \<Rightarrow> pystr list option \<Rightarrow> pystr \<Rightarrow> 'o ffi_env \<Rightarrow> exn + json" where
  "get_tree_node_json device path kind env =
     (let p = (case path of None \<Rightarrow> [] | Some l \<Rightarrow> l)
      in bindE (on_backend env kind (be_get_tree_node mock_backend device p) (be_get_tree_node drgn_backend device p))
           (\<lambda>x. Inr (expansion_json x)))"

section \<open>Nothing is lost in the JSON\<close>

lemma opt_json_inject:
  "(\<And>a b. f a = f b \<longleftrightarrow> a = b) \<Longrightarrow> (\<And>a. f a \<noteq> JNull) \<Longrightarrow> opt_json f x = opt_json f y \<longleftrightarrow> x = y"
  by (cases x; cases y) (simp_all add: opt_json_def eq_commute [of JNull])

lemma opt_int_inject [simp]: "opt_json JInt x = opt_json JInt y \<longleftrightarrow> x = y"
  by (rule opt_json_inject) simp_all

lemma opt_message_inject [simp]: "opt_json message_json x = opt_json message_json y \<longleftrightarrow> x = y"
  by (rule opt_json_inject) (simp_all add: message_json_def)

lemma bytes_hex_inject [simp]: "bytes_hex xs = bytes_hex ys \<longleftrightarrow> xs = ys"
  by (metis hex_bytes_hex)

lemma map_inject: "(\<And>x y. f x = f y \<longleftrightarrow> x = y) \<Longrightarrow> map f xs = map f ys \<longleftrightarrow> xs = ys"
  by (induction xs arbitrary: ys) (auto simp: Cons_eq_map_conv map_eq_Cons_conv)

lemma queue_json_inject: "queue_json x = queue_json y \<longleftrightarrow> x = y"
  by (cases x; cases y) (simp add: queue_json_def)

lemma page_json_inject: "page_json x = page_json y \<longleftrightarrow> x = y"
  by (cases x; cases y) (auto simp: page_json_def)

lemma node_json_inject: "node_json x = node_json y \<longleftrightarrow> x = y"
  by (cases x; cases y) (simp add: node_json_def message_json_def)


end
