(* ===== verification/Cli.thy ===== *)
theory Cli
  imports Backend
begin

text \<open>
  \<open>cli/main.py\<close>: the commands of the command line over a backend.  Lines of plain text are text; phrases in Korean are
  named.
\<close>

section \<open>Text\<close>

definition rjust :: "nat \<Rightarrow> pystr \<Rightarrow> pystr" where
  "rjust w s = replicate (w - length s) CHR '' '' @ s"

definition ljust :: "nat \<Rightarrow> pystr \<Rightarrow> pystr" where
  "ljust w s = s @ replicate (w - length s) CHR '' ''"

text \<open>The format \<open>{i:#0<w>x}\<close>: the prefix and the sign count for the width.\<close>

definition alt_hex :: "nat \<Rightarrow> int \<Rightarrow> pystr" where
  "alt_hex w i =
     (let sign = (if i < 0 then ''-'' else []); s = nat_hex (nat \<bar>i\<bar>)
      in sign @ ''0x'' @ replicate (w - (length sign + 2 + length s)) CHR ''0'' @ s)"

section \<open>Sparklines\<close>

definition SPARK_WIDTH :: nat where
  "SPARK_WIDTH = 40"

text \<open>A block character is its index in \<open>_SPARK_CHARS\<close>; a negative index counts from the end.\<close>

definition SPARK_COUNT :: int where
  "SPARK_COUNT = 8"

definition spark_char :: "int \<Rightarrow> exn + int" where
  "spark_char i =
     (if 0 \<le> i \<and> i < SPARK_COUNT then Inr i
      else if - SPARK_COUNT \<le> i \<and> i < 0 then Inr (SPARK_COUNT + i)
      else Inl (OtherError ''IndexError''))"

definition trunc :: "pyfloat \<Rightarrow> int" where
  "trunc x = (if x < 0 then \<lceil>x\<rceil> else \<lfloor>x\<rfloor>)"

definition sparkline :: "pyfloat option list \<Rightarrow> exn + int list" where
  "sparkline values =
     (let vals = List.map_filter id values
      in if vals = [] then Inr []
         else
           (let hi = Max (set vals)
            in if hi \<le> 0 then Inr (replicate (length vals) 0)
               else mapE (\<lambda>v. spark_char (min (SPARK_COUNT - 1) (trunc (v / hi * of_int (SPARK_COUNT - 1))))) vals))"

section \<open>Hex dumps\<close>

definition dump_char :: "char \<Rightarrow> char" where
  "dump_char c = (if 32 \<le> code c \<and> code c < 127 then c else CHR ''.'')"

fun join_space :: "pystr list \<Rightarrow> pystr" where
  "join_space [] = []"
| "join_space [s] = s"
| "join_space (s # ss) = s @ '' '' @ join_space ss"

definition hex_byte :: "char \<Rightarrow> pystr" where
  "hex_byte c = fmt_hex 2 (int (code c))"

definition hexdump_line :: "int \<Rightarrow> pybytes \<Rightarrow> pystr" where
  "hexdump_line addr chunk =
     ''  '' @ alt_hex 10 addr @ ''  '' @ ljust 47 (join_space (map hex_byte chunk)) @ ''  |'' @ map dump_char chunk @ ''|''"

fun hexdump_lines :: "pybytes \<Rightarrow> int \<Rightarrow> pystr list" where
  "hexdump_lines data addr =
     (if data = [] then [] else hexdump_line addr (take 16 data) # hexdump_lines (drop 16 data) (addr + 16))"

declare hexdump_lines.simps [simp del]

section \<open>Histories of \<open>perf --watch\<close>\<close>

datatype spark_key = KeyAll | KeyQid int

type_synonym history = "(spark_key, pyfloat list) dict"

definition push_iops :: "spark_key \<Rightarrow> pyfloat \<Rightarrow> history \<Rightarrow> history" where
  "push_iops key v h =
     (let buf = dict_get h key [] @ [v]
      in AList.update key (if length buf > SPARK_WIDTH then last_n SPARK_WIDTH buf else buf) h)"

text \<open>The rows of one refresh, in the order in which they are printed.\<close>

definition perf_rows :: "DevicePerf \<Rightarrow> (spark_key \<times> QueuePerf) list" where
  "perf_rows p =
     (if \<not> dp_available p then []
      else map (\<lambda>q. (KeyQid (qp_qid q), q)) (dp_queues p) @
        (case dp_aggregate p of None \<Rightarrow> [] | Some a \<Rightarrow> [(KeyAll, a)]))"

definition perf_once :: "DevicePerf \<Rightarrow> history \<Rightarrow> history" where
  "perf_once p h = fold (\<lambda>(k, q). push_iops k (qp_iops q)) (perf_rows p) h"

definition perf_watch :: "DevicePerf list \<Rightarrow> history" where
  "perf_watch ps = fold perf_once ps []"

section \<open>Commands that print\<close>

text \<open>
  A printed line is a list of pieces: plain text, the \<open>repr\<close> of a text, a named Korean phrase, a sparkline, or a message of the
  program.  A command ends normally, with a usage error that click reports, or with another exception.
\<close>

datatype cpiece = Txt pystr | Repr pystr | Phrase pystr | Msg message | Spark "int list"

type_synonym line = "cpiece list"

datatype cli_end = Done | ClickException line | CliRaised exn

type_synonym 's cli = "line list \<times> cli_end \<times> 's"

definition no_device :: "pystr \<Rightarrow> line" where
  "no_device device = [Phrase ''no device: '', Txt device]"

definition no_queue :: "int \<Rightarrow> line" where
  "no_queue qid = [Phrase ''no queue: '', Txt (''qid='' @ int_dec qid)]"

fun device_error :: "pystr \<Rightarrow> exn \<Rightarrow> cli_end" where
  "device_error device (DeviceNotFoundError d) = ClickException (no_device device)"
| "device_error device e = CliRaised e"

fun queue_error :: "pystr \<Rightarrow> int \<Rightarrow> exn \<Rightarrow> cli_end" where
  "queue_error device qid (DeviceNotFoundError d) = ClickException (no_device device)"
| "queue_error device qid (QueueNotFoundError q) = ClickException (no_queue qid)"
| "queue_error device qid e = CliRaised e"

definition show_result :: "(exn \<Rightarrow> cli_end) \<Rightarrow> ('r \<Rightarrow> line list) \<Rightarrow> (exn + 'r) \<times> 's \<Rightarrow> 's cli" where
  "show_result catch lines = (\<lambda>(r, s). case r of Inl e \<Rightarrow> ([], catch e, s) | Inr x \<Rightarrow> (lines x, Done, s))"

definition cli_devices where
  "cli_devices b e s = show_result CliRaised (map (\<lambda>n. [Txt n])) (be_list_devices b e s)"

definition queue_row :: "QueueSnapshot \<Rightarrow> pystr" where
  "queue_row q =
     (let role = (if qs_is_admin q then ''ADMIN'' else ''IO'');
          hctx = (case qs_hctx_index q of None \<Rightarrow> ''-'' | Some i \<Rightarrow> int_dec i)
      in ''  '' @ rjust 4 (int_dec (qs_qid q)) @ '' '' @ rjust 6 role @ '' '' @ rjust 6 (int_dec (qs_depth q)) @ '' '' @
         rjust 8 (int_dec (qs_sq_tail q)) @ '' '' @ rjust 8 (int_dec (qs_cq_head q)) @ '' '' @ rjust 5 hctx @ '' '' @
         rjust 9 (int_dec (qs_inflight_driver q)) @ ''/'' @ ljust 9 (int_dec (qs_inflight_sched q)))"

definition snapshot_lines :: "DeviceSnapshot \<Rightarrow> line list" where
  "snapshot_lines d =
     [[Txt (ds_name d @ ''  addr='' @ py_hex (ds_addr d) @ ''  model=''), Repr (ds_model d),
       Txt (''  backend='' @ ds_backend_kind d)],
      [Txt (''  online_queues='' @ int_dec (ds_online_queues d) @ ''  allocated_queues='' @
         int_dec (ds_allocated_queues d) @ ''  iommu='' @ (if ds_iommu_enabled d then ''on'' else ''off''))],
      [Txt (''  bar='' @ py_hex (ds_bar_addr d) @ ''  dbs='' @ py_hex (ds_dbs_addr d))],
      [Txt (''  '' @ rjust 4 ''qid'' @ '' '' @ rjust 6 ''role'' @ '' '' @ rjust 6 ''depth'' @ '' '' @ rjust 8 ''sq_tail'' @ '' '' @
         rjust 8 ''cq_head'' @ '' '' @ rjust 5 ''hctx'' @ '' '' @ rjust 20 ''inflight drv/sched'')]] @
     map (\<lambda>q. [Txt (queue_row q)]) (ds_queues d)"

definition cli_snapshot where
  "cli_snapshot b device e s =
     show_result (\<lambda>x. case x of
         DeviceNotFoundError _ \<Rightarrow> ClickException (no_device device @ [Txt '' ('', Phrase ''check with telemetryd devices'', Txt '')''])
       | _ \<Rightarrow> CliRaised x) snapshot_lines (be_get_device_snapshot b device e s)"

definition hex2 :: "int \<Rightarrow> pystr" where
  "hex2 i = ''0x'' @ fmt_hex 2 i"

definition entry_lines :: "QueueEntry \<Rightarrow> line list" where
  "entry_lines e =
     [[Txt (''['' @ int_dec (qe_index e) @ ''] cid='' @ ljust 5 (int_dec (qe_cid e)) @ '' opcode='' @ ljust 12 (qe_opcode_name e) @
         ''('' @ hex2 (qe_opcode e) @ '') nsid='' @ int_dec (qe_nsid e) @ '' flags='' @ hex2 (qe_flags e) @ ''('' @
         (if qe_uses_sgl e then ''SGL'' else ''PRP'') @ '')'')],
      [Txt (''      cdw2='' @ alt_hex 10 (qe_cdw2 e) @ '' cdw3='' @ alt_hex 10 (qe_cdw3 e) @ '' cdw10='' @ alt_hex 10 (qe_cdw10 e) @
         '' cdw11='' @ alt_hex 10 (qe_cdw11 e) @ '' cdw12='' @ alt_hex 10 (qe_cdw12 e) @ '' cdw13='' @ alt_hex 10 (qe_cdw13 e) @
         '' cdw14='' @ alt_hex 10 (qe_cdw14 e) @ '' cdw15='' @ alt_hex 10 (qe_cdw15 e))]] @
     (if qe_uses_sgl e then [] else [[Txt (''      prp1='' @ py_hex (qe_prp1 e) @ '' prp2='' @ py_hex (qe_prp2 e))]])"

definition cli_queue where
  "cli_queue b device qid limit from_start e s =
     show_result (queue_error device qid) (\<lambda>es. concat (map entry_lines es))
       (be_get_queue_entries b device qid limit (\<not> from_start) e s)"

definition completion_line :: "CompletionEntry \<Rightarrow> line" where
  "completion_line c =
     [Txt (''['' @ int_dec (ce_index c) @ ''] cid='' @ ljust 5 (int_dec (ce_command_id c)) @ '' sq_id='' @ int_dec (ce_sq_id c) @
        '' sq_head='' @ int_dec (ce_sq_head c) @ '' phase='' @ (if ce_phase c then ''1'' else ''0'') @ '' sct='' @
        int_dec (ce_status_code_type c) @ '' sc='' @ hex2 (ce_status_code c) @ '' status_raw=0x'' @
        fmt_hex 4 (ce_status_raw c) @ '' result=0x'' @ fmt_hex 8 (ce_result c))]"

definition cli_cq where
  "cli_cq b device qid limit from_start e s =
     show_result (queue_error device qid) (map completion_line) (be_get_completion_entries b device qid limit (\<not> from_start) e s)"

definition page_lines :: "nat \<Rightarrow> PrpPage \<Rightarrow> line list" where
  "page_lines i p =
     [Txt (''-- '' @ (if pp_is_list_page p then ''LIST'' else ''DATA['' @ nat_dec i @ '']'') @ '' phys='' @ py_hex (pp_phys_addr p) @
        '' offset='' @ int_dec (pp_offset_in_page p) @ '' bytes='' @ nat_dec (length (pp_data p)) @ '' --'')] #
     (if pp_data p = [] then [[Txt []]] else map (\<lambda>l. [Txt l]) (hexdump_lines (pp_data p) (pp_phys_addr p)))"

definition payload_lines :: "PrpPayload \<Rightarrow> line list" where
  "payload_lines p =
     (if pl_uses_sgl p then [[Phrase ''SGL command, not a PRP'']]
      else
        (case pl_error p of None \<Rightarrow> [] | Some m \<Rightarrow> [[Phrase ''notice'', Msg m]]) @
        [[Txt (''total_len='' @ int_dec (pl_total_len p) @ ''  pages='' @ nat_dec (length (pl_pages p)))]] @
        concat (map (\<lambda>(i, pg). page_lines i pg) (List.enumerate 0 (pl_pages p))))"

definition cli_prp where
  "cli_prp b device qid cid e s = show_result (queue_error device qid) payload_lines (be_get_prp_payload b device qid cid e s)"

fun join_slash :: "pystr list \<Rightarrow> pystr" where
  "join_slash [] = []"
| "join_slash [s] = s"
| "join_slash (s # ss) = s @ ''/'' @ join_slash ss"

definition at_addr :: "int option \<Rightarrow> pystr" where
  "at_addr a = (case a of None \<Rightarrow> [] | Some i \<Rightarrow> '' @ '' @ py_hex i)"

definition tree_child_line :: "TreeNode \<Rightarrow> line" where
  "tree_child_line c =
     [Txt (''   '' @ (if tn_expandable c then ''->'' else ''  '') @ '' '' @ ljust 16 (tn_name c) @ '' ['' @ ljust 8 (tn_kind c) @ ''] '' @
        ljust 28 (tn_type_name c) @ '' ''), Msg (tn_value_repr c), Txt (at_addr (tn_address c))]"

definition tree_lines :: "pystr list \<Rightarrow> TreeExpansion \<Rightarrow> line list" where
  "tree_lines path x =
     (case te_error x of None \<Rightarrow> [] | Some m \<Rightarrow> [[Phrase ''error'', Msg m]]) @
     [[Txt (join_slash (''<root>'' # path) @ ''  ['' @ tn_kind (te_node x) @ ''] '' @ tn_type_name (te_node x) @
         at_addr (tn_address (te_node x)))],
      [Txt ''  value: '', Msg (tn_value_repr (te_node x))]] @
     (if te_children x = [] then [] else [Txt ''  children:''] # map tree_child_line (te_children x))"

definition cli_tree where
  "cli_tree b device path e s = show_result (device_error device) (tree_lines path) (be_get_tree_node b device path e s)"

section \<open>Watching\<close>

text \<open>
  \<open>watch\<close>: a poll per tick, with a sleep between two ticks.  The list holds the environments of the polls until the user
  interrupts; a count of 0 only ends that way.
\<close>

datatype watch_act = Tick int "line list" | Sleep pyfloat

definition watch_line :: "QueueSnapshot \<Rightarrow> line" where
  "watch_line q =
     [Txt (''  qid='' @ int_dec (qs_qid q) @ '' sq_tail='' @ int_dec (qs_sq_tail q) @ '' cq_head='' @ int_dec (qs_cq_head q) @
        '' inflight='' @ int_dec (qs_inflight_driver q) @ ''/'' @ int_dec (qs_inflight_sched q))]"

fun watch_from ::
  "('e, 's) Backend \<Rightarrow> pystr \<Rightarrow> pyfloat \<Rightarrow> int \<Rightarrow> int \<Rightarrow> 'e list \<Rightarrow> 's \<Rightarrow> watch_act list \<times> cli_end \<times> 's" where
  "watch_from b device interval ticks i es s =
     (if ticks = 0 \<or> i < ticks then
        (case es of
           [] \<Rightarrow> ([], Done, s)
         | e # es' \<Rightarrow>
             (case be_get_device_snapshot b device e s of
                (Inl x, s') \<Rightarrow> ([], device_error device x, s')
              | (Inr snap, s') \<Rightarrow>
                  (case watch_from b device interval ticks (i + 1) es' s' of
                     (acts, fin, s'') \<Rightarrow>
                       (Tick i (map watch_line (ds_queues snap)) #
                          (if ticks = 0 \<or> i + 1 < ticks then [Sleep interval] else []) @ acts, fin, s''))))
      else ([], Done, s))"

declare watch_from.simps [simp del]

definition cli_watch where
  "cli_watch b device interval ticks es s = watch_from b device interval ticks 0 es s"

section \<open>The topology as text\<close>

datatype rail = Blank | Bar

record topo_line =
  tl_rails :: "rail list"
  tl_last :: bool             \<comment> \<open>the corner, not the tee\<close>
  tl_kind :: pystr            \<comment> \<open>chooses the mark\<close>
  tl_label :: topo_text
  tl_sublabel :: topo_text
  tl_details :: "TopologyDetail list"

fun topo_node_lines :: "rail list \<Rightarrow> bool \<Rightarrow> bool \<Rightarrow> TopologyNode \<Rightarrow> topo_line list"
  and topo_child_lines :: "rail list \<Rightarrow> bool \<Rightarrow> TopologyNode list \<Rightarrow> topo_line list" where
  "topo_node_lines rails is_last details (TopologyNode i k l sl v ds cs) =
     \<lparr>tl_rails = rails, tl_last = is_last, tl_kind = k, tl_label = l, tl_sublabel = sl,
      tl_details = (if details then ds else [])\<rparr> #
     topo_child_lines (rails @ [if is_last then Blank else Bar]) details cs"
| "topo_child_lines rails details [] = []"
| "topo_child_lines rails details (c # cs) =
     topo_node_lines rails (cs = []) details c @ topo_child_lines rails details cs"

definition topology_lines :: "bool \<Rightarrow> Topology \<Rightarrow> topo_line list" where
  "topology_lines details t = topo_child_lines [] details (node_children (tpl_root t))"

section \<open>Targets\<close>

definition target_specs :: "int list \<Rightarrow> pystr list \<Rightarrow> pystr list \<Rightarrow> pystr list \<Rightarrow> (pystr \<times> pystr) list" where
  "target_specs pids names name_patterns cmdline_patterns =
     map (\<lambda>v. (''pid'', int_dec v)) pids @ map (Pair ''name'') names @ map (Pair ''name_pattern'') name_patterns @
     map (Pair ''cmdline_pattern'') cmdline_patterns"

fun add_specs ::
  "('e, 's) Backend \<Rightarrow> pystr option \<Rightarrow> (pystr \<times> pystr) list \<Rightarrow> TargetRule list \<Rightarrow> 'e \<Rightarrow> 's \<Rightarrow> (exn + TargetRule list) \<times> 's" where
  "add_specs b adapter [] rules e s = (Inr rules, s)"
| "add_specs b adapter ((kind, v) # specs) rules e s =
     (case be_add_target b \<lparr>tr_kind = kind, tr_value = v, tr_adapter = adapter\<rparr> e s of
        (Inl x, s') \<Rightarrow> (Inl x, s')
      | (Inr rules', s') \<Rightarrow> add_specs b adapter specs rules' e s')"

definition rule_line :: "TargetRule \<Rightarrow> line" where
  "rule_line r =
     [Txt (''  '' @ tr_kind r @ ''='' @ tr_value r @
        (case tr_adapter r of None \<Rightarrow> [] | Some a \<Rightarrow> if a = [] then [] else '' (adapter='' @ a @ '')''))]"

definition cli_target_add where
  "cli_target_add b pids names name_patterns cmdline_patterns adapter e s =
     (let specs = target_specs pids names name_patterns cmdline_patterns
      in if specs = [] then ([], ClickException [Phrase ''one of the options is needed''], s)
         else show_result CliRaised (map rule_line) (add_specs b adapter specs [] e s))"

text \<open>The options of \<open>target remove\<close>, in the order in which they are looked at.\<close>

definition chosen_options ::
  "int option \<Rightarrow> pystr option \<Rightarrow> pystr option \<Rightarrow> pystr option \<Rightarrow> (pystr \<times> pystr) list" where
  "chosen_options pid name name_pattern cmdline_pattern =
     List.map_filter (\<lambda>(k, v). map_option (Pair k) v)
       [(''pid'', map_option int_dec pid), (''name'', name), (''name_pattern'', name_pattern),
        (''cmdline_pattern'', cmdline_pattern)]"

definition given_text :: "pystr option \<Rightarrow> bool" where
  "given_text t \<longleftrightarrow> t \<noteq> None \<and> t \<noteq> Some []"

definition remove_choice ::
  "pystr option \<Rightarrow> pystr option \<Rightarrow> (pystr \<times> pystr) list \<Rightarrow> line + pystr \<times> pystr" where
  "remove_choice kind v chosen =
     (if chosen \<noteq> [] \<and> (given_text kind \<or> given_text v) then Inl [Phrase ''positional arguments and options do not mix'']
      else if length chosen > 1 then Inl [Phrase ''one rule at a time'']
      else if chosen \<noteq> [] then Inr (hd chosen)
      else if \<not> (given_text kind \<and> given_text v) then Inl [Phrase ''which rule?'']
      else Inr (the kind, the v))"

definition cli_target_remove where
  "cli_target_remove b kind v pid name name_pattern cmdline_pattern e s =
     (case remove_choice kind v (chosen_options pid name name_pattern cmdline_pattern) of
        Inl err \<Rightarrow> ([], ClickException err, s)
      | Inr (k, x) \<Rightarrow>
          show_result CliRaised
            (\<lambda>rules. [Phrase ''removed: '', Txt (k @ ''='' @ x)] # map (\<lambda>r. [Txt (''  '' @ tr_kind r @ ''='' @ tr_value r)]) rules)
            (be_remove_target b k x e s))"

definition cli_target_list where
  "cli_target_list b e s =
     show_result CliRaised (\<lambda>rules. if rules = [] then [[Phrase ''no rules'']] else map rule_line rules) (be_list_targets b e s)"

end
