(* ===== verification/CliFormat.thy ===== *)
theory CliFormat
  imports Cli
begin

text \<open>
  The numbers of \<open>cli/main.py\<close> as text: the formats \<open>.<d>f\<close> and \<open>.0%\<close>, and \<open>_fmt_rate\<close>.  Python rounds the exact value of a
  float to the nearest decimal, ties to the even one.
\<close>

section \<open>Fixed-point text\<close>

definition round_even :: "pyfloat \<Rightarrow> int" where
  "round_even x =
     (let f = \<lfloor>x\<rfloor>; d = x - of_int f
      in if d < 1 / 2 then f else if d > 1 / 2 then f + 1 else if even f then f else f + 1)"

definition zfill :: "nat \<Rightarrow> pystr \<Rightarrow> pystr" where
  "zfill w s = replicate (w - length s) CHR ''0'' @ s"

text \<open>The digits of the rounded value, cut before the last \<open>d\<close>; the sign of the value is kept.\<close>

definition fmt_fixed :: "nat \<Rightarrow> pyfloat \<Rightarrow> pystr" where
  "fmt_fixed d x =
     (let s = zfill (d + 1) (nat_dec (nat (round_even (\<bar>x\<bar> * 10 ^ d))));
          k = length s - d
      in (if x < 0 then ''-'' else []) @ take k s @ (if d = 0 then [] else ''.'' @ drop k s))"

definition fmt_percent :: "pyfloat \<Rightarrow> pystr" where
  "fmt_percent x = fmt_fixed 0 (x * 100) @ ''%''"

definition fmt_rate :: "pyfloat \<Rightarrow> pystr" where
  "fmt_rate v =
     (if v \<ge> 1000000 then fmt_fixed 2 (v / 1000000) @ ''M/s''
      else if v \<ge> 1000 then fmt_fixed 2 (v / 1000) @ ''K/s''
      else fmt_fixed 0 v @ ''/s'')"

section \<open>What the text says\<close>

text \<open>The value of a decimal text: sign, digits, and digits after the point.\<close>

definition read_fixed :: "pystr \<Rightarrow> pyfloat" where
  "read_fixed t =
     (let neg = (t \<noteq> [] \<and> hd t = CHR ''-''); s = (if neg then tl t else t);
          whole = takeWhile is_digit s; frac = takeWhile is_digit (drop 1 (dropWhile is_digit s));
          v = of_nat (dec_val (whole @ frac)) / 10 ^ length frac
      in if neg then - v else v)"

definition read_rate :: "pystr \<Rightarrow> pyfloat" where
  "read_rate t =
     (let s = take (length t - 2) t; unit = (if s = [] then CHR '' '' else last s)
      in if unit = CHR ''M'' then read_fixed (butlast s) * 1000000
         else if unit = CHR ''K'' then read_fixed (butlast s) * 1000
         else read_fixed s)"

lemma round_even_close: "\<bar>of_int (round_even x) - x\<bar> \<le> 1 / 2"
proof -
  have "of_int \<lfloor>x\<rfloor> \<le> x" "x < of_int \<lfloor>x\<rfloor> + 1" by linarith+
  then show ?thesis by (simp add: round_even_def Let_def abs_le_iff)
qed

lemma round_even_nonneg: "0 \<le> x \<Longrightarrow> 0 \<le> round_even x"
  by (simp add: round_even_def Let_def)

lemma dec_val_zeros: "dec_val (replicate n CHR ''0'' @ s) = dec_val s"
  by (induction n) (simp_all add: dec_val_def digit_val_def)

lemma dec_val_zfill: "dec_val (zfill w s) = dec_val s"
  by (simp add: zfill_def dec_val_zeros)

lemma zfill_digits: "\<forall>c \<in> set s. is_digit c \<Longrightarrow> \<forall>c \<in> set (zfill w s). is_digit c"
  by (auto simp: zfill_def is_digit_def)

lemma length_zfill: "length (zfill w s) = max w (length s)"
  by (simp add: zfill_def max_def)

lemma digits_not_sign: "\<forall>c \<in> set s. is_digit c \<Longrightarrow> s \<noteq> [] \<Longrightarrow> hd s \<noteq> CHR ''-''"
  by (cases s) (auto simp: is_digit_def)

lemma read_fixed_digits:
  assumes "\<forall>c \<in> set s. is_digit c" "d < length s"
  shows "read_fixed ((if neg then ''-'' else []) @ take (length s - d) s @ (if d = 0 then [] else ''.'' @ drop (length s - d) s)) =
    (if neg then - 1 else 1) * of_nat (dec_val s) / 10 ^ d"
proof -
  let ?k = "length s - d"
  let ?t = "take ?k s @ (if d = 0 then [] else ''.'' @ drop ?k s)"
  have whole: "\<forall>c \<in> set (take ?k s). is_digit c" "\<forall>c \<in> set (drop ?k s). is_digit c"
    using assms(1) by (auto dest: in_set_takeD in_set_dropD)
  have point: "\<not> is_digit (CHR ''.'')" by (simp add: is_digit_def)
  have w: "takeWhile is_digit ?t = take ?k s" "dropWhile is_digit ?t = (if d = 0 then [] else ''.'' @ drop ?k s)"
    using whole(1) point by (auto simp: takeWhile_append dropWhile_append takeWhile_eq_all_conv dropWhile_eq_Nil_conv)
  have f: "takeWhile is_digit (drop 1 (if d = 0 then [] else ''.'' @ drop ?k s)) = drop ?k s"
    using whole(2) assms(2) by (auto simp: takeWhile_eq_all_conv)
  have ne: "?t \<noteq> [] \<and> hd ?t \<noteq> CHR ''-''"
    using assms(2) whole(1) digits_not_sign [of "take ?k s"] by (auto simp: hd_append)
  have tw: "takeWhile is_digit (drop ?k s) = drop ?k s" using whole(2) by (simp add: takeWhile_eq_all_conv)
  have "length (drop ?k s) = d" using assms(2) by simp
  moreover have "of_nat (dec_val (take ?k s @ drop ?k s)) = (of_nat (dec_val s) :: pyfloat)" by simp
  ultimately show ?thesis using ne by (cases neg) (simp_all only: read_fixed_def Let_def w f, simp_all add: w f tw)
qed

lemma fmt_fixed_value:
  "read_fixed (fmt_fixed d x) = (if x < 0 then - 1 else 1) * of_int (round_even (\<bar>x\<bar> * 10 ^ d)) / 10 ^ d"
proof -
  let ?n = "round_even (\<bar>x\<bar> * 10 ^ d)" and ?s = "zfill (d + 1) (nat_dec (nat (round_even (\<bar>x\<bar> * 10 ^ d))))"
  have "\<forall>c \<in> set ?s. is_digit c" using nat_dec_digits by (intro zfill_digits) blast
  moreover have "d < length ?s" by (simp add: length_zfill)
  ultimately have "read_fixed (fmt_fixed d x) = (if x < 0 then - 1 else 1) * of_nat (dec_val ?s) / 10 ^ d"
    unfolding fmt_fixed_def Let_def by (rule read_fixed_digits)
  moreover have "of_nat (dec_val ?s) = (of_int ?n :: pyfloat)"
    using round_even_nonneg [of "\<bar>x\<bar> * 10 ^ d"] by (simp add: dec_val_zfill)
  ultimately show ?thesis by simp
qed

lemma abs_quotient:
  fixes a b c :: pyfloat
  assumes "0 < c"
  shows "\<bar>a - b * c\<bar> / c = \<bar>a / c - b\<bar>"
proof -
  have "(a - b * c) / c = a / c - b" using assms by (simp add: diff_divide_distrib)
  with assms show ?thesis by (metis abs_divide abs_of_pos)
qed

lemma fixed_accurate: "\<bar>read_fixed (fmt_fixed d x) - x\<bar> \<le> 1 / 2 / 10 ^ d"
proof -
  let ?n = "of_int (round_even (\<bar>x\<bar> * 10 ^ d)) :: pyfloat"
  have "\<bar>?n - \<bar>x\<bar> * 10 ^ d\<bar> / 10 ^ d \<le> 1 / 2 / 10 ^ d"
    using round_even_close by (rule divide_right_mono) simp
  moreover have "\<bar>?n - \<bar>x\<bar> * 10 ^ d\<bar> / 10 ^ d = \<bar>?n / 10 ^ d - \<bar>x\<bar>\<bar>"
    by (rule abs_quotient) simp
  moreover have "read_fixed (fmt_fixed d x) - x = (if x < 0 then - 1 else 1) * (?n / 10 ^ d - \<bar>x\<bar>)"
    by (simp add: fmt_fixed_value)
  moreover from this have "\<bar>read_fixed (fmt_fixed d x) - x\<bar> = \<bar>?n / 10 ^ d - \<bar>x\<bar>\<bar>"
    by (simp only: abs_mult split: if_split) simp
  ultimately show ?thesis by (simp only:)
qed

lemma fmt_fixed_last: "fmt_fixed d x \<noteq> [] \<and> is_digit (last (fmt_fixed d x))"
proof -
  let ?s = "zfill (d + 1) (nat_dec (nat (round_even (\<bar>x\<bar> * 10 ^ d))))"
  have s: "\<forall>c \<in> set ?s. is_digit c" using nat_dec_digits by (intro zfill_digits) blast
  have len: "d < length ?s" by (simp add: length_zfill)
  have "last (fmt_fixed d x) = last ?s"
    using len by (auto simp: fmt_fixed_def Let_def last_append last_drop)
  moreover have "?s \<noteq> []" using len by (metis less_nat_zero_code list.size(3))
  ultimately show ?thesis using s len by (auto simp: fmt_fixed_def Let_def)
qed

lemma digit_not_unit: "is_digit c \<Longrightarrow> c \<noteq> CHR ''M'' \<and> c \<noteq> CHR ''K''"
  by (auto simp: is_digit_def)

lemma scaled_error:
  fixes r v u :: pyfloat
  assumes "\<bar>r - v / u\<bar> \<le> e" "0 < u"
  shows "\<bar>r * u - v\<bar> \<le> e * u"
proof -
  have "\<bar>r * u - v\<bar> = \<bar>r - v / u\<bar> * u" using assms(2) by (simp add: abs_mult_pos' [symmetric] field_simps abs_mult)
  also have "\<dots> \<le> e * u" using assms by (simp add: mult_right_mono)
  finally show ?thesis .
qed

text \<open>
  C36: the rates on the screen are the rates measured.  The number read back from the text of a rate, with its unit, differs
  from the rate by at most one half, or by half a percent of it where that is more; a number printed with \<open>d\<close> decimals
  is off by at most half a unit of the last one.
\<close>

theorem shown_rate_accurate:
  "\<bar>read_rate (fmt_rate v) - v\<bar> \<le> max (1 / 2) (v / 200) \<and> \<bar>read_fixed (fmt_fixed d x) - x\<bar> \<le> 1 / 2 / 10 ^ d"
proof -
  note fixed = fixed_accurate [of 2 "v / 1000000"] fixed_accurate [of 2 "v / 1000"] fixed_accurate [of 0 v]
  have M: "\<bar>read_fixed (fmt_fixed 2 (v / 1000000)) * 1000000 - v\<bar> \<le> 5000"
    using scaled_error [OF fixed(1)] by simp
  have K: "\<bar>read_fixed (fmt_fixed 2 (v / 1000)) * 1000 - v\<bar> \<le> 5"
    using scaled_error [OF fixed(2)] by simp
  have unit: "read_rate (s @ ''M/s'') = read_fixed s * 1000000" "read_rate (s @ ''K/s'') = read_fixed s * 1000" for s
    by (simp_all add: read_rate_def Let_def butlast_append)
  have plain: "read_rate (fmt_fixed 0 v @ ''/s'') = read_fixed (fmt_fixed 0 v)"
    using fmt_fixed_last [of 0 v] digit_not_unit by (simp add: read_rate_def Let_def)
  consider "1000000 \<le> v" | "1000 \<le> v" "v < 1000000" | "v < 1000" by linarith
  then have "\<bar>read_rate (fmt_rate v) - v\<bar> \<le> max (1 / 2) (v / 200)"
  proof cases
    case 1
    then have "5000 \<le> v / 200" by simp
    with 1 M show ?thesis by (simp add: fmt_rate_def unit le_max_iff_disj)
  next
    case 2
    then have "5 \<le> v / 200" by simp
    with 2 K show ?thesis by (simp add: fmt_rate_def unit le_max_iff_disj)
  next
    case 3
    with fixed(3) show ?thesis by (simp add: fmt_rate_def plain le_max_iff_disj)
  qed
  with fixed_accurate show ?thesis by blast
qed

end
