(* ===== verification/CliReport.thy ===== *)
theory CliReport
  imports CliFormat
begin

text \<open>
  The other commands of \<open>cli/main.py\<close>: performance, events, error counters, event kinds, processes, profile and \<open>doctor\<close>, with
  the loop of \<open>--watch\<close> and the check of \<open>doctor\<close> in \<open>backend/drgn_backend.py\<close>.  Colours are not modelled; marks and Korean
  phrases are named pieces.
\<close>

section \<open>Repeating\<close>

text \<open>
  \<open>--watch\<close>: clear, show, sleep.  The list holds the environments of the rounds until the user interrupts between two of them.
\<close>

datatype screen_act = Clear | Screen "line list" | Pause pyfloat

fun show_loop :: "pyfloat \<Rightarrow> ('e \<Rightarrow> 's \<Rightarrow> 's cli) \<Rightarrow> 'e list \<Rightarrow> 's \<Rightarrow> screen_act list \<times> cli_end \<times> 's" where
  "show_loop interval once [] s = ([], Done, s)"
| "show_loop interval once (e # es) s =
     (case once e s of
        (ls, Done, s') \<Rightarrow>
          (case show_loop interval once es s' of
             (acts, fin, s'') \<Rightarrow> (Clear # Screen ls # Pause interval # acts, fin, s''))
      | (ls, fin, s') \<Rightarrow> ([Clear, Screen ls], fin, s'))"

definition opt_msg :: "message option \<Rightarrow> cpiece" where
  "opt_msg m = (case m of None \<Rightarrow> Txt ''None'' | Some x \<Rightarrow> Msg x)"

definition notice :: "cpiece list \<Rightarrow> line" where
  "notice ps = Phrase ''notice'' # ps"

section \<open>Performance\<close>

definition row_label :: "spark_key \<Rightarrow> pystr" where
  "row_label k = (case k of KeyAll \<Rightarrow> ''ALL'' | KeyQid i \<Rightarrow> int_dec i)"

definition perf_row :: "spark_key \<Rightarrow> QueuePerf \<Rightarrow> pystr" where
  "perf_row k q =
     rjust 4 (row_label k) @ '' '' @ rjust 9 (fmt_fixed 0 (qp_iops q)) @ '' '' @ rjust 9 (fmt_fixed 0 (qp_read_iops q)) @ '' '' @
     rjust 9 (fmt_fixed 0 (qp_write_iops q)) @ '' '' @ rjust 10 (fmt_fixed 2 (qp_bandwidth_bytes_per_sec q / 1000000)) @ '' '' @
     rjust 9 (fmt_fixed 1 (qp_avg_latency_us q)) @ '' '' @ rjust 9 (fmt_fixed 1 (qp_p50_latency_us q)) @ '' '' @
     rjust 9 (fmt_fixed 1 (qp_p95_latency_us q)) @ '' '' @ rjust 9 (fmt_fixed 1 (qp_p99_latency_us q)) @ '' '' @
     rjust 10 (fmt_fixed 1 (qp_p999_latency_us q))"

definition perf_header :: "bool \<Rightarrow> line" where
  "perf_header watch =
     Txt (rjust 4 ''qid'' @ '' '' @ rjust 9 ''iops'' @ '' '' @ rjust 9 ''read/s'' @ '' '' @ rjust 9 ''write/s'' @ '' '' @
       rjust 10 ''BW(MB/s)'' @ '' '' @ rjust 9 ''avg(us)'' @ '' '' @ rjust 9 ''p50(us)'' @ '' '' @ rjust 9 ''p95(us)'' @ '' '' @
       rjust 9 ''p99(us)'' @ '' '' @ rjust 10 ''p99.9(us)'') #
     (if watch then [Txt '' '', Phrase ''trend (IOPS)''] else [])"

definition rule_above :: "spark_key \<Rightarrow> line list" where
  "rule_above k = (if k = KeyAll then [[Txt (replicate 96 CHR ''-'')]] else [])"

fun perf_print :: "bool \<Rightarrow> (spark_key \<times> QueuePerf) list \<Rightarrow> history \<Rightarrow> history cli" where
  "perf_print watch [] h = ([], Done, h)"
| "perf_print watch ((k, q) # rows) h =
     (if \<not> watch then
        (case perf_print watch rows h of (ls, fin, h') \<Rightarrow> (rule_above k @ [Txt (perf_row k q)] # ls, fin, h'))
      else
        (let h1 = push_iops k (qp_iops q) h
         in case sparkline (map Some (dict_get h1 k [])) of
              Inl x \<Rightarrow> (rule_above k, CliRaised x, h1)
            | Inr sp \<Rightarrow>
                (case perf_print watch rows h1 of
                   (ls, fin, h') \<Rightarrow> (rule_above k @ [Txt (perf_row k q), Txt '' '', Spark sp] # ls, fin, h'))))"

definition perf_show :: "bool \<Rightarrow> DevicePerf \<Rightarrow> history \<Rightarrow> history cli" where
  "perf_show watch p h =
     (if \<not> dp_available p then ([notice [opt_msg (dp_error p)]], Done, h)
      else case perf_print watch (perf_rows p) h of (ls, fin, h') \<Rightarrow> (perf_header watch # ls, fin, h'))"

definition perf_round ::
  "('e, 's) Backend \<Rightarrow> pystr \<Rightarrow> bool \<Rightarrow> 'e \<Rightarrow> history \<times> 's \<Rightarrow> (history \<times> 's) cli" where
  "perf_round b device watch e = (\<lambda>(h, s).
     (case be_get_performance b device e s of
        (Inl x, s') \<Rightarrow> ([], device_error device x, (h, s'))
      | (Inr p, s') \<Rightarrow> (case perf_show watch p h of (ls, fin, h') \<Rightarrow> (ls, fin, (h', s')))))"

definition cli_perf :: "('e, 's) Backend \<Rightarrow> pystr \<Rightarrow> 'e \<Rightarrow> 's \<Rightarrow> (history \<times> 's) cli" where
  "cli_perf b device e s = perf_round b device False e ([], s)"

definition cli_perf_watch ::
  "('e, 's) Backend \<Rightarrow> pystr \<Rightarrow> 'e list \<Rightarrow> 's \<Rightarrow> screen_act list \<times> cli_end \<times> history \<times> 's" where
  "cli_perf_watch b device es s = show_loop 1 (perf_round b device True) es ([], s)"

section \<open>Events\<close>

text \<open>A detail that the event lacks is \<open>None\<close>, whose attributes cannot be read.\<close>

definition render_timeout_detail :: "NvmeEvent \<Rightarrow> exn + line list" where
  "render_timeout_detail e =
     (case ev_timeout e of
        None \<Rightarrow> Inl AttributeError
      | Some d \<Rightarrow>
          Inr [[Txt (''      tag='' @ int_dec (td_tag d) @ '' opcode='' @ td_opcode_name d @ ''('' @ alt_hex 4 (td_opcode d) @
                  '') nsid='' @ int_dec (td_nsid d) @ '' flags='' @ alt_hex 4 (td_flags d) @ '' ''),
                Phrase ''elapsed'', Txt (''='' @ fmt_fixed 1 (td_elapsed_us d / 1000) @ ''ms'')],
               [Txt (''      '' @ join_space
                  [''cdw10='' @ alt_hex 10 (td_cdw10 d), ''cdw11='' @ alt_hex 10 (td_cdw11 d), ''cdw12='' @ alt_hex 10 (td_cdw12 d),
                   ''cdw13='' @ alt_hex 10 (td_cdw13 d), ''cdw14='' @ alt_hex 10 (td_cdw14 d), ''cdw15='' @ alt_hex 10 (td_cdw15 d)])]])"

fun join_comma :: "line list \<Rightarrow> line" where
  "join_comma [] = []"
| "join_comma [x] = x"
| "join_comma (x # xs) = x @ Txt '', '' # join_comma xs"

definition error_flags :: "ErrorEventDetail \<Rightarrow> line list" where
  "error_flags d =
     (if ed_dnr d then [[Txt ''DNR('', Phrase ''no retry'', Txt '')'']] else []) @
     (if ed_more d then [[Txt ''More('', Phrase ''more in the error log'', Txt '')'']] else []) @
     (if ed_crd d \<noteq> 0 then [[Txt (''CRD='' @ int_dec (ed_crd d))]] else [])"

definition render_error_detail :: "NvmeEvent \<Rightarrow> exn + line list" where
  "render_error_detail e =
     (case ev_error e of
        None \<Rightarrow> Inl AttributeError
      | Some d \<Rightarrow>
          Inr [Txt (''      status='' @ alt_hex 6 (ed_status d) @ '' SCT='' @ int_dec (ed_sct d) @ ''('' @ ed_sct_name d @ '') SC='' @
                 alt_hex 4 (ed_sc d) @ ''('' @ ed_sc_name d @ '')'') #
                 (if error_flags d = [] then [] else Txt '' ['' # join_comma (error_flags d) @ [Txt '']'']),
               [Txt (''      cid='' @ int_dec (ed_cid d) @ '' tag='' @ int_dec (ed_tag d) @ '' opcode='' @ ed_opcode_name d @ ''('' @
                  alt_hex 4 (ed_opcode d) @ '') nsid='' @ int_dec (ed_nsid d) @ '' retries='' @ int_dec (ed_retries d) @ '' ''),
                Phrase ''submit to completion'', Txt (''='' @ fmt_fixed 1 (ed_elapsed_us d / 1000) @ ''ms'')] @
                 (if ed_lba_valid d then [Txt ('' slba='' @ int_dec (ed_slba d) @ '' nlb='' @ int_dec (ed_nlb d))]
                  else if \<not> ed_submit_cached d then [Phrase ''submission not seen'']
                  else [])])"

definition render_detail :: "NvmeEvent \<Rightarrow> exn + line list" where
  "render_detail e =
     (if ev_kind e = ''timeout'' then render_timeout_detail e
      else if ev_kind e = ''error'' then render_error_detail e
      else Inr [])"

definition event_line :: "(pyfloat \<Rightarrow> pystr) \<Rightarrow> NvmeEvent \<Rightarrow> line" where
  "event_line stamp e =
     [Txt (rjust 19 (stamp (ev_observed_at e)) @ '' '' @ rjust 10 (ev_kind e) @ '' '' @ rjust 4 (int_dec (ev_qid e)) @ ''  ''),
      Msg (ev_summary e)]"

fun events_print :: "(pyfloat \<Rightarrow> pystr) \<Rightarrow> NvmeEvent list \<Rightarrow> line list \<times> cli_end" where
  "events_print stamp [] = ([], Done)"
| "events_print stamp (e # es) =
     (case render_detail e of
        Inl x \<Rightarrow> ([event_line stamp e], CliRaised x)
      | Inr ds \<Rightarrow> (case events_print stamp es of (ls, fin) \<Rightarrow> (event_line stamp e # ds @ ls, fin)))"

definition events_show :: "(pyfloat \<Rightarrow> pystr) \<Rightarrow> pystr option \<Rightarrow> NvmeEvent list \<Rightarrow> line list \<times> cli_end" where
  "events_show stamp kind evs =
     (let shown = (if given_text kind then filter (\<lambda>e. Some (ev_kind e) = kind) evs else evs)
      in if shown = [] then
           ([notice (Phrase ''no events'' # (if given_text kind then [Phrase ''kind'', Txt (''='' @ the kind @ '')'')] else []))], Done)
         else
           (case events_print stamp shown of
              (ls, fin) \<Rightarrow> ([Txt (rjust 19 ''time'' @ '' ''), Phrase ''kind'', Txt ('' '' @ rjust 4 ''qid'' @ ''  ''), Phrase ''summary''] # ls, fin)))"

definition events_round ::
  "('e, 's) Backend \<Rightarrow> (pyfloat \<Rightarrow> pystr) \<Rightarrow> pystr \<Rightarrow> pystr option \<Rightarrow> 'e \<Rightarrow> 's \<Rightarrow> 's cli" where
  "events_round b stamp device kind e s =
     (case be_get_events b device e s of
        (Inl x, s') \<Rightarrow> ([], device_error device x, s')
      | (Inr evs, s') \<Rightarrow> (case events_show stamp kind evs of (ls, fin) \<Rightarrow> (ls, fin, s')))"

definition cli_events_watch where
  "cli_events_watch b stamp device kind es s = show_loop 1 (events_round b stamp device kind) es s"

definition count_line :: "ErrorStatusCount \<Rightarrow> line" where
  "count_line c =
     [Txt (rjust 4 (int_dec (sc_sct c)) @ '' '' @ alt_hex 6 (sc_sc c) @ '' '' @ ljust 22 (sc_sct_name c) @ '' '' @
        ljust 40 (sc_sc_name c) @ '' '' @ rjust 8 (int_dec (sc_count c)))]"

definition error_stats_lines :: "DeviceErrorStats \<Rightarrow> line list" where
  "error_stats_lines st =
     (if \<not> es_available st then [notice [opt_msg (es_error st)]]
      else if es_counts st = [] then [notice [Phrase ''no failed completions'']]
      else
        [Txt (rjust 4 ''SCT'' @ '' '' @ rjust 6 ''SC'' @ '' ''), Phrase ''type'', Phrase ''status code'', Phrase ''count''] #
        map count_line (es_counts st) @
        [[Txt (rjust 4 [] @ '' '' @ rjust 6 [] @ '' '' @ ljust 22 [] @ '' ''), Phrase ''total'',
          Txt ('' '' @ rjust 8 (int_dec (es_total st)))]])"

definition cli_error_stats where
  "cli_error_stats b device e s = show_result (device_error device) error_stats_lines (be_get_error_stats b device e s)"

definition cli_error_stats_watch where
  "cli_error_stats_watch b device es s = show_loop 1 (cli_error_stats b device) es s"

definition event_kind_lines :: "EventKindInfo \<Rightarrow> line list" where
  "event_kind_lines k =
     [[Phrase (if ek_active k then ''collected'' else ''not collected''), Txt (''  '' @ ljust 8 (ek_kind k) @ '' ''), Msg (ek_label k)],
      [Txt ''           '', Phrase ''source'', Txt ('': '' @ ek_source k)],
      [Txt ''           '', Msg (ek_description k)]]"

definition cli_event_kinds where
  "cli_event_kinds b e s = show_result CliRaised (\<lambda>ks. concat (map event_kind_lines ks)) (be_list_event_kinds b e s)"

section \<open>Processes\<close>

fun join_names :: "pystr list \<Rightarrow> pystr" where
  "join_names [] = []"
| "join_names [s] = s"
| "join_names (s # ss) = s @ '','' @ join_names ss"

definition or_dash :: "pystr \<Rightarrow> pystr" where
  "or_dash s = (if s = [] then ''-'' else s)"

definition process_lines :: "bool \<Rightarrow> ProcessListEntry \<Rightarrow> line list" where
  "process_lines show_cmdline e =
     (let i = le_info e
      in [[Txt (rjust 7 (int_dec (pi_pid i)) @ '' '' @ ljust 16 (take 16 (pi_comm i)) @ '' '' @
             rjust 4 (int_dec (pi_thread_count i)) @ '' '' @ rjust 10 (fmt_rate (le_io_rate e)) @ ''  '' @
             ljust 12 (or_dash (join_names (le_target_devices e))) @ '' ''),
           (if le_is_target e then Phrase ''target mark'' else Txt '' '')]] @
         (case le_unselectable_reason e of
            Some r \<Rightarrow> if le_selectable e then [] else [[Phrase ''cannot be selected'', Msg r]]
          | None \<Rightarrow> []) @
         (if show_cmdline \<and> pi_cmdline i \<noteq> [] then [[Phrase ''command line'', Txt (pi_cmdline i)]] else []))"

definition processes_lines :: "bool \<Rightarrow> ProcessListEntry list \<Rightarrow> line list" where
  "processes_lines show_cmdline es =
     (if es = [] then [notice [Phrase ''no such process'']]
      else
        [Txt (rjust 7 ''PID'' @ '' '' @ ljust 16 ''NAME'' @ '' '' @ rjust 4 ''THR'' @ '' '' @ rjust 10 ''IO RATE'' @ ''  '' @
           ljust 12 ''DEVICE'' @ '' ''), Phrase ''target''] # concat (map (process_lines show_cmdline) es))"

definition cli_processes where
  "cli_processes b show_all show_cmdline e s =
     show_result CliRaised (processes_lines show_cmdline) (be_list_processes b (\<not> show_all) e s)"

section \<open>Profile\<close>

definition opt_int :: "int option \<Rightarrow> pystr" where
  "opt_int i = (case i of None \<Rightarrow> ''None'' | Some n \<Rightarrow> int_dec n)"

definition opt_str :: "pystr option \<Rightarrow> pystr" where
  "opt_str t = (case t of None \<Rightarrow> ''None'' | Some s \<Rightarrow> s)"

definition opt_bool :: "bool option \<Rightarrow> pystr" where
  "opt_bool v = (case v of None \<Rightarrow> ''None'' | Some True \<Rightarrow> ''True'' | Some False \<Rightarrow> ''False'')"

definition aggregate_lines :: "MeasuredWorkload option \<Rightarrow> line list" where
  "aggregate_lines agg =
     (case agg of
        None \<Rightarrow> []
      | Some a \<Rightarrow>
          if mw_iops a = 0 then []
          else [[Phrase ''measured in all'', Txt (fmt_rate (mw_iops a) @ '' IOPS, '' @ fmt_fixed 1 (mw_bandwidth_bps a / 1000000) @
                   '' MB/s, read '' @ fmt_percent (mw_read_ratio a) @ ''/write '' @ fmt_percent (mw_write_ratio a) @ '', QD~'' @
                   fmt_fixed 1 (mw_queue_depth_avg a))]])"

definition expected_lines :: "WorkloadSpec option \<Rightarrow> line list" where
  "expected_lines w =
     (case w of
        None \<Rightarrow> []
      | Some x \<Rightarrow> [[Phrase ''expected'', Txt (''bs='' @ opt_int (ws_io_size x) @ '' rw='' @ opt_str (ws_rw x) @ '' QD='' @
          opt_int (ws_queue_depth x) @ '' engine='' @ opt_str (ws_ioengine x) @ '' direct='' @ opt_bool (ws_direct x))]])"

definition measured_lines :: "MeasuredWorkload option \<Rightarrow> line list" where
  "measured_lines w =
     (case w of
        None \<Rightarrow> []
      | Some m \<Rightarrow> [[Phrase ''measured'', Txt (''bs='' @ int_dec (mw_io_size_dominant m) @ '' r/w='' @ fmt_percent (mw_read_ratio m) @
          ''/'' @ fmt_percent (mw_write_ratio m) @ '' QD~'' @ fmt_fixed 1 (mw_queue_depth_avg m) @ '' '' @
          fmt_fixed 0 (mw_iops m) @ '' IOPS'')]])"

definition badge :: "bool option \<Rightarrow> cpiece" where
  "badge v = Phrase (case v of None \<Rightarrow> ''undecided'' | Some True \<Rightarrow> ''match'' | Some False \<Rightarrow> ''mismatch'')"

definition group_lines :: "LogicalGroup \<Rightarrow> line list" where
  "group_lines g =
     [[Phrase ''group'', Txt (lg_name g @ '' ['' @ lg_type g), (if lg_inferred g then Phrase ''inferred'' else Txt []), Txt ''] '',
       Phrase ''threads'', Txt (nat_dec (length (lg_thread_tids g)) @ ''  ''), badge (lg_expectation_match g)]] @
     expected_lines (lg_expected_workload g) @ measured_lines (lg_measured_workload g) @
     map (\<lambda>r. [Txt ''        - '', Msg r]) (lg_mismatch_reasons g)"

definition session_lines :: "Session \<Rightarrow> line list" where
  "session_lines s =
     [[Txt (''['' @ se_status s @ ''] '' @ se_comm s @ '' (pid '' @ int_dec (se_pid s) @ '')  adapter='' @ se_adapter s @ ''  ''),
       Phrase ''rule'', Txt (''='' @ (case se_matched_rule s of None \<Rightarrow> ''-'' | Some r \<Rightarrow> or_dash r) @ ''  ''), Phrase ''devices'',
       Txt (''='' @ or_dash (join_names (se_devices s)))],
      [Txt (''   session='' @ se_session_id s)],
      [Txt ''   cmdline: '', (if se_cmdline s = [] then Phrase ''(none)'' else Txt (se_cmdline s))]] @
     aggregate_lines (se_aggregate s) @ concat (map group_lines (se_logical_groups s))"

definition unmonitored_line :: "UnmonitoredIo \<Rightarrow> line" where
  "unmonitored_line u =
     [Txt (''   pid '' @ int_dec (um_pid u) @ '' '' @ um_comm u @ '' -> '' @ um_device u @ ''  '' @ fmt_rate (um_io_rate u))]"

definition device_line :: "DeviceAttribution \<Rightarrow> line" where
  "device_line d =
     [Txt (da_name d @ '': ''), Phrase ''total'', Txt (fmt_rate (da_total_iops d)), Phrase ''attributed'',
      Txt (fmt_rate (da_attributed_iops d)), Phrase ''not attributed'', Txt (fmt_rate (da_unattributed_iops d))] @
     (if da_multi_process_warning d then [Phrase ''several processes''] else [])"

definition profile_lines :: "ProfileSnapshot \<Rightarrow> line list" where
  "profile_lines snap =
     (case sn_error snap of None \<Rightarrow> [] | Some m \<Rightarrow> [notice [Msg m]]) @
     (if sn_sessions snap = [] then [notice [Phrase ''no active session'']] else []) @
     concat (map session_lines (sn_sessions snap)) @
     (if sn_unmonitored_io snap = [] then []
      else [Phrase ''warning: others use the device''] # map unmonitored_line (sn_unmonitored_io snap)) @
     map device_line (sn_devices snap)"

definition cli_profile where
  "cli_profile b e s = show_result CliRaised profile_lines (be_get_profile b e s)"

definition cli_profile_watch where
  "cli_profile_watch b es s = show_loop 2 (cli_profile b) es s"

section \<open>Starting and \<open>doctor\<close>\<close>

text \<open>\<open>cli\<close>: the warning of a local drgn session without root, and the backend of the options.\<close>

definition cli_start ::
  "pystr \<Rightarrow> pystr option \<Rightarrow> pystr option \<Rightarrow> pystr list \<Rightarrow> pystr option \<Rightarrow> int \<Rightarrow> line list \<times> (exn + backend_choice)" where
  "cli_start backend qemu_qmp qemu_vmlinux extra_symbols ebpf_log euid =
     ((if backend = ''drgn'' \<and> \<not> given_text qemu_qmp \<and> euid \<noteq> 0 then [[Phrase ''warning: root needed'']] else []),
      get_backend backend (option_kwargs backend qemu_qmp qemu_vmlinux extra_symbols ebpf_log))"

text \<open>
  \<open>doctor\<close> of \<open>backend/drgn_backend.py\<close>: what the probes answer is a record.  The last probe calls \<open>_iommu_enabled\<close>, a name the
  module does not have.
\<close>

record probes =
  pr_import_error :: "pystr option"          \<comment> \<open>\<open>ImportError\<close> of drgn\<close>
  pr_program :: "exn + unit"                 \<comment> \<open>\<open>_ensure_program\<close>\<close>
  pr_release :: "exn + pystr"                \<comment> \<open>\<open>init_uts_ns.name.release\<close>\<close>
  pr_nvme_dev_size :: "exn + int"            \<comment> \<open>\<open>struct nvme_dev\<close>\<close>

record check =
  ck_name :: pystr
  ck_ok :: bool
  ck_detail :: pystr

definition probe :: "exn list \<Rightarrow> pystr \<Rightarrow> ('a \<Rightarrow> pystr) \<Rightarrow> (exn \<Rightarrow> pystr) \<Rightarrow> exn + 'a \<Rightarrow> exn + check" where
  "probe caught name detail text r =
     (case r of
        Inr x \<Rightarrow> Inr \<lparr>ck_name = name, ck_ok = True, ck_detail = detail x\<rparr>
      | Inl e \<Rightarrow> if e \<in> set caught then Inr \<lparr>ck_name = name, ck_ok = False, ck_detail = text e\<rparr> else Inl e)"

definition doctor :: "(exn \<Rightarrow> pystr) \<Rightarrow> probes \<Rightarrow> exn + bool \<times> check list" where
  "doctor exn_text p =
     (case pr_import_error p of
        Some m \<Rightarrow> Inr (False, [\<lparr>ck_name = ''drgn import'', ck_ok = False, ck_detail = m\<rparr>])
      | None \<Rightarrow>
          let imported = \<lparr>ck_name = ''drgn import'', ck_ok = True, ck_detail = []\<rparr>
          in case pr_program p of
               Inl e \<Rightarrow> Inr (False, [imported, \<lparr>ck_name = ''connect'', ck_ok = False, ck_detail = exn_text e\<rparr>])
             | Inr _ \<Rightarrow>
                 bindE (probe [LookupError, FaultError] ''init_uts_ns'' (\<lambda>r. ''release='' @ r) exn_text (pr_release p)) (\<lambda>uts.
                 bindE (probe [LookupError] ''struct nvme_dev'' (\<lambda>n. ''size='' @ int_dec n @ ''B'') exn_text (pr_nvme_dev_size p)) (\<lambda>dev.
                   Inl (OtherError ''NameError''))))"

definition check_line :: "check \<Rightarrow> line" where
  "check_line c =
     [Txt (''['' @ (if ck_ok c then ''OK '' else ''FAIL'') @ ''] '' @ ck_name c @
        (if ck_detail c = [] then [] else '' - '' @ ck_detail c))]"

text \<open>The command: its lines and the exit status, or the exception.\<close>

definition cli_doctor :: "pystr \<Rightarrow> (exn \<Rightarrow> pystr) \<Rightarrow> probes \<Rightarrow> line list \<times> (exn + int)" where
  "cli_doctor kind exn_text p =
     (if kind \<noteq> ''drgn'' then ([[Phrase ''the mock is always fine'']], Inr 0)
      else case doctor exn_text p of
             Inl e \<Rightarrow> ([], Inl e)
           | Inr (ok, checks) \<Rightarrow> (map check_line checks, Inr (if ok then 0 else 1)))"

end
