(* ===== verification/CliLaws.thy ===== *)
theory CliLaws
  imports Cli ConvertLaws
begin

text \<open>
  What the command line shows: dumps, sparklines, histories and drawings carry the data they are made of, and the
  options of \<open>target add\<close> and \<open>target remove\<close> correspond.
\<close>

section \<open>Hex dumps read back\<close>

text \<open>Reading a line: skip the address, take the 47 columns of bytes.\<close>

definition dump_columns :: "pystr \<Rightarrow> pystr" where
  "dump_columns l = take 47 (drop 2 (dropWhile (\<lambda>c. c \<noteq> CHR '' '') (drop 2 l)))"

fun read_bytes :: "pystr \<Rightarrow> pybytes" where
  "read_bytes (h # l # s) =
     (if h = CHR '' '' then [] else char_of (16 * hexdigit_val h + hexdigit_val l) # read_bytes (drop 1 s))"
| "read_bytes s = []"

definition read_dump :: "pystr list \<Rightarrow> pybytes" where
  "read_dump ls = concat (map (\<lambda>l. read_bytes (dump_columns l)) ls)"

lemma hexdigit_not_space: "d < 16 \<Longrightarrow> hexdigit d \<noteq> CHR '' ''"
proof
  assume "d < 16" "hexdigit d = CHR '' ''"
  moreover have "code (CHR '' '') = 32" by simp
  ultimately show False by (auto simp: hexdigit_def of_char_of take_bit_nat_def split: if_splits dest!: arg_cong [where f = "of_char :: char \<Rightarrow> nat"])
qed

lemma nat_hex_no_space: "CHR '' '' \<notin> set (nat_hex n)"
proof (induction n rule: nat_hex.induct)
  case (1 n)
  then show ?case
    using hexdigit_not_space [of n] hexdigit_not_space [of "n mod 16"] by (subst nat_hex.simps) auto
qed

lemma alt_hex_no_space: "CHR '' '' \<notin> set (alt_hex w i)"
  using nat_hex_no_space by (auto simp: alt_hex_def Let_def)

lemma hexdigit_0: "hexdigit 0 = CHR ''0''"
  by code_simp

lemma hex_byte_digits: "hex_byte c = [hexdigit (code c div 16), hexdigit (code c mod 16)]"
proof -
  have "code c < 256" by simp
  have "nat_hex (code c) = (if code c < 16 then [hexdigit (code c)] else [hexdigit (code c div 16), hexdigit (code c mod 16)])"
    using nat_hex.simps [of "code c"] nat_hex.simps [of "code c div 16"] \<open>code c < 256\<close>
    by (simp add: div_less_iff_less_mult)
  then show ?thesis by (simp add: hex_byte_def fmt_hex_def hexdigit_0)
qed

lemma high_digit: "code c div 16 < 16"
proof -
  have "code c < 256" by simp
  then show ?thesis by (simp add: div_less_iff_less_mult)
qed

lemma length_join: "length (join_space (map hex_byte cs)) = 3 * length cs - 1"
  by (induction cs rule: induct_list012) (auto simp: hex_byte_digits)

lemma read_bytes_spaces: "list_all ((=) (CHR '' '')) pad \<Longrightarrow> read_bytes pad = []"
  by (cases pad rule: read_bytes.cases) auto

lemma read_bytes_join:
  "list_all ((=) (CHR '' '')) pad \<Longrightarrow> read_bytes (join_space (map hex_byte cs) @ pad) = cs"
proof (induction cs rule: induct_list012)
  case (2 c)
  then have "list_all ((=) (CHR '' '')) (drop 1 pad)" by (cases pad) auto
  then show ?case
    by (simp add: hex_byte_digits hexdigit_not_space high_digit read_bytes_spaces)
qed (simp_all add: read_bytes_spaces hex_byte_digits hexdigit_not_space high_digit)

lemma dump_columns_line:
  assumes "length chunk \<le> 16"
  shows "dump_columns (hexdump_line addr chunk) = ljust 47 (join_space (map hex_byte chunk))"
proof -
  let ?h = "join_space (map hex_byte chunk)"
  have len: "length (ljust 47 ?h) = 47" using assms by (simp add: ljust_def length_join)
  have "dropWhile (\<lambda>c. c \<noteq> CHR '' '') (alt_hex 10 addr @ ''  '' @ r) = ''  '' @ r" for r
    using alt_hex_no_space [of 10 addr] by (subst dropWhile_append2) auto
  then show ?thesis using len by (simp add: dump_columns_def hexdump_line_def)
qed

lemma read_line: "length chunk \<le> 16 \<Longrightarrow> read_bytes (dump_columns (hexdump_line addr chunk)) = chunk"
  unfolding dump_columns_line ljust_def by (rule read_bytes_join) (simp add: list_all_iff)

lemma read_dump_lines: "read_dump (hexdump_lines data addr) = data"
proof (induction data addr rule: hexdump_lines.induct)
  case (1 data addr)
  show ?case
  proof (cases "data = []")
    case False
    with 1 have "read_dump (hexdump_lines (drop 16 data) (addr + 16)) = drop 16 data" by simp
    with False show ?thesis
      by (subst hexdump_lines.simps) (simp add: read_dump_def read_line)
  qed (simp add: hexdump_lines.simps read_dump_def)
qed

lemma hexdump_addresses:
  "i < length (hexdump_lines data addr) \<Longrightarrow>
   prefix (''  '' @ alt_hex 10 (addr + 16 * int i) @ ''  '') (hexdump_lines data addr ! i)"
proof (induction data addr arbitrary: i rule: hexdump_lines.induct)
  case (1 data addr)
  show ?case
  proof (cases "data = []")
    case True
    with 1(2) show ?thesis by (simp add: hexdump_lines.simps)
  next
    case False
    then have eq: "hexdump_lines data addr = hexdump_line addr (take 16 data) # hexdump_lines (drop 16 data) (addr + 16)"
      by (subst hexdump_lines.simps) simp
    show ?thesis
    proof (cases i)
      case 0
      then show ?thesis by (simp add: eq hexdump_line_def)
    next
      case (Suc j)
      with 1(1) [OF False, of j] 1(2) show ?thesis by (simp add: eq algebra_simps)
    qed
  qed
qed

text \<open>
  C33: a printed page can be read back.  The byte columns of a hex dump hold exactly the bytes of the page, in order and for
  every length, sixteen to a line, and line \<open>i\<close> starts with the address of its first byte.
\<close>

theorem hexdump_roundtrip:
  "read_dump (hexdump_lines data addr) = data \<and>
   list_all (\<lambda>i. prefix (''  '' @ alt_hex 10 (addr + 16 * int i) @ ''  '') (hexdump_lines data addr ! i))
     [0..<length (hexdump_lines data addr)]"
  using read_dump_lines hexdump_addresses by (simp add: list_all_iff)

section \<open>Sparklines and histories\<close>

lemma spark_value:
  assumes "0 \<le> v" "v \<le> hi" "0 < hi"
  shows "spark_char (min (SPARK_COUNT - 1) (trunc (v / hi * of_int (SPARK_COUNT - 1)))) = Inr \<lfloor>v * 7 / hi\<rfloor>"
    and "0 \<le> \<lfloor>v * 7 / hi\<rfloor>" and "\<lfloor>v * 7 / hi\<rfloor> \<le> 7"
proof -
  have "v * 7 / hi \<le> 7" using assms by (simp add: divide_le_eq)
  then show le: "\<lfloor>v * 7 / hi\<rfloor> \<le> 7" by linarith
  have pos: "0 \<le> v * 7 / hi" using assms by simp
  then show ge: "0 \<le> \<lfloor>v * 7 / hi\<rfloor>" by simp
  show "spark_char (min (SPARK_COUNT - 1) (trunc (v / hi * of_int (SPARK_COUNT - 1)))) = Inr \<lfloor>v * 7 / hi\<rfloor>"
  proof -
    have "7 \<le> v * 7 / hi \<Longrightarrow> \<lfloor>v * 7 / hi\<rfloor> = 7" using le by linarith
    with pos le ge show ?thesis by (auto simp: SPARK_COUNT_def spark_char_def trunc_def min_def)
  qed
qed

lemma mapE_const: "(\<And>x. x \<in> set xs \<Longrightarrow> f x = Inr (g x)) \<Longrightarrow> mapE f xs = Inr (map g xs)"
  by (induction xs) auto

text \<open>
  The sparkline is in scale.  For rates that are not negative, and not all zero, every value gets the block of
  its share of the largest, so the largest gets the tallest of the eight, the order of the values is kept and
  no index is out of range; absent values are left out.
\<close>

theorem sparkline_in_scale:
  assumes "vals = List.map_filter id values" and "\<forall>v \<in> set vals. 0 \<le> v" and "hi = Max (set vals)" and "0 < hi" and "vals \<noteq> []"
  shows "sparkline values = Inr (map (\<lambda>v. \<lfloor>v * 7 / hi\<rfloor>) vals) \<and> \<lfloor>hi * 7 / hi\<rfloor> = 7 \<and>
    (\<forall>v \<in> set vals. 0 \<le> \<lfloor>v * 7 / hi\<rfloor> \<and> \<lfloor>v * 7 / hi\<rfloor> \<le> 7)"
proof -
  have le: "v \<le> hi" if "v \<in> set vals" for v using that assms(3) by simp
  have "mapE (\<lambda>v. spark_char (min (SPARK_COUNT - 1) (trunc (v / hi * of_int (SPARK_COUNT - 1))))) vals =
      Inr (map (\<lambda>v. \<lfloor>v * 7 / hi\<rfloor>) vals)"
    by (rule mapE_const) (use assms(2,4) le spark_value(1) in blast)
  then have "sparkline values = Inr (map (\<lambda>v. \<lfloor>v * 7 / hi\<rfloor>) vals)"
    unfolding sparkline_def Let_def assms(1) [symmetric] assms(3) [symmetric]
    using assms(4,5) by (simp only: not_le [symmetric] if_False)
  then show ?thesis using assms(2,4) le spark_value(2,3) by auto
qed

theorem sparkline_in_scale_witness: "sparkline [Some 1, None, Some 4, Some 2] = Inr [1, 7, 3]"
proof -
  have v: "[1, 4, 2 :: pyfloat] = List.map_filter id [Some 1, None, Some 4, Some 2]" by (simp add: List.map_filter_simps)
  have "Max (set [1, 4, 2 :: pyfloat]) = 4" by simp
  moreover have "\<lfloor>7 / 4 :: pyfloat\<rfloor> = 1" "\<lfloor>7 / 2 :: pyfloat\<rfloor> = 3" by (rule floor_unique; simp)+
  ultimately show ?thesis using sparkline_in_scale [OF v, of 4] by simp
qed

definition key_values :: "spark_key \<Rightarrow> (spark_key \<times> QueuePerf) list \<Rightarrow> pyfloat list" where
  "key_values k rows = [qp_iops q. (k', q) \<leftarrow> rows, k' = k]"

lemma key_values_append [simp]: "key_values k (xs @ ys) = key_values k xs @ key_values k ys"
  by (simp add: key_values_def)

lemma key_values_one [simp]: "key_values k [(k', q)] = (if k' = k then [qp_iops q] else [])"
  by (simp add: key_values_def)

lemma last_n_last_n: "last_n m (last_n m xs @ ys) = last_n m (xs @ ys)"
  by (cases "length xs \<le> m") (auto simp: last_n_def add.commute)

lemma push_iops_get:
  "dict_get (push_iops k v h) k' [] = (if k' = k then last_n SPARK_WIDTH (dict_get h k [] @ [v]) else dict_get h k' [])"
  by (simp add: push_iops_def Let_def dict_simps last_n_def)

lemma perf_rows_fold:
  "dict_get (fold (\<lambda>(k, q). push_iops k (qp_iops q)) rows h) k [] =
     (if key_values k rows = [] then dict_get h k [] else last_n SPARK_WIDTH (dict_get h k [] @ key_values k rows))"
proof (induction rows rule: rev_induct)
  case Nil
  then show ?case by (simp add: key_values_def)
next
  case (snoc r rows)
  obtain k' q where r: "r = (k', q)" by (cases r)
  show ?case
    using snoc last_n_last_n [of SPARK_WIDTH "dict_get h k [] @ key_values k rows" "[qp_iops q]"]
    by (auto simp: r push_iops_get)
qed

text \<open>
  The history of \<open>perf --watch\<close> is the recent past.  After any number of refreshes, the values kept for a queue, or
  for the sum of all queues, are the rates of its rows in the order in which they were printed, the last
  forty of them; refreshes without the queue leave them as they are.
\<close>

theorem perf_watch_history:
  "dict_get (perf_watch ps) k [] = last_n SPARK_WIDTH (key_values k (concat (map perf_rows ps)))"
proof (induction ps rule: rev_induct)
  case Nil
  then show ?case by (simp add: perf_watch_def dict_get_def key_values_def last_n_def)
next
  case (snoc p ps)
  have "perf_watch (ps @ [p]) = perf_once p (perf_watch ps)" by (simp add: perf_watch_def)
  then show ?case
    using snoc last_n_last_n [of SPARK_WIDTH "key_values k (concat (map perf_rows ps))" "key_values k (perf_rows p)"]
    by (simp add: perf_once_def perf_rows_fold)
qed

section \<open>The drawing of the topology\<close>

text \<open>What the lines show of a node, and the forest they draw, read from the indentation.\<close>

datatype shape = Shape pystr topo_text topo_text "shape list"

fun shape_of :: "TopologyNode \<Rightarrow> shape" where
  "shape_of (TopologyNode i k l sl v ds cs) = Shape k l sl (map shape_of cs)"

definition deeper :: "nat \<Rightarrow> topo_line \<Rightarrow> bool" where
  "deeper n l \<longleftrightarrow> n < length (tl_rails l)"

function read_forest :: "topo_line list \<Rightarrow> shape list" where
  "read_forest [] = []"
| "read_forest (l # ls) =
     Shape (tl_kind l) (tl_label l) (tl_sublabel l) (read_forest (takeWhile (deeper (length (tl_rails l))) ls)) #
     read_forest (dropWhile (deeper (length (tl_rails l))) ls)"
  by pat_completeness auto
termination
  by (relation "measure length") (auto simp: less_Suc_eq_le length_takeWhile_le length_dropWhile_le)

lemma lines_depth:
  "\<forall>l \<in> set (topo_node_lines rails b d t). length rails \<le> length (tl_rails l)"
  "\<forall>l \<in> set (topo_child_lines rails d cs). length rails \<le> length (tl_rails l)"
  by (induction rails b d t and rails d cs rule: topo_node_lines_topo_child_lines.induct) fastforce+

lemma split_lines:
  assumes "\<forall>l \<in> set xs. deeper n l" "ys = [] \<or> \<not> deeper n (hd ys)"
  shows "takeWhile (deeper n) (xs @ ys) = xs" "dropWhile (deeper n) (xs @ ys) = ys"
  using assms by (auto simp: takeWhile_append2 dropWhile_append2 takeWhile_eq_Nil_iff dropWhile_eq_self_iff)

lemma child_lines_hd: "topo_child_lines rails d cs = [] \<or> length (tl_rails (hd (topo_child_lines rails d cs))) = length rails"
proof (cases cs)
  case (Cons c cs')
  then show ?thesis by (cases c) simp
qed simp

lemma read_child_lines:
  "read_forest (topo_node_lines rails b d t @ topo_child_lines rails d rest) = shape_of t # read_forest (topo_child_lines rails d rest)"
  "read_forest (topo_child_lines rails d cs) = map shape_of cs"
proof (induction rails b d t and rails d cs arbitrary: rest rule: topo_node_lines_topo_child_lines.induct)
  case (1 rails b d i k l sl v ds cs)
  let ?n = "length rails"
  let ?xs = "topo_child_lines (rails @ [if b then Blank else Bar]) d cs"
  have "\<forall>l \<in> set ?xs. deeper ?n l"
    using lines_depth(2) [where rails = "rails @ [if b then Blank else Bar]" and d = d and cs = cs] by (auto simp: deeper_def Suc_le_eq)
  moreover have "topo_child_lines rails d rest = [] \<or> \<not> deeper ?n (hd (topo_child_lines rails d rest))"
    using child_lines_hd [of rails d rest] by (auto simp: deeper_def)
  ultimately have "takeWhile (deeper ?n) (?xs @ topo_child_lines rails d rest) = ?xs"
    "dropWhile (deeper ?n) (?xs @ topo_child_lines rails d rest) = topo_child_lines rails d rest"
    by (rule split_lines)+
  with 1 show ?case by simp
qed simp_all

text \<open>
  The drawn topology is the topology.  The indentation of the printed lines determines the tree: reading them back
  gives the children of the root with their kinds, labels and sublabels, each node once and in its place, with or
  without the details.
\<close>

theorem drawn_topology_reads_back:
  "read_forest (topology_lines details t) = map shape_of (node_children (tpl_root t))"
  unfolding topology_lines_def by (rule read_child_lines(2))

section \<open>Adding and removing targets\<close>

definition opt_list :: "'a option \<Rightarrow> 'a list" where
  "opt_list x = (case x of None \<Rightarrow> [] | Some v \<Rightarrow> [v])"

lemma options_agree:
  "target_specs (opt_list pid) (opt_list name) (opt_list np) (opt_list cp) = chosen_options pid name np cp"
  by (auto simp: target_specs_def chosen_options_def opt_list_def List.map_filter_def split: option.splits)

lemma chosen_kind: "(k, v) \<in> set (chosen_options pid name np cp) \<Longrightarrow> k \<in> set VALID_KINDS"
  by (auto simp: chosen_options_def List.map_filter_simps VALID_KINDS_def split: option.splits)

lemma drop_put_rule: "drop_rule (rule_key r) (put_rule r rules) = drop_rule (rule_key r) rules"
proof -
  have "set_rule_adapter r rules = Some rs \<Longrightarrow> drop_rule (rule_key r) rs = drop_rule (rule_key r) rules" for rs
    by (induction rules arbitrary: rs) (auto simp: drop_rule_def rule_key_def split: if_splits)
  then show ?thesis by (auto simp: put_rule_def drop_rule_def split: option.split)
qed

lemma put_rule_mem: "r \<in> set (put_rule r rules)"
proof -
  have "set_rule_adapter r rules = Some rs \<Longrightarrow> r \<in> set rs" for rs
    by (induction rules arbitrary: rs) (auto split: if_splits intro: TargetRule.equality)
  then show ?thesis by (auto simp: put_rule_def split: option.split)
qed

lemma registry_put: "registry (put_registry reg disk w) = (Inr reg, put_registry reg disk w)"
  by (simp add: registry_def put_registry_def)

lemma list_put: "fst (list_targets (put_registry reg disk w)) = Inr (tg_rules reg)"
  by (simp add: list_targets_def registry_put)

lemma drgn_add:
  assumes "registry (dw_profiler w) = (Inr reg, p)" "tr_kind r \<in> set VALID_KINDS"
  shows "\<exists>p'. be_add_target drgn_backend r e w = (Inr (put_rule r (tg_rules reg)), w\<lparr>dw_profiler := p'\<rparr>) \<and>
    fst (registry p') = Inr (reg\<lparr>tg_rules := put_rule r (tg_rules reg)\<rparr>)"
  using assms
  by (simp add: drgn_backend_def on_profiler_def add_target_def add_rule_put) (metis fst_conv registry_put)

lemma drgn_remove:
  assumes "registry (dw_profiler w) = (Inr reg, p)"
  shows "\<exists>p'. be_remove_target drgn_backend k v e w = (Inr (drop_rule (k, v) (tg_rules reg)), w\<lparr>dw_profiler := p'\<rparr>) \<and>
    fst (list_targets p') = Inr (drop_rule (k, v) (tg_rules reg))"
  using assms
  by (simp add: drgn_backend_def on_profiler_def remove_target_def remove_rule_drop split: prod.split)
    (metis TargetRegistry.select_convs(2) TargetRegistry.surjective TargetRegistry.update_convs(2) list_put)

text \<open>
  What an option adds, the same option removes.  On the drgn backend, \<open>target add\<close> with any one of its four options
  succeeds and its rule is in the list; \<open>target remove\<close> with the same option then succeeds too, and the rules
  are the old ones without that rule, in their order.
\<close>

theorem target_add_remove:
  assumes "registry (dw_profiler w) = (Inr reg, p)" and "chosen_options pid name np cp = [(k, v)]"
  shows "\<exists>out w1 out' w2.
    cli_target_add drgn_backend (opt_list pid) (opt_list name) (opt_list np) (opt_list cp) adapter e w = (out, Done, w1) \<and>
    rule_line \<lparr>tr_kind = k, tr_value = v, tr_adapter = adapter\<rparr> \<in> set out \<and>
    cli_target_remove drgn_backend None None pid name np cp e' w1 = (out', Done, w2) \<and>
    fst (list_targets (dw_profiler w2)) = Inr (drop_rule (k, v) (tg_rules reg))"
proof -
  let ?r = "\<lparr>tr_kind = k, tr_value = v, tr_adapter = adapter\<rparr>"
  let ?reg = "reg\<lparr>tg_rules := put_rule ?r (tg_rules reg)\<rparr>"
  have "k \<in> set VALID_KINDS" using chosen_kind [of k v pid name np cp] assms(2) by simp
  then obtain p1 where add: "be_add_target drgn_backend ?r e w = (Inr (put_rule ?r (tg_rules reg)), w\<lparr>dw_profiler := p1\<rparr>)"
    and p1: "fst (registry p1) = Inr ?reg"
    using drgn_add [OF assms(1), of ?r e] by auto
  let ?w1 = "w\<lparr>dw_profiler := p1\<rparr>"
  from p1 have "registry (dw_profiler ?w1) = (Inr ?reg, snd (registry p1))" by (simp add: prod_eq_iff)
  from drgn_remove [OF this, of k v e'] obtain p2 where
    remove: "be_remove_target drgn_backend k v e' ?w1 = (Inr (drop_rule (k, v) (put_rule ?r (tg_rules reg))), ?w1\<lparr>dw_profiler := p2\<rparr>)"
    and p2: "fst (list_targets p2) = Inr (drop_rule (k, v) (put_rule ?r (tg_rules reg)))" by auto
  have "cli_target_add drgn_backend (opt_list pid) (opt_list name) (opt_list np) (opt_list cp) adapter e w =
      (map rule_line (put_rule ?r (tg_rules reg)), Done, ?w1)"
    by (simp add: cli_target_add_def options_agree assms(2) add show_result_def)
  moreover have "rule_line ?r \<in> set (map rule_line (put_rule ?r (tg_rules reg)))"
    using put_rule_mem by auto
  moreover have "\<exists>out'. cli_target_remove drgn_backend None None pid name np cp e' ?w1 = (out', Done, ?w1\<lparr>dw_profiler := p2\<rparr>)"
    by (simp add: cli_target_remove_def assms(2) remove_choice_def given_text_def remove show_result_def)
  moreover have "fst (list_targets (dw_profiler (?w1\<lparr>dw_profiler := p2\<rparr>))) = Inr (drop_rule (k, v) (tg_rules reg))"
    using p2 drop_put_rule [of ?r "tg_rules reg"] by (simp add: rule_key_def)
  ultimately show ?thesis by blast
qed

theorem target_add_remove_witness:
  "\<forall>e :: nat drgn_env. \<exists>out w1 out' w2.
    cli_target_add drgn_backend [] [''fio''] [] [] None e (new_drgn_world None None) = (out, Done, w1) \<and>
    rule_line \<lparr>tr_kind = ''name'', tr_value = ''fio'', tr_adapter = None\<rparr> \<in> set out \<and>
    cli_target_remove drgn_backend None None None (Some ''fio'') None None e w1 = (out', Done, w2) \<and>
    fst (list_targets (dw_profiler w2)) = Inr []"
proof
  fix e :: "nat drgn_env"
  have "\<exists>p. registry (dw_profiler (new_drgn_world None None)) = (Inr (empty_registry MAX_FINISHED), p)"
    by (simp add: new_drgn_world_def new_profiler_world_def new_profiler_def registry_def load_def Let_def)
  then obtain p where "registry (dw_profiler (new_drgn_world None None)) = (Inr (empty_registry MAX_FINISHED), p)" ..
  moreover have "chosen_options None (Some ''fio'') None None = [(''name'', ''fio'')]"
    by (simp add: chosen_options_def List.map_filter_simps)
  ultimately show "\<exists>out w1 out' w2.
    cli_target_add drgn_backend [] [''fio''] [] [] None e (new_drgn_world None None) = (out, Done, w1) \<and>
    rule_line \<lparr>tr_kind = ''name'', tr_value = ''fio'', tr_adapter = None\<rparr> \<in> set out \<and>
    cli_target_remove drgn_backend None None None (Some ''fio'') None None e w1 = (out', Done, w2) \<and>
    fst (list_targets (dw_profiler w2)) = Inr []"
    using target_add_remove [of "new_drgn_world None None" "empty_registry MAX_FINISHED" p None "Some ''fio''" None None
        "''name''" "''fio''" None e e]
    by (simp add: opt_list_def drop_rule_def empty_registry_def)
qed

end
