(* ===== verification/CliReportLaws.thy ===== *)
theory CliReportLaws
  imports CliReport CliLaws ServerLaws
begin

text \<open>
  Laws of the reports: \<open>perf --watch\<close> runs until it is interrupted and its sparklines are drawn from the last forty values,
  and \<open>doctor\<close> never reaches its end.
\<close>

section \<open>Watching the performance\<close>

lemma sparkline_total:
  assumes "\<forall>v \<in> set vals. 0 \<le> v"
  shows "\<exists>sp. sparkline (map Some vals) = Inr sp"
proof -
  have vals: "vals = List.map_filter id (map Some vals)" by (induction vals) (simp_all add: List.map_filter_simps)
  consider "vals = []" | "vals \<noteq> []" "0 < Max (set vals)" | "vals \<noteq> []" "Max (set vals) \<le> 0" by linarith
  then show ?thesis
  proof cases
    case 2
    have le: "v \<le> Max (set vals)" if "v \<in> set vals" for v using that by simp
    have "mapE (\<lambda>v. spark_char (min (SPARK_COUNT - 1) (trunc (v / Max (set vals) * of_int (SPARK_COUNT - 1))))) vals =
        Inr (map (\<lambda>v. \<lfloor>v * 7 / Max (set vals)\<rfloor>) vals)"
      by (rule mapE_const) (use assms 2 le spark_value(1) in blast)
    then show ?thesis using 2 unfolding sparkline_def vals [symmetric] Let_def by (simp only: not_le [symmetric] if_False) simp
  qed (simp_all add: sparkline_def vals [symmetric] Let_def)
qed

definition history_nonneg :: "history \<Rightarrow> bool" where
  "history_nonneg h \<longleftrightarrow> (\<forall>k. \<forall>v \<in> set (dict_get h k []). 0 \<le> v)"

definition rows_nonneg :: "(spark_key \<times> QueuePerf) list \<Rightarrow> bool" where
  "rows_nonneg rows \<longleftrightarrow> (\<forall>(k, q) \<in> set rows. 0 \<le> qp_iops q)"

lemma history_push:
  assumes "history_nonneg h" "0 \<le> v"
  shows "history_nonneg (push_iops k v h)"
  using assms by (auto simp: history_nonneg_def push_iops_def Let_def dict_get_update split: if_splits dest!: set_last_n [THEN subsetD])

lemma perf_print_total:
  assumes "history_nonneg h" "rows_nonneg rows"
  shows "\<exists>ls. perf_print True rows h = (ls, Done, fold (\<lambda>(k, q). push_iops k (qp_iops q)) rows h) \<and>
    history_nonneg (fold (\<lambda>(k, q). push_iops k (qp_iops q)) rows h)"
  using assms
proof (induction rows arbitrary: h)
  case (Cons row rows)
  obtain k q where row: "row = (k, q)" by (cases row)
  have h1: "history_nonneg (push_iops k (qp_iops q) h)"
    using Cons.prems by (simp add: history_push rows_nonneg_def row)
  then obtain sp where "sparkline (map Some (dict_get (push_iops k (qp_iops q) h) k [])) = Inr sp"
    using sparkline_total by (metis history_nonneg_def)
  with Cons.IH [OF h1] Cons.prems(2) show ?case by (auto simp: row Let_def rows_nonneg_def)
qed simp

definition perf_nonneg :: "DevicePerf \<Rightarrow> bool" where
  "perf_nonneg p \<longleftrightarrow> rows_nonneg (perf_rows p)"

lemma perf_show_total:
  assumes "history_nonneg h" "perf_nonneg p"
  shows "\<exists>ls. perf_show True p h = (ls, Done, perf_once p h) \<and> history_nonneg (perf_once p h)"
  using perf_print_total [OF assms(1), of "perf_rows p"] assms
  by (auto simp: perf_show_def perf_once_def perf_nonneg_def) (simp_all add: perf_rows_def)

fun is_screen :: "screen_act \<Rightarrow> bool" where
  "is_screen (Screen ls) = True"
| "is_screen a = False"

text \<open>
  The contract of a round that \<open>--watch\<close> repeats: while the environments are allowed, a round ends normally and keeps the invariant.
  Then the loop goes on until it is interrupted.
\<close>

locale watched =
  fixes once :: "'e \<Rightarrow> 's \<Rightarrow> 's cli" and after :: "'e \<Rightarrow> 's \<Rightarrow> 's" and good :: "'s \<Rightarrow> bool" and allowed :: "'e \<Rightarrow> bool"
  assumes round: "allowed e \<Longrightarrow> good s \<Longrightarrow> \<exists>ls. once e s = (ls, Done, after e s)"
    and kept: "allowed e \<Longrightarrow> good s \<Longrightarrow> good (after e s)"
begin

lemma every_round_shown:
  assumes "list_all allowed es" "good s"
  shows "\<exists>acts. show_loop interval once es s = (acts, Done, fold after es s) \<and> length (filter is_screen acts) = length es \<and>
    good (fold after es s)"
  using assms
proof (induction es arbitrary: s)
  case (Cons e es)
  from round [of e s] Cons.prems obtain ls where "once e s = (ls, Done, after e s)" by auto
  moreover from Cons.IH [of "after e s"] kept [of e s] Cons.prems obtain acts where
    "show_loop interval once es (after e s) = (acts, Done, fold after es (after e s))"
    "length (filter is_screen acts) = length es" "good (fold after es (after e s))" by auto
  ultimately show ?case by simp
qed simp

end

definition answers_perf :: "('e, 's) Backend \<Rightarrow> pystr \<Rightarrow> ('e \<Rightarrow> DevicePerf) \<Rightarrow> 'e \<Rightarrow> bool" where
  "answers_perf b device f e \<longleftrightarrow> (\<forall>s. be_get_performance b device e s = (Inr (f e), s)) \<and> perf_nonneg (f e)"

interpretation perf_watched: watched "perf_round b device True" "\<lambda>e (h, s). (perf_once (f e) h, s)"
  "\<lambda>(h, s). history_nonneg h" "answers_perf b device f" for b device f
proof (unfold_locales, goal_cases)
  case (1 e s)
  then show ?case using perf_show_total [of "fst s" "f e"]
    by (cases s) (auto simp: answers_perf_def perf_round_def)
next
  case (2 e s)
  then show ?case using perf_show_total [of "fst s" "f e"] by (cases s) (auto simp: answers_perf_def)
qed

interpretation stats_watched: watched "cli_error_stats mock_backend d" "\<lambda>e s. s" "\<lambda>s. True" "\<lambda>e. d \<in> set mock_list_devices" for d
proof (unfold_locales, goal_cases)
  case (1 e s)
  then obtain t where "topology_of d = Inr t" using mock_known by blast
  then show ?case by (simp add: cli_error_stats_def show_result_def mock_backend_def reads_def mock_error_stats_def)
qed simp

interpretation events_watched: watched "events_round mock_backend stamp d kind" "\<lambda>e s. s" "\<lambda>s. True" "\<lambda>e. d \<in> set mock_list_devices"
  for stamp d kind
proof (unfold_locales, goal_cases)
  case (1 e s)
  then obtain t where "topology_of d = Inr t" using mock_known by blast
  then show ?case by (simp add: events_round_def mock_backend_def reads_def mock_events_def mock_get_events_def events_show_def)
qed simp

lemma fold_perf_once: "fold (\<lambda>e (h, s). (perf_once (f e) h, s)) es (h, s) = (fold perf_once (map f es) h, s)"
  by (induction es arbitrary: h) simp_all

text \<open>The watched reports of the mock backend, for a device it has.\<close>

lemma mock_reports_go_on:
  assumes "d \<in> set mock_list_devices"
  shows "\<exists>acts. cli_error_stats_watch mock_backend d es s = (acts, Done, s) \<and> length (filter is_screen acts) = length es"
    and "\<exists>acts. cli_events_watch mock_backend stamp d kind es s = (acts, Done, s) \<and> length (filter is_screen acts) = length es"
proof -
  have same: "fold (\<lambda>e s. s) es x = x" for x :: 'z by (induction es) simp_all
  have "list_all (\<lambda>e. d \<in> set mock_list_devices) es" using assms by (simp add: list_all_iff)
  from stats_watched.every_round_shown [OF this TrueI, of 1 s] events_watched.every_round_shown [OF this TrueI, of 1 stamp kind s]
  show "\<exists>acts. cli_error_stats_watch mock_backend d es s = (acts, Done, s) \<and> length (filter is_screen acts) = length es"
    "\<exists>acts. cli_events_watch mock_backend stamp d kind es s = (acts, Done, s) \<and> length (filter is_screen acts) = length es"
    by (auto simp: cli_error_stats_watch_def cli_events_watch_def same)
qed

text \<open>
  C35: \<open>perf --watch\<close> shows every round.  As long as the backend answers with rates that are not negative, no round ends the
  command, each is one screen, and the history behind the sparkline of a queue, or of the sum, is made of its last forty rates
  in order.
\<close>

theorem perf_watch_shows:
  assumes "\<forall>e \<in> set es. \<forall>s. be_get_performance b device e s = (Inr (f e), s)" and "\<forall>e \<in> set es. perf_nonneg (f e)"
  shows "\<exists>acts h. cli_perf_watch b device es s = (acts, Done, h, s) \<and> length (filter is_screen acts) = length es \<and>
    (\<forall>k. dict_get h k [] = last_n SPARK_WIDTH (key_values k (concat (map (\<lambda>e. perf_rows (f e)) es))))"
proof -
  have "list_all (answers_perf b device f) es" using assms by (simp add: list_all_iff answers_perf_def)
  moreover have "history_nonneg []" by (simp add: history_nonneg_def dict_get_def)
  ultimately obtain acts where
    "cli_perf_watch b device es s = (acts, Done, perf_watch (map f es), s)" "length (filter is_screen acts) = length es"
    using perf_watched.every_round_shown [of b device f es "([], s)" 1] by (auto simp: cli_perf_watch_def perf_watch_def fold_perf_once)
  then show ?thesis using perf_watch_history [of "map f es"] by (auto simp: comp_def)
qed

lemma mock_rates: "0 \<le> qp_iops (mock_queue_perf t i)"
proof -
  have "0 \<le> ((t + i * 11) * 37) mod 3000" "0 \<le> ((t + i * 11) * 23) mod 2000" by simp_all
  then show ?thesis by (simp add: mock_queue_perf_def Let_def flip: of_int_add)
qed

lemma mock_perf_nonneg: "perf_nonneg (mock_get_performance qs t d)"
proof -
  have "0 \<le> (\<Sum>q\<leftarrow>map (mock_queue_perf t) is. qp_iops q)" for "is"
    by (induction "is") (simp_all add: mock_rates)
  then show ?thesis
    by (auto simp: perf_nonneg_def rows_nonneg_def perf_rows_def mock_get_performance_def Let_def mock_rates comp_def)
qed

theorem perf_watch_shows_witness:
  "\<forall>e e' w. \<exists>acts h. cli_perf_watch mock_backend ''nvme0'' [e, e'] w = (acts, Done, h, w) \<and> length (filter is_screen acts) = 2"
proof (intro allI)
  fix e e' :: mock_env and w
  obtain t where t: "topology_of ''nvme0'' = Inr t" by (auto simp: topology_of_def TOPOLOGY_def)
  let ?f = "\<lambda>e. mock_get_performance (\<lambda>_. md_online_queues t) (tick (me_now e)) ''nvme0''"
  have "\<forall>e \<in> set [e, e']. \<forall>s. be_get_performance mock_backend ''nvme0'' e s = (Inr (?f e), s)"
    by (simp add: mock_backend_def reads_def mock_performance_def t)
  from perf_watch_shows [OF this, of w] mock_perf_nonneg
  show "\<exists>acts h. cli_perf_watch mock_backend ''nvme0'' [e, e'] w = (acts, Done, h, w) \<and> length (filter is_screen acts) = 2"
    by fastforce
qed

section \<open>The health check\<close>

text \<open>
  The health check cannot succeed.  \<open>doctor\<close> on the drgn backend never exits with status 0, and once drgn is there and
  connected it ends with an exception whatever the other probes say.
\<close>

theorem doctor_never_succeeds:
  "snd (cli_doctor ''drgn'' exn_text p) \<noteq> Inr 0 \<and>
   (isl (snd (cli_doctor ''drgn'' exn_text p)) \<longleftrightarrow> pr_import_error p = None \<and> pr_program p = Inr ())"
proof (cases "pr_import_error p")
  case None
  then show ?thesis
    by (cases "pr_program p") (auto simp: cli_doctor_def doctor_def Let_def isl_def bindE_Inr split: sum.splits)
qed (simp add: cli_doctor_def doctor_def)

end
