(* ===== verification/SharedFile.thy ===== *)
theory SharedFile
  imports Profiler
begin

text \<open>
  The daemon and the command line keep their targets in the same file (\<open>default_state_path\<close> of
  \<open>backend/targets.py\<close>), each through its own \<open>TargetRegistry\<close>.  A call is one step; a file is replaced as a whole.
\<close>

section \<open>Two processes and one file\<close>

text \<open>\<open>default_state_path\<close>: \<open>XDG_STATE_HOME\<close> if it is set and not empty, else below the home directory; \<open>os.path.join\<close>.\<close>

definition path_join :: "pystr \<Rightarrow> pystr \<Rightarrow> pystr" where
  "path_join a b =
     (if b \<noteq> [] \<and> hd b = CHR ''/'' then b
      else if a = [] \<or> last a = CHR ''/'' then a @ b
      else a @ ''/'' @ b)"

definition default_state_path :: "pystr option \<Rightarrow> pystr \<Rightarrow> pystr" where
  "default_state_path xdg_state_home home =
     (let base = (case xdg_state_home of
                    Some x \<Rightarrow> if x \<noteq> [] then x else home @ ''/.local/state''
                  | None \<Rightarrow> home @ ''/.local/state'')
      in path_join (path_join base ''telemetryd'') ''targets.json'')"

text \<open>What a process sees after another one has run: its own objects, and the file as the other left it.\<close>

definition sees_file_of :: "profiler_world \<Rightarrow> profiler_world \<Rightarrow> profiler_world" where
  "sees_file_of other w = w\<lparr>pw_disk := pw_disk other\<rparr>"

inductive two_processes :: "profiler_world \<Rightarrow> profiler_world \<Rightarrow> bool" where
  fresh: "pw_disk a = None \<Longrightarrow> pw_disk b = None \<Longrightarrow> pf_targets (pw_service a) = None \<Longrightarrow> pf_targets (pw_service b) = None \<Longrightarrow>
    two_processes a b"
| left_runs: "\<lbrakk>two_processes a b; profiler_step a a'\<rbrakk> \<Longrightarrow> two_processes a' (sees_file_of a' b)"
| right_runs: "\<lbrakk>two_processes a b; profiler_step b b'\<rbrakk> \<Longrightarrow> two_processes (sees_file_of b' a) b'"

lemma sees_file_ok: "world_ok a \<Longrightarrow> world_ok b \<Longrightarrow> world_ok (sees_file_of a b)"
  by (simp add: world_ok_def sees_file_of_def)

lemma two_processes_ok: "two_processes a b \<Longrightarrow> world_ok a \<and> world_ok b \<and> pw_disk a = pw_disk b"
proof (induction rule: two_processes.induct)
  case (fresh a b)
  then show ?case by (simp add: world_ok_def disk_ok_def)
next
  case (left_runs a b a')
  with profiler_step_ok [OF left_runs.hyps(2)] sees_file_ok show ?case by (auto simp: sees_file_of_def)
next
  case (right_runs a b b')
  with profiler_step_ok [OF right_runs.hyps(2)] sees_file_ok show ?case by (auto simp: sees_file_of_def)
qed

lemma set_rule_adapter_keys:
  "set_rule_adapter rule rules = Some rs \<Longrightarrow>
   map rule_key rs = map rule_key rules \<and> rule_key rule \<in> rule_key ` set rules"
  by (induction rules arbitrary: rs) (auto simp: rule_key_def split: if_splits)

lemma put_rule_keys: "rule_key ` set (put_rule rule rules) = insert (rule_key rule) (rule_key ` set rules)"
proof (cases "set_rule_adapter rule rules")
  case (Some rs)
  with set_rule_adapter_keys [OF this] show ?thesis
    by (metis image_set insert_absorb option.simps(5) put_rule_def)
qed (simp add: put_rule_def)

lemma add_target_result:
  assumes "world_ok w" "add_target True rule w = (Inr rules, w')"
  shows "rule_key rule \<in> rule_key ` set rules \<and> fst (list_targets (restart w')) = Inr rules"
proof -
  from registry_world_ok [OF assms(1)] obtain reg w1 where
    reg: "registry w = (Inr reg, w1)" "reg_ok reg" "world_ok w1" by blast
  from assms(2) reg(1) have kind: "tr_kind rule \<in> set VALID_KINDS"
    by (auto simp: add_target_def add_rule_def split: if_splits)
  let ?reg = "reg\<lparr>tg_rules := put_rule rule (tg_rules reg)\<rparr>"
  from assms(2) reg(1) have w': "w' = put_registry ?reg (Some (state_document ?reg)) w1"
    and rules: "rules = put_rule rule (tg_rules reg)"
    by (auto simp: add_target_def add_rule_put [OF kind] save_def)
  have ok: "registry_ok ?reg" "rules_ok (tg_rules ?reg)"
    using reg(2) put_rule_ok [OF _ kind] by (simp_all add: reg_ok_def registry_ok_def)
  obtain reg' where "load MAX_FINISHED (Some (state_document ?reg)) = Inr reg'" "tg_rules reg' = tg_rules ?reg"
    using load_document [OF ok] by blast
  then have "fst (list_targets (restart w')) = Inr rules"
    by (simp add: list_targets_def registry_def restart_def w' put_registry_def new_profiler_def rules)
  moreover have "rule_key rule \<in> rule_key ` set rules"
    unfolding rules put_rule_keys by simp
  ultimately show ?thesis by simp
qed

lemma loaded_ignores_file:
  assumes "pf_targets (pw_service w) = Some reg"
  shows "registry (sees_file_of other w) = (Inr reg, sees_file_of other w)"
  using assms by (simp add: registry_def sees_file_of_def)


text \<open>
  C11: but one process undoes the work of the other.  Once the daemon has loaded its rules, a rule that the command
  line adds and writes to the shared file is not in the daemon's list, and the next rule that the daemon stores
  writes a file without it: after a restart of either process the rule is gone.
\<close>

theorem shared_file_lost_update:
  assumes "world_ok daemon" and "world_ok cli" and "pf_targets (pw_service daemon) = Some reg"
    and "rule_key rule \<notin> rule_key ` set (tg_rules reg)" and "rule_key other \<noteq> rule_key rule"
    and "add_target True rule cli = (Inr cli_rules, cli')"
    and "add_target True other (sees_file_of cli' daemon) = (Inr rules, daemon')"
  shows "rule_key rule \<in> rule_key ` set cli_rules \<and>
    fst (list_targets (sees_file_of cli' daemon)) = Inr (tg_rules reg) \<and>
    fst (list_targets (restart daemon')) = Inr rules \<and>
    fst (list_targets (restart (sees_file_of daemon' cli'))) = Inr rules \<and>
    rule_key rule \<notin> rule_key ` set rules"
proof -
  note seen = loaded_ignores_file [OF assms(3), of cli']
  have cli': "world_ok cli'" using add_target_ok [OF assms(2), of True rule] assms(6) by simp
  then have "world_ok (sees_file_of cli' daemon)" by (rule sees_file_ok) (rule assms(1))
  from add_target_result [OF this assms(7)] have restarted: "fst (list_targets (restart daemon')) = Inr rules" by blast
  have same: "fst (registry (restart (sees_file_of d c))) = fst (registry (restart d))" for c d
    by (simp add: registry_def restart_def sees_file_of_def new_profiler_def split: sum.split)
  have fst_list: "fst (list_targets w) = map_sum id tg_rules (fst (registry w))" for w
    by (simp add: list_targets_def split: prod.split sum.split)
  from assms(7) seen have "tr_kind other \<in> set VALID_KINDS"
    by (auto simp: add_target_def add_rule_def split: if_splits)
  with assms(7) seen have "rules = put_rule other (tg_rules reg)"
    by (auto simp: add_target_def add_rule_put)
  then have "rule_key rule \<notin> rule_key ` set rules" using assms(4,5) by (simp add: put_rule_keys)
  with restarted seen add_target_result [OF assms(2,6)] show ?thesis by (simp add: fst_list same)
qed

section \<open>A concrete history\<close>

definition pid_rule :: "pystr \<Rightarrow> TargetRule" where
  "pid_rule v = \<lparr>tr_kind = ''pid'', tr_value = v, tr_adapter = None\<rparr>"

definition loaded_world :: profiler_world where
  "loaded_world = snd (list_targets sample_world)"

lemma loaded_facts:
  "world_ok loaded_world" "world_ok sample_world" "pf_targets (pw_service loaded_world) = Some (empty_registry MAX_FINISHED)"
  by (simp_all add: loaded_world_def list_targets_def registry_def sample_world_def new_profiler_def load_def world_ok_def
      disk_ok_def reg_ok_def registry_ok_def rules_ok_def empty_registry_def dict_ok_def)


theorem shared_file_lost_update_witness:
  "\<exists>cli' daemon' rules. add_target True (pid_rule ''7'') sample_world = (Inr [pid_rule ''7''], cli') \<and>
     add_target True (pid_rule ''9'') (sees_file_of cli' loaded_world) = (Inr rules, daemon') \<and>
     fst (list_targets (restart daemon')) = Inr rules \<and> (''pid'', ''7'') \<notin> rule_key ` set rules"
proof -
  obtain cli' where a: "add_target True (pid_rule ''7'') sample_world = (Inr [pid_rule ''7''], cli')"
    by (simp add: add_target_def registry_def sample_world_def new_profiler_def load_def empty_registry_def add_rule_def
        pid_rule_def VALID_KINDS_def Let_def)
  obtain daemon' where b: "add_target True (pid_rule ''9'') (sees_file_of cli' loaded_world) = (Inr [pid_rule ''9''], daemon')"
    using loaded_ignores_file [OF loaded_facts(3), of cli']
    by (simp add: add_target_def empty_registry_def add_rule_def pid_rule_def VALID_KINDS_def Let_def)
  have "rule_key (pid_rule ''7'') \<notin> rule_key ` set (tg_rules (empty_registry MAX_FINISHED))"
    "rule_key (pid_rule ''9'') \<noteq> rule_key (pid_rule ''7'')"
    by (simp_all add: empty_registry_def rule_key_def pid_rule_def)
  from shared_file_lost_update [OF loaded_facts(1,2,3) this a b] a b show ?thesis
    by (auto simp: rule_key_def pid_rule_def)
qed

end
