(* ===== verification/KernelSession.thy ===== *)
theory KernelSession
  imports Models TtlCache
begin

text \<open>
  \<open>platform/kernel/drgn_session.py\<close> (\<open>DrgnKernelSession\<close>): one \<open>drgn.Program\<close>, made on first use, and the cache
  that the services share.  The drgn module is a parameter: what its calls answer at the time they are made.
\<close>

section \<open>The session\<close>

record 'p drgn_api =
  api_Program :: "exn + 'p"
  api_set_qemu_qmp :: "'p \<Rightarrow> pystr \<Rightarrow> exn + 'p"
  api_program_from_kernel :: "exn + 'p"
  api_load_debug_info :: "'p \<Rightarrow> pystr list \<Rightarrow> exn + 'p"

record ('p, 'v) DrgnKernelSession =
  ks_prog :: "'p option"
  ks_qemu_qmp_address :: "pystr option"
  ks_qemu_vmlinux :: "pystr option"
  ks_extra_symbols :: "pystr list"
  ks_cache :: "(pystr, 'v) AdaptiveTtlCache"

definition new_session_of ::
  "'p option \<Rightarrow> pystr option \<Rightarrow> pystr option \<Rightarrow> pystr list option \<Rightarrow> (pystr, 'v) AdaptiveTtlCache option \<Rightarrow>
   ('p, 'v) DrgnKernelSession" where
  "new_session_of program qmp vmlinux symbols cache =
     \<lparr>ks_prog = program, ks_qemu_qmp_address = qmp, ks_qemu_vmlinux = vmlinux,
      ks_extra_symbols = (case symbols of None \<Rightarrow> [] | Some l \<Rightarrow> l),
      ks_cache = (case cache of None \<Rightarrow> new_cache 30 3 | Some c \<Rightarrow> c)\<rparr>"

text \<open>The truth value of an optional text.\<close>

definition given :: "pystr option \<Rightarrow> bool" where
  "given t \<longleftrightarrow> (case t of None \<Rightarrow> False | Some s \<Rightarrow> s \<noteq> [])"

definition connect :: "'p drgn_api \<Rightarrow> ('p, 'v) DrgnKernelSession \<Rightarrow> exn + 'p" where
  "connect api s =
     (if given (ks_qemu_qmp_address s) then
        bindE (api_Program api) (\<lambda>prog.
        bindE (api_set_qemu_qmp api prog (the (ks_qemu_qmp_address s))) (\<lambda>prog1.
          let symbols = (if given (ks_qemu_vmlinux s) then [the (ks_qemu_vmlinux s)] else []) @ ks_extra_symbols s
          in api_load_debug_info api prog1 symbols))
      else if ks_extra_symbols s \<noteq> [] then
        bindE (api_program_from_kernel api) (\<lambda>prog. api_load_debug_info api prog (ks_extra_symbols s))
      else api_program_from_kernel api)"

definition program :: "'p drgn_api \<Rightarrow> ('p, 'v) DrgnKernelSession \<Rightarrow> (exn + 'p) \<times> ('p, 'v) DrgnKernelSession" where
  "program api s =
     (case ks_prog s of
        Some p \<Rightarrow> (Inr p, s)
      | None \<Rightarrow> (case connect api s of Inl e \<Rightarrow> (Inl e, s) | Inr p \<Rightarrow> (Inr p, s\<lparr>ks_prog := Some p\<rparr>)))"

definition cached ::
  "pystr \<Rightarrow> pyfloat \<Rightarrow> exn + 'v \<Rightarrow> pyfloat \<Rightarrow> ('p, 'v) DrgnKernelSession \<Rightarrow> (exn + 'v) \<times> ('p, 'v) DrgnKernelSession" where
  "cached key now outcome fin s =
     (case get_or_compute (ks_cache s) key now outcome fin of (c, r) \<Rightarrow> (r, s\<lparr>ks_cache := c\<rparr>))"

definition session_invalidate :: "pystr option \<Rightarrow> ('p, 'v) DrgnKernelSession \<Rightarrow> ('p, 'v) DrgnKernelSession" where
  "session_invalidate key s = s\<lparr>ks_cache := invalidate key (ks_cache s)\<rparr>"

datatype session_text = QemuGuest pystr "pystr option" | LocalWithSymbols nat | LocalKernel

definition describe_session :: "('p, 'v) DrgnKernelSession \<Rightarrow> session_text" where
  "describe_session s =
     (if given (ks_qemu_qmp_address s) then QemuGuest (the (ks_qemu_qmp_address s)) (ks_qemu_vmlinux s)
      else if ks_extra_symbols s \<noteq> [] then LocalWithSymbols (length (ks_extra_symbols s))
      else LocalKernel)"

section \<open>One connection\<close>

text \<open>A history of uses of the session, each with the drgn module as it answers at that time.\<close>

datatype ('p, 'v) session_use =
    UseProgram "'p drgn_api"
  | UseCached pystr pyfloat "exn + 'v" pyfloat
  | UseInvalidate "pystr option"

fun use_session ::
  "('p, 'v) session_use list \<Rightarrow> ('p, 'v) DrgnKernelSession \<Rightarrow> (exn + 'p) list \<times> ('p, 'v) DrgnKernelSession" where
  "use_session [] s = ([], s)"
| "use_session (UseProgram api # us) s =
     (case program api s of (r, s1) \<Rightarrow> (case use_session us s1 of (rs, s2) \<Rightarrow> (r # rs, s2)))"
| "use_session (UseCached k now v fin # us) s = use_session us (snd (cached k now v fin s))"
| "use_session (UseInvalidate k # us) s = use_session us (session_invalidate k s)"

definition apis_of :: "('p, 'v) session_use list \<Rightarrow> 'p drgn_api list" where
  "apis_of us = List.map_filter (\<lambda>u. case u of UseProgram a \<Rightarrow> Some a | _ \<Rightarrow> None) us"

definition same_target :: "('p, 'v) DrgnKernelSession \<Rightarrow> ('p, 'v) DrgnKernelSession \<Rightarrow> bool" where
  "same_target s s' \<longleftrightarrow> ks_qemu_qmp_address s' = ks_qemu_qmp_address s \<and> ks_qemu_vmlinux s' = ks_qemu_vmlinux s \<and>
     ks_extra_symbols s' = ks_extra_symbols s"

lemma connect_same: "same_target s s' \<Longrightarrow> connect api s' = connect api s"
  by (simp add: same_target_def connect_def)

lemma apis_of_simps [simp]:
  "apis_of [] = []" "apis_of (UseProgram a # us) = a # apis_of us"
  "apis_of (UseCached k n v f # us) = apis_of us" "apis_of (UseInvalidate i # us) = apis_of us"
  by (simp_all add: apis_of_def List.map_filter_simps)

lemma use_connected:
  "ks_prog s = Some p \<Longrightarrow> fst (use_session us s) = replicate (length (apis_of us)) (Inr p)"
  by (induction us s rule: use_session.induct)
    (auto simp: program_def cached_def session_invalidate_def split: prod.splits)

definition once :: "(exn + 'p) list \<Rightarrow> (exn + 'p) list" where
  "once rs =
     (let n = length (takeWhile isl rs)
      in take n rs @ (if n < length rs then replicate (length rs - n) (rs ! n) else []))"

lemma once_Cons: "once (Inl e # rs) = Inl e # once rs" "once (Inr p # rs) = replicate (Suc (length rs)) (Inr p)"
  by (simp_all add: once_def Let_def)

lemma use_unconnected:
  assumes "ks_prog s = None"
  shows "fst (use_session us s) = once (map (\<lambda>a. connect a s) (apis_of us))"
  using assms
proof (induction us s rule: use_session.induct)
  case (1 s)
  then show ?case by (simp add: once_def)
next
  case (2 api us s)
  show ?case
  proof (cases "connect api s")
    case (Inl e)
    with 2 show ?thesis by (auto simp: program_def once_Cons split: prod.splits)
  next
    case (Inr p)
    with 2 use_connected [of "s\<lparr>ks_prog := Some p\<rparr>" p us] show ?thesis
      by (auto simp: program_def once_Cons split: prod.splits)
  qed
next
  case (3 k now v fin us s)
  have "same_target s (snd (cached k now v fin s))" "ks_prog (snd (cached k now v fin s)) = ks_prog s"
    by (simp_all add: cached_def same_target_def split: prod.split)
  with 3 show ?case by (simp add: connect_same)
next
  case (4 k us s)
  have "same_target s (session_invalidate k s)" "ks_prog (session_invalidate k s) = ks_prog s"
    by (simp_all add: session_invalidate_def same_target_def)
  with 4 show ?case by (simp add: connect_same)
qed

text \<open>
  The kernel is connected to once.  Over any history of uses of a fresh session, with cached computations and
  invalidations in between, the attempts to connect fail until the first that succeeds, each with the error of
  its own attempt; from then on every use gets that same program and the drgn module is not called again.
\<close>

theorem session_connects_once:
  assumes "ks_prog s = None"
  shows "let rs = map (\<lambda>a. connect a s) (apis_of us); n = length (takeWhile isl rs)
    in fst (use_session us s) = take n rs @ (if n < length rs then replicate (length rs - n) (rs ! n) else [])"
  using use_unconnected [OF assms, of us] by (simp add: once_def Let_def)

definition local_api :: "nat \<Rightarrow> nat drgn_api" where
  "local_api p = \<lparr>api_Program = Inr p, api_set_qemu_qmp = (\<lambda>q _. Inr q), api_program_from_kernel = Inr p,
     api_load_debug_info = (\<lambda>q _. Inr q)\<rparr>"

definition broken_api :: "nat drgn_api" where
  "broken_api = (local_api 0)\<lparr>api_program_from_kernel := Inl (OtherError ''PermissionError'')\<rparr>"

theorem session_connects_once_witness:
  "fst (use_session [UseProgram broken_api, UseProgram (local_api 1), UseInvalidate None, UseProgram (local_api 2)]
     (new_session_of None None None None None :: (nat, nat) DrgnKernelSession)) =
   [Inl (OtherError ''PermissionError''), Inr 1, Inr 1]"
proof -
  let ?s = "new_session_of None None None None None :: (nat, nat) DrgnKernelSession"
  let ?us = "[UseProgram broken_api, UseProgram (local_api 1), UseInvalidate None, UseProgram (local_api 2)]"
  have "ks_prog ?s = None" by (simp add: new_session_of_def)
  moreover have "map (\<lambda>a. connect a ?s) (apis_of ?us) = [Inl (OtherError ''PermissionError''), Inr 1, Inr 2]"
    by (simp add: connect_def new_session_of_def given_def broken_api_def local_api_def)
  ultimately show ?thesis
    using session_connects_once [of ?s ?us] by (simp add: numeral_eq_Suc)
qed

end
