(* ===== verification/Composition.thy ===== *)
theory Composition
  imports KernelSession EventService
begin

text \<open>
  \<open>services/registry.py\<close> and \<open>composition.py\<close>: the registry of services by name, with the check of their contract, and the
  two assemblies.  A service is its class with references to the platform objects it was given.
\<close>

section \<open>Services and contracts\<close>

type_synonym kernel_ref = nat
type_synonym log_ref = nat

datatype service =
    DrgnQueueService kernel_ref
  | EbpfPerfService log_ref
  | EbpfEventService log_ref
  | DrgnTopologyService kernel_ref       \<comment> \<open>through the two callables of a queue service on this session\<close>
  | NvmeProfilerService kernel_ref log_ref "pystr option"
  | MockPerfService
  | MockEventService
  | MockProfilerService "pystr option"

datatype service_contract = QueueService | PerfService | EventService | TopologyService | ProfilerService

text \<open>The methods a class defines and those a contract asks for; \<open>isinstance\<close> on a protocol compares the names.\<close>

fun methods_of :: "service \<Rightarrow> pystr set" where
  "methods_of (DrgnQueueService k) =
     {''lookup_device'', ''list_devices'', ''get_device_snapshot'', ''get_queue_entries'', ''get_completion_entries'',
      ''get_prp_payload'', ''get_tree_node''}"
| "methods_of (EbpfPerfService l) = {''get_performance''}"
| "methods_of (EbpfEventService l) = {''get_events'', ''get_error_stats'', ''list_event_kinds''}"
| "methods_of (DrgnTopologyService k) = {''get_topology''}"
| "methods_of (NvmeProfilerService k l t) =
     {''list_processes'', ''list_targets'', ''add_target'', ''remove_target'', ''get_profile''}"
| "methods_of MockPerfService = {''get_performance''}"
| "methods_of MockEventService = {''get_events'', ''get_error_stats'', ''list_event_kinds''}"
| "methods_of (MockProfilerService t) =
     {''list_processes'', ''list_targets'', ''add_target'', ''remove_target'', ''get_profile''}"

fun required :: "service_contract \<Rightarrow> pystr set" where
  "required QueueService =
     {''list_devices'', ''get_device_snapshot'', ''get_queue_entries'', ''get_completion_entries'', ''get_prp_payload'',
      ''get_tree_node''}"
| "required PerfService = {''get_performance''}"
| "required EventService = {''get_events'', ''get_error_stats'', ''list_event_kinds''}"
| "required TopologyService = {''get_topology''}"
| "required ProfilerService = {''list_processes'', ''list_targets'', ''add_target'', ''remove_target'', ''get_profile''}"

definition meets :: "service \<Rightarrow> service_contract \<Rightarrow> bool" where
  "meets svc c \<longleftrightarrow> required c \<subseteq> methods_of svc"

section \<open>The registry\<close>

type_synonym ServiceRegistry = "(pystr, service) dict"

datatype registry_error = ContractTypeError pystr service service_contract | ServiceNotRegisteredError pystr "pystr list"

definition register ::
  "pystr \<Rightarrow> service \<Rightarrow> service_contract option \<Rightarrow> ServiceRegistry \<Rightarrow> registry_error + ServiceRegistry" where
  "register name svc c reg =
     (case c of
        Some k \<Rightarrow> if \<not> meets svc k then Inl (ContractTypeError name svc k) else Inr (AList.update name svc reg)
      | None \<Rightarrow> Inr (AList.update name svc reg))"

definition names :: "ServiceRegistry \<Rightarrow> pystr list" where
  "names reg = sort (map fst reg)"

definition get :: "ServiceRegistry \<Rightarrow> pystr \<Rightarrow> registry_error + service" where
  "get reg name =
     (case map_of reg name of Some s \<Rightarrow> Inr s | None \<Rightarrow> Inl (ServiceNotRegisteredError name (names reg)))"

definition has :: "ServiceRegistry \<Rightarrow> pystr \<Rightarrow> bool" where
  "has reg name \<longleftrightarrow> name \<in> fst ` set reg"

text \<open>A chain of registrations on a new registry.\<close>

fun register_all ::
  "(pystr \<times> service \<times> service_contract option) list \<Rightarrow> ServiceRegistry \<Rightarrow> registry_error + ServiceRegistry" where
  "register_all [] reg = Inr reg"
| "register_all ((name, svc, c) # es) reg = bindE (register name svc c reg) (register_all es)"

section \<open>The assemblies\<close>

definition build_monolith_drgn :: "pystr option \<Rightarrow> registry_error + ServiceRegistry" where
  "build_monolith_drgn target_state =
     (let kernel = 0; log = 1
      in register_all
        [(''queues'', DrgnQueueService kernel, Some QueueService),
         (''perf'', EbpfPerfService log, Some PerfService),
         (''events'', EbpfEventService log, Some EventService),
         (''topology'', DrgnTopologyService kernel, Some TopologyService),
         (''profiler'', NvmeProfilerService kernel log target_state, Some ProfilerService)] [])"

definition build_monolith_mock :: "pystr option \<Rightarrow> registry_error + ServiceRegistry" where
  "build_monolith_mock target_state =
     register_all
        [(''perf'', MockPerfService, Some PerfService),
         (''events'', MockEventService, Some EventService),
         (''profiler'', MockProfilerService target_state, Some ProfilerService)] []"

fun kernel_refs :: "service \<Rightarrow> kernel_ref set" where
  "kernel_refs (DrgnQueueService k) = {k}"
| "kernel_refs (DrgnTopologyService k) = {k}"
| "kernel_refs (NvmeProfilerService k l t) = {k}"
| "kernel_refs s = {}"

fun log_refs :: "service \<Rightarrow> log_ref set" where
  "log_refs (EbpfPerfService l) = {l}"
| "log_refs (EbpfEventService l) = {l}"
| "log_refs (NvmeProfilerService k l t) = {l}"
| "log_refs s = {}"

section \<open>Laws\<close>

definition plain_entry :: "pystr \<times> service \<times> service_contract option \<Rightarrow> pystr \<times> service" where
  "plain_entry = (\<lambda>(n, s, c). (n, s))"

lemma register_Inr:
  "register name svc c reg = Inr reg' \<longleftrightarrow>
     (case c of None \<Rightarrow> True | Some k \<Rightarrow> meets svc k) \<and> reg' = AList.update name svc reg"
  by (auto simp: register_def split: option.splits)

lemma register_all_Inr:
  assumes "register_all es reg = Inr reg'" "dict_ok reg"
  shows "dict_ok reg' \<and> fst ` set reg' = fst ` set reg \<union> fst ` set es \<and>
    map_of reg' n = (case map_of (rev (map plain_entry es)) n of None \<Rightarrow> map_of reg n | Some s \<Rightarrow> Some s) \<and>
    (\<forall>(n, s, c) \<in> set es. case c of None \<Rightarrow> True | Some k \<Rightarrow> meets s k)"
  using assms
proof (induction es arbitrary: reg)
  case (Cons e es)
  obtain name svc c where e: "e = (name, svc, c)" by (cases e) auto
  with Cons.prems have reg: "register name svc c reg = Inr (AList.update name svc reg)"
    and rest: "register_all es (AList.update name svc reg) = Inr reg'"
    and met: "case c of None \<Rightarrow> True | Some k \<Rightarrow> meets svc k"
    by (auto simp: bindE_Inr register_Inr)
  from Cons.IH [OF rest dict_ok_update [OF Cons.prems(2)]] met show ?case
    by (auto simp: e dom_update plain_entry_def map_of_update map_add_def split: option.splits)
qed simp

lemma names_sorted_list: "dict_ok reg \<Longrightarrow> names reg = sorted_list_of_set (fst ` set reg)"
  using sorted_list_of_set_sort_remdups [of "map fst reg"] by (simp add: names_def dict_ok_def distinct_remdups_id)

section \<open>Properties\<close>

text \<open>
  The registry answers for what was registered.  When a chain of registrations succeeds, every service given with a
  contract has the methods of that contract; asking for a name gives the service registered last under it,
  and asking for any other name raises an error that lists the registered names once each, in order.
\<close>

theorem registry_lookup:
  assumes "register_all es [] = Inr reg"
  shows "(\<forall>(n, s, c) \<in> set es. case c of None \<Rightarrow> True | Some k \<Rightarrow> required k \<subseteq> methods_of s) \<and>
    get reg n = (case map_of (rev (map plain_entry es)) n of
      Some s \<Rightarrow> Inr s | None \<Rightarrow> Inl (ServiceNotRegisteredError n (sorted_list_of_set (fst ` set es))))"
proof -
  have "dict_ok ([] :: ServiceRegistry)" by (simp add: dict_ok_def)
  note r = register_all_Inr [OF assms this, of n]
  from r have "names reg = sorted_list_of_set (fst ` set es)" by (simp add: names_sorted_list)
  with r show ?thesis by (auto simp: get_def meets_def split: option.splits)
qed

text \<open>
  The services of the daemon share one kernel session and one log.  The assembly for a live kernel always
  succeeds and registers five services; all of them that read the kernel hold the same session, all that
  read the collector the same log source; the performance and event services hold no kernel session and
  the queue and topology services no log source.
\<close>

theorem monolith_shares_platform:
  "\<exists>reg. build_monolith_drgn target_state = Inr reg \<and>
     names reg = [''events'', ''perf'', ''profiler'', ''queues'', ''topology''] \<and>
     (\<exists>k. \<Union> (kernel_refs ` snd ` set reg) = {k}) \<and> (\<exists>l. \<Union> (log_refs ` snd ` set reg) = {l}) \<and>
     {n. \<exists>s. get reg n = Inr s \<and> kernel_refs s \<noteq> {}} = {''queues'', ''topology'', ''profiler''} \<and>
     {n. \<exists>s. get reg n = Inr s \<and> log_refs s \<noteq> {}} = {''perf'', ''events'', ''profiler''}"
proof -
  let ?reg = "[(''queues'', DrgnQueueService 0), (''perf'', EbpfPerfService 1), (''events'', EbpfEventService 1),
    (''topology'', DrgnTopologyService 0), (''profiler'', NvmeProfilerService 0 1 target_state)]"
  have "build_monolith_drgn target_state = Inr ?reg"
    by (simp add: build_monolith_drgn_def register_def meets_def Let_def)
  moreover have "names ?reg = [''events'', ''perf'', ''profiler'', ''queues'', ''topology'']"
    unfolding names_def list.map fst_conv by code_simp
  moreover have "\<Union> (kernel_refs ` snd ` set ?reg) = {0}" "\<Union> (log_refs ` snd ` set ?reg) = {1}" by auto
  moreover have "{n. \<exists>s. get ?reg n = Inr s \<and> kernel_refs s \<noteq> {}} = {''queues'', ''topology'', ''profiler''}"
    "{n. \<exists>s. get ?reg n = Inr s \<and> log_refs s \<noteq> {}} = {''perf'', ''events'', ''profiler''}"
    by (auto simp: get_def split: option.splits if_splits)
  ultimately show ?thesis by blast
qed

text \<open>The assembly without a kernel has no queue service, and says so.\<close>

theorem registry_lookup_witness:
  "\<exists>reg. build_monolith_mock None = Inr reg \<and>
     get reg ''queues'' = Inl (ServiceNotRegisteredError ''queues'' [''events'', ''perf'', ''profiler''])"
proof -
  let ?es = "[(''perf'', MockPerfService, Some PerfService), (''events'', MockEventService, Some EventService),
    (''profiler'', MockProfilerService None, Some ProfilerService)]"
  obtain reg where reg: "register_all ?es [] = Inr reg" by (simp add: register_def meets_def)
  have "sorted_list_of_set (fst ` set ?es) = [''events'', ''perf'', ''profiler'']" by code_simp
  with registry_lookup [OF reg, of "''queues''"] reg show ?thesis
    by (simp add: build_monolith_mock_def plain_entry_def)
qed

end
