(* ===== verification/ProfilerThreads.thy ===== *)
theory ProfilerThreads
  imports Profiler
begin

text \<open>
  The profiler service under two threads.  \<open>grpcserver/server.py\<close> runs \<open>GetProfile\<close> and \<open>ListProcesses\<close> on the worker thread
  of its executor and \<open>ListTargets\<close>, \<open>AddTarget\<close> and \<open>RemoveTarget\<close> on the event loop, on one service object
  (\<open>services/profiler/service.py\<close>) and one targets file.

  A step is a stretch of code between two places where the threads meet: a read or write of the attribute
  \<open>_targets\<close>, a change of a registry, a read or a replacement of the file.  A registry is an object in a store, since the
  attribute may come to refer to another one.  A schedule is the list of threads in the order in which they step.
\<close>

section \<open>What the threads share\<close>

record shared =
  sh_targets :: "nat option"          \<comment> \<open>\<open>_targets\<close>: a reference into the store\<close>
  sh_store :: "TargetRegistry list"
  sh_disk :: "state_doc option"

definition write_file :: "state_doc \<Rightarrow> shared \<Rightarrow> shared" where
  "write_file doc sh = sh\<lparr>sh_disk := Some doc\<rparr>"

definition put_object :: "nat \<Rightarrow> TargetRegistry \<Rightarrow> shared \<Rightarrow> shared" where
  "put_object r reg sh = sh\<lparr>sh_store := (sh_store sh)[r := reg]\<rparr>"

text \<open>
  \<open>_registry\<close>: look at the attribute, read the file, assign the new object, read the attribute again.
\<close>

datatype reg_pc = RCheck | RLoad | RAssign TargetRegistry | RReturn

fun registry_step :: "reg_pc \<Rightarrow> shared \<Rightarrow> (reg_pc + (exn + nat)) \<times> shared" where
  "registry_step RCheck sh = (Inl (if sh_targets sh = None then RLoad else RReturn), sh)"
| "registry_step RLoad sh =
     (case load MAX_FINISHED (sh_disk sh) of
        Inl e \<Rightarrow> (Inr (Inl e), sh)
      | Inr reg \<Rightarrow> (Inl (RAssign reg), sh))"
| "registry_step (RAssign reg) sh =
     (Inl RReturn, sh\<lparr>sh_store := sh_store sh @ [reg], sh_targets := Some (length (sh_store sh))\<rparr>)"
| "registry_step RReturn sh =
     (case sh_targets sh of
        None \<Rightarrow> (Inr (Inl (OtherError ''AttributeError'')), sh)
      | Some r \<Rightarrow> (Inr (Inr r), sh))"

section \<open>The event loop\<close>

text \<open>A request with the outcome of the write that it may need.\<close>

datatype loop_op = LList | LAdd bool TargetRule | LRemove bool pystr pystr

datatype loop_pc =
    LIdle
  | LReg reg_pc loop_op            \<comment> \<open>in the first call of \<open>_registry\<close>\<close>
  | LWrite state_doc               \<comment> \<open>the rules have changed, the file has not\<close>
  | LAnswer reg_pc                 \<comment> \<open>in the call of \<open>_registry\<close> for the answer\<close>

record loop_state =
  lo_pc :: loop_pc
  lo_todo :: "loop_op list"
  lo_answers :: "(exn + TargetRule list) list"

definition loop_answer :: "exn + TargetRule list \<Rightarrow> loop_state \<Rightarrow> loop_state" where
  "loop_answer a l = l\<lparr>lo_pc := LIdle, lo_answers := lo_answers l @ [a]\<rparr>"

definition after_change :: "state_doc option \<Rightarrow> loop_pc" where
  "after_change doc = (case doc of None \<Rightarrow> LAnswer RCheck | Some d \<Rightarrow> LWrite d)"

fun loop_apply :: "loop_op \<Rightarrow> nat \<Rightarrow> loop_state \<Rightarrow> shared \<Rightarrow> loop_state \<times> shared" where
  "loop_apply LList r l sh = (loop_answer (Inr (tg_rules (sh_store sh ! r))) l, sh)"
| "loop_apply (LAdd ok rule) r l sh =
     (case add_rule ok rule (sh_store sh ! r) None of
        Inl e \<Rightarrow> (loop_answer (Inl e) l, sh)
      | Inr (reg, doc) \<Rightarrow> (l\<lparr>lo_pc := after_change doc\<rparr>, put_object r reg sh))"
| "loop_apply (LRemove ok kind v) r l sh =
     (case remove_rule ok kind v (sh_store sh ! r) None of
        (changed, reg, doc) \<Rightarrow> (l\<lparr>lo_pc := after_change doc\<rparr>, put_object r reg sh))"

definition loop_step :: "loop_state \<Rightarrow> shared \<Rightarrow> loop_state \<times> shared" where
  "loop_step l sh =
     (case lo_pc l of
        LIdle \<Rightarrow>
          (case lo_todo l of
             [] \<Rightarrow> (l, sh)
           | op # ops \<Rightarrow> (l\<lparr>lo_pc := LReg RCheck op, lo_todo := ops\<rparr>, sh))
      | LReg pc op \<Rightarrow>
          (case registry_step pc sh of
             (Inl pc', sh') \<Rightarrow> (l\<lparr>lo_pc := LReg pc' op\<rparr>, sh')
           | (Inr (Inl e), sh') \<Rightarrow> (loop_answer (Inl e) l, sh')
           | (Inr (Inr r), sh') \<Rightarrow> loop_apply op r l sh')
      | LWrite doc \<Rightarrow> (l\<lparr>lo_pc := LAnswer RCheck\<rparr>, write_file doc sh)
      | LAnswer pc \<Rightarrow>
          (case registry_step pc sh of
             (Inl pc', sh') \<Rightarrow> (l\<lparr>lo_pc := LAnswer pc'\<rparr>, sh')
           | (Inr (Inl e), sh') \<Rightarrow> (loop_answer (Inl e) l, sh')
           | (Inr (Inr r), sh') \<Rightarrow> (loop_answer (Inr (tg_rules (sh_store sh' ! r))) l, sh')))"

section \<open>The worker\<close>

text \<open>
  A job of the worker with the processes (or the exception) and the statistics it reads; a listing whose kernel query
  fails does not come as far as the registry and is no job here.  \<open>refresh\<close> is cut at its writes: a session is entered
  and the document made of the registry, the file is replaced, the session is brought up to date.
\<close>

datatype worker_job = WProcesses | WProfile refresh_env "exn + ProcessInfo list" "ProcessIoStat list"

record refresh_run =
  rr_ref :: nat
  rr_env :: refresh_env
  rr_procs :: "ProcessInfo list"
  rr_stats :: "ProcessIoStat list"
  rr_writes :: nat
  rr_active :: "pystr list"

datatype worker_pc =
    WIdle
  | WReg reg_pc worker_job
  | WResolve refresh_run                                        \<comment> \<open>after the listing of the kernel\<close>
  | WTargets refresh_run "(int \<times> TargetRule) list"
  | WTargetWrite state_doc pystr refresh_run "(int \<times> TargetRule) list"
  | WUpdate pystr refresh_run "(int \<times> TargetRule) list"
  | WFinish refresh_run "pystr list"
  | WFinishWrite state_doc refresh_run "pystr list"

record worker_state =
  wo_pc :: worker_pc
  wo_todo :: "worker_job list"
  wo_rules :: "(exn + TargetRule list) list"    \<comment> \<open>the rules that each job has seen last\<close>

definition worker_answer :: "exn + TargetRule list \<Rightarrow> worker_state \<Rightarrow> worker_state" where
  "worker_answer a w = w\<lparr>wo_pc := WIdle, wo_rules := wo_rules w @ [a]\<rparr>"

definition new_run :: "nat \<Rightarrow> refresh_env \<Rightarrow> ProcessInfo list \<Rightarrow> ProcessIoStat list \<Rightarrow> refresh_run" where
  "new_run r env procs stats =
     \<lparr>rr_ref = r, rr_env = env, rr_procs = procs, rr_stats = stats, rr_writes = 0, rr_active = []\<rparr>"

definition refresh_step :: "worker_state \<Rightarrow> shared \<Rightarrow> worker_state \<times> shared" where
  "refresh_step w sh =
     (case wo_pc w of
        WResolve run \<Rightarrow>
          (w\<lparr>wo_pc := WTargets run
             (sort_key fst (resolve (rf_search (rr_env run)) (sh_store sh ! rr_ref run) (rr_procs run)))\<rparr>, sh)
      | WTargets run [] \<Rightarrow> (w\<lparr>wo_pc := WFinish run (map fst (tg_sessions (sh_store sh ! rr_ref run)))\<rparr>, sh)
      | WTargets run ((pid, rule) # rest) \<Rightarrow>
          (case ensure_session (rr_env run) pid (process_of_pid (rr_procs run) pid) rule
                  (sh_store sh ! rr_ref run, None, rr_writes run) of
             (sid, (reg, doc, n)) \<Rightarrow>
               (w\<lparr>wo_pc :=
                    (case doc of
                       None \<Rightarrow> WUpdate sid (run\<lparr>rr_writes := n\<rparr>) ((pid, rule) # rest)
                     | Some d \<Rightarrow> WTargetWrite d sid (run\<lparr>rr_writes := n\<rparr>) ((pid, rule) # rest))\<rparr>,
                put_object (rr_ref run) reg sh))
      | WTargetWrite doc sid run todo \<Rightarrow> (w\<lparr>wo_pc := WUpdate sid run todo\<rparr>, write_file doc sh)
      | WUpdate sid run [] \<Rightarrow> (w\<lparr>wo_pc := WTargets run []\<rparr>, sh)
      | WUpdate sid run ((pid, rule) # rest) \<Rightarrow>
          (let reg = sh_store sh ! rr_ref run;
               upd = update_session (rr_env run) pid (process_of_pid (rr_procs run) pid) rule
                 (stats_of_pid (rr_stats run) pid)
           in (w\<lparr>wo_pc := WTargets (run\<lparr>rr_active := rr_active run @ [sid]\<rparr>) rest\<rparr>,
               put_object (rr_ref run) (reg\<lparr>tg_sessions := AList.map_entry sid upd (tg_sessions reg)\<rparr>) sh))
      | WFinish run [] \<Rightarrow> (worker_answer (Inr (tg_rules (sh_store sh ! rr_ref run))) w, sh)
      | WFinish run (sid # sids) \<Rightarrow>
          (case finish_step (rr_env run) (rr_active run) sid (sh_store sh ! rr_ref run, None, rr_writes run) of
             (reg, doc, n) \<Rightarrow>
               (w\<lparr>wo_pc :=
                    (case doc of
                       None \<Rightarrow> WFinish (run\<lparr>rr_writes := n\<rparr>) sids
                     | Some d \<Rightarrow> WFinishWrite d (run\<lparr>rr_writes := n\<rparr>) sids)\<rparr>,
                put_object (rr_ref run) reg sh))
      | WFinishWrite doc run sids \<Rightarrow> (w\<lparr>wo_pc := WFinish run sids\<rparr>, write_file doc sh)
      | _ \<Rightarrow> (w, sh))"

fun job_start :: "worker_job \<Rightarrow> nat \<Rightarrow> worker_state \<Rightarrow> shared \<Rightarrow> worker_state \<times> shared" where
  "job_start WProcesses r w sh = (worker_answer (Inr (tg_rules (sh_store sh ! r))) w, sh)"
| "job_start (WProfile env listing stats) r w sh =
     (case listing of
        Inl e \<Rightarrow> (worker_answer (Inl e) w, sh)
      | Inr procs \<Rightarrow> (w\<lparr>wo_pc := WResolve (new_run r env procs stats)\<rparr>, sh))"

definition worker_step :: "worker_state \<Rightarrow> shared \<Rightarrow> worker_state \<times> shared" where
  "worker_step w sh =
     (case wo_pc w of
        WIdle \<Rightarrow>
          (case wo_todo w of
             [] \<Rightarrow> (w, sh)
           | job # jobs \<Rightarrow> (w\<lparr>wo_pc := WReg RCheck job, wo_todo := jobs\<rparr>, sh))
      | WReg pc job \<Rightarrow>
          (case registry_step pc sh of
             (Inl pc', sh') \<Rightarrow> (w\<lparr>wo_pc := WReg pc' job\<rparr>, sh')
           | (Inr (Inl e), sh') \<Rightarrow> (worker_answer (Inl e) w, sh')
           | (Inr (Inr r), sh') \<Rightarrow> job_start job r w sh')
      | _ \<Rightarrow> refresh_step w sh)"

section \<open>Schedules\<close>

record threads =
  th_loop :: loop_state
  th_worker :: worker_state
  th_shared :: shared

datatype thread = LoopThread | WorkerThread

fun thread_step :: "thread \<Rightarrow> threads \<Rightarrow> threads" where
  "thread_step LoopThread s =
     (case loop_step (th_loop s) (th_shared s) of (l, sh) \<Rightarrow> s\<lparr>th_loop := l, th_shared := sh\<rparr>)"
| "thread_step WorkerThread s =
     (case worker_step (th_worker s) (th_shared s) of (w, sh) \<Rightarrow> s\<lparr>th_worker := w, th_shared := sh\<rparr>)"

definition run_schedule :: "thread list \<Rightarrow> threads \<Rightarrow> threads" where
  "run_schedule sched s = fold thread_step sched s"

definition start_threads :: "loop_op list \<Rightarrow> worker_job list \<Rightarrow> shared \<Rightarrow> threads" where
  "start_threads ops jobs sh =
     \<lparr>th_loop = \<lparr>lo_pc = LIdle, lo_todo = ops, lo_answers = []\<rparr>,
      th_worker = \<lparr>wo_pc = WIdle, wo_todo = jobs, wo_rules = []\<rparr>, th_shared = sh\<rparr>"

definition idle :: "threads \<Rightarrow> bool" where
  "idle s \<longleftrightarrow>
     (case lo_pc (th_loop s) of LIdle \<Rightarrow> lo_todo (th_loop s) = [] | _ \<Rightarrow> False) \<and>
     (case wo_pc (th_worker s) of WIdle \<Rightarrow> (case wo_todo (th_worker s) of [] \<Rightarrow> True | _ \<Rightarrow> False) | _ \<Rightarrow> False)"


section \<open>The loop against a list of rules\<close>

text \<open>The specification: a request changes a list of rules at once, and answers it.\<close>

fun rules_after :: "loop_op \<Rightarrow> TargetRule list \<Rightarrow> TargetRule list" where
  "rules_after LList rules = rules"
| "rules_after (LAdd ok rule) rules = (if tr_kind rule \<in> set VALID_KINDS then put_rule rule rules else rules)"
| "rules_after (LRemove ok kind v) rules = drop_rule (kind, v) rules"

fun op_answer :: "loop_op \<Rightarrow> TargetRule list \<Rightarrow> exn + TargetRule list" where
  "op_answer (LAdd ok rule) rules =
     (if tr_kind rule \<in> set VALID_KINDS then Inr (put_rule rule rules) else Inl (ValueError (MsgRaw (tr_kind rule))))"
| "op_answer op rules = Inr (rules_after op rules)"

fun spec_answers :: "TargetRule list \<Rightarrow> loop_op list \<Rightarrow> (exn + TargetRule list) list" where
  "spec_answers rules [] = []"
| "spec_answers rules (op # ops) = op_answer op rules # spec_answers (rules_after op rules) ops"

text \<open>What the loop is still going to answer, and the rules it is going to leave.\<close>

definition pending :: "loop_state \<Rightarrow> loop_op list" where
  "pending l = (case lo_pc l of LReg pc op \<Rightarrow> op # lo_todo l | _ \<Rightarrow> lo_todo l)"

definition predicted :: "loop_state \<Rightarrow> TargetRule list \<Rightarrow> (exn + TargetRule list) list" where
  "predicted l rules =
     (case lo_pc l of LWrite doc \<Rightarrow> [Inr rules] | LAnswer pc \<Rightarrow> [Inr rules] | _ \<Rightarrow> []) @ spec_answers rules (pending l)"

text \<open>Steps of the loop until it is idle, once the registry is there.\<close>

definition loop_rank :: "loop_state \<Rightarrow> nat" where
  "loop_rank l = 6 * length (lo_todo l) +
     (case lo_pc l of LIdle \<Rightarrow> 0 | LReg pc op \<Rightarrow> if pc = RCheck then 5 else 4
      | LWrite doc \<Rightarrow> 3 | LAnswer pc \<Rightarrow> if pc = RCheck then 2 else 1)"

text \<open>The registry has been loaded, and no thread is about to load it again.\<close>

definition settled_pc :: "reg_pc \<Rightarrow> bool" where
  "settled_pc pc \<longleftrightarrow> pc = RCheck \<or> pc = RReturn"

definition loop_settled :: "loop_state \<Rightarrow> bool" where
  "loop_settled l \<longleftrightarrow> (case lo_pc l of LReg pc op \<Rightarrow> settled_pc pc | LAnswer pc \<Rightarrow> settled_pc pc | _ \<Rightarrow> True)"

definition worker_settled :: "nat \<Rightarrow> worker_state \<Rightarrow> bool" where
  "worker_settled r w \<longleftrightarrow>
     (case wo_pc w of
        WIdle \<Rightarrow> True | WReg pc job \<Rightarrow> settled_pc pc | WResolve run \<Rightarrow> rr_ref run = r | WTargets run ts \<Rightarrow> rr_ref run = r
      | WTargetWrite doc sid run ts \<Rightarrow> rr_ref run = r | WUpdate sid run ts \<Rightarrow> rr_ref run = r
      | WFinish run sids \<Rightarrow> rr_ref run = r | WFinishWrite doc run sids \<Rightarrow> rr_ref run = r)"

definition shared_settled :: "nat \<Rightarrow> shared \<Rightarrow> bool" where
  "shared_settled r sh \<longleftrightarrow> sh_targets sh = Some r \<and> r < length (sh_store sh)"

abbreviation rules_at :: "nat \<Rightarrow> shared \<Rightarrow> TargetRule list" where
  "rules_at r sh \<equiv> tg_rules (sh_store sh ! r)"

lemma registry_step_settled:
  assumes "shared_settled r sh" "settled_pc pc"
  shows "registry_step pc sh = (if pc = RCheck then Inl RReturn else Inr (Inr r), sh)"
  using assms by (auto simp: shared_settled_def settled_pc_def)

lemma put_object_settled:
  assumes "shared_settled r sh"
  shows "shared_settled r (put_object r reg sh)" "rules_at r (put_object r reg sh) = tg_rules reg"
  using assms by (simp_all add: shared_settled_def put_object_def)

lemma write_file_settled [simp]:
  "shared_settled r (write_file doc sh) = shared_settled r sh" "sh_store (write_file doc sh) = sh_store sh"
  by (simp_all add: shared_settled_def write_file_def)

lemma ensure_session_keeps: "ensure_session env pid proc rule st = (sid, st') \<Longrightarrow> tg_rules (fst st') = tg_rules (fst st)"
  using ensure_session_rules [of env pid proc rule st] by simp

lemma finish_step_keeps: "finish_step env active sid st = st' \<Longrightarrow> tg_rules (fst st') = tg_rules (fst st)"
  by (cases st) (auto simp: finish_step_def save_step_def split: option.split)

lemmas refresh_simps = refresh_step_def worker_settled_def worker_answer_def put_object_settled Let_def

text \<open>The worker does not touch the rules.\<close>

lemma refresh_step_settled:
  assumes "shared_settled r sh" "worker_settled r w" "refresh_step w sh = (w', sh')"
  shows "shared_settled r sh' \<and> worker_settled r w' \<and> rules_at r sh' = rules_at r sh"
proof (cases "wo_pc w")
  case (WTargets run ts)
  then show ?thesis
    using assms by (cases ts) (auto simp: refresh_simps split: prod.splits option.splits dest!: ensure_session_keeps)
next
  case (WUpdate sid run ts)
  then show ?thesis using assms by (cases ts) (auto simp: refresh_simps)
next
  case (WFinish run sids)
  then show ?thesis
    using assms by (cases sids) (auto simp: refresh_simps split: prod.splits option.splits dest!: finish_step_keeps)
qed (use assms in \<open>auto simp: refresh_simps\<close>)

lemma worker_step_settled:
  assumes "shared_settled r sh" "worker_settled r w" "worker_step w sh = (w', sh')"
  shows "shared_settled r sh' \<and> worker_settled r w' \<and> rules_at r sh' = rules_at r sh"
proof (cases "wo_pc w")
  case WIdle
  then show ?thesis using assms by (auto simp: worker_step_def worker_settled_def settled_pc_def split: list.splits)
next
  case (WReg pc job)
  then have pc: "settled_pc pc" using assms(2) by (simp add: worker_settled_def)
  show ?thesis
    using assms WReg registry_step_settled [OF assms(1) pc]
    by (cases job) (auto simp: worker_step_def worker_settled_def worker_answer_def new_run_def settled_pc_def split: if_splits sum.splits)
qed (use assms refresh_step_settled [OF assms(1,2)] in \<open>auto simp: worker_step_def\<close>)

lemma loop_apply_settled:
  assumes "shared_settled r sh" "loop_apply op r l sh = (l', sh')"
  shows "shared_settled r sh' \<and> loop_settled l' \<and> lo_todo l' = lo_todo l \<and> loop_rank l' \<le> 6 * length (lo_todo l) + 3 \<and>
    lo_answers l' @ predicted l' (rules_at r sh') = lo_answers l @ spec_answers (rules_at r sh) (op # lo_todo l) \<and>
    fold rules_after (pending l') (rules_at r sh') = fold rules_after (op # lo_todo l) (rules_at r sh)"
proof (cases op)
  case LList
  then show ?thesis using assms
    by (auto simp: loop_answer_def loop_settled_def loop_rank_def predicted_def pending_def)
next
  case (LAdd ok rule)
  then show ?thesis using assms
    by (cases "tr_kind rule \<in> set VALID_KINDS")
      (auto simp: add_rule_put, auto simp: add_rule_def loop_answer_def after_change_def put_object_settled loop_settled_def settled_pc_def loop_rank_def
         predicted_def pending_def split: option.split)
next
  case (LRemove ok kind v)
  then show ?thesis using assms
    by (auto simp: remove_rule_drop after_change_def put_object_settled loop_settled_def settled_pc_def loop_rank_def
        predicted_def pending_def split: option.split)
qed

lemma loop_step_settled:
  assumes "shared_settled r sh" "loop_settled l" "loop_step l sh = (l', sh')"
  shows "shared_settled r sh' \<and> loop_settled l' \<and> loop_rank l' \<le> loop_rank l - 1 \<and>
    lo_answers l' @ predicted l' (rules_at r sh') = lo_answers l @ predicted l (rules_at r sh) \<and>
    fold rules_after (pending l') (rules_at r sh') = fold rules_after (pending l) (rules_at r sh)"
proof (cases "lo_pc l")
  case LIdle
  then show ?thesis using assms
    by (auto simp: loop_step_def loop_settled_def settled_pc_def loop_rank_def predicted_def pending_def split: list.splits)
next
  case (LReg pc op)
  then have pc: "settled_pc pc" using assms(2) by (simp add: loop_settled_def)
  show ?thesis
  proof (cases "pc = RCheck")
    case True
    then show ?thesis using assms LReg registry_step_settled [OF assms(1) pc]
      by (auto simp: loop_step_def loop_settled_def settled_pc_def loop_rank_def predicted_def pending_def)
  next
    case False
    then have "loop_apply op r l sh = (l', sh')"
      using assms LReg registry_step_settled [OF assms(1) pc] by (simp add: loop_step_def)
    from loop_apply_settled [OF assms(1) this] show ?thesis using LReg False
      by (auto simp: loop_rank_def predicted_def pending_def)
  qed
next
  case (LWrite doc)
  then show ?thesis using assms
    by (auto simp: loop_step_def loop_settled_def settled_pc_def loop_rank_def predicted_def pending_def)
next
  case (LAnswer pc)
  then have pc: "settled_pc pc" using assms(2) by (simp add: loop_settled_def)
  show ?thesis using assms LAnswer registry_step_settled [OF assms(1) pc]
    by (cases "pc = RCheck")
      (auto simp: loop_step_def loop_answer_def loop_settled_def settled_pc_def loop_rank_def predicted_def pending_def)
qed

definition settled :: "nat \<Rightarrow> threads \<Rightarrow> bool" where
  "settled r s \<longleftrightarrow> shared_settled r (th_shared s) \<and> loop_settled (th_loop s) \<and> worker_settled r (th_worker s)"

text \<open>What no step changes: the answers given with those to come, and the rules to come.\<close>

definition run_outcome :: "nat \<Rightarrow> threads \<Rightarrow> (exn + TargetRule list) list \<times> TargetRule list" where
  "run_outcome r s =
     (lo_answers (th_loop s) @ predicted (th_loop s) (rules_at r (th_shared s)),
      fold rules_after (pending (th_loop s)) (rules_at r (th_shared s)))"

lemma thread_step_settled:
  assumes "settled r s"
  shows "settled r (thread_step t s) \<and> run_outcome r (thread_step t s) = run_outcome r s \<and>
    loop_rank (th_loop (thread_step t s)) \<le> loop_rank (th_loop s) - (if t = LoopThread then 1 else 0)"
proof (cases t)
  case LoopThread
  obtain l sh where "loop_step (th_loop s) (th_shared s) = (l, sh)" by (cases "loop_step (th_loop s) (th_shared s)")
  with loop_step_settled [OF _ _ this, of r] assms LoopThread show ?thesis
    by (simp add: settled_def run_outcome_def)
next
  case WorkerThread
  obtain w sh where "worker_step (th_worker s) (th_shared s) = (w, sh)" by (cases "worker_step (th_worker s) (th_shared s)")
  with worker_step_settled [OF _ _ this, of r] assms WorkerThread show ?thesis
    by (simp add: settled_def run_outcome_def)
qed

lemma run_schedule_settled:
  "settled r s \<Longrightarrow> settled r (run_schedule sched s) \<and> run_outcome r (run_schedule sched s) = run_outcome r s \<and>
    loop_rank (th_loop (run_schedule sched s)) \<le> loop_rank (th_loop s) - count_list sched LoopThread"
proof (induction sched arbitrary: s)
  case (Cons t sched)
  from thread_step_settled [OF Cons.prems, of t] Cons.IH [of "thread_step t s"] show ?case
    by (auto simp: run_schedule_def split: if_splits)
qed (simp add: run_schedule_def)

text \<open>
  C12: once the registry is loaded, the threads do not disturb the rules.  Whatever the worker does meanwhile and
  however the two threads are scheduled, the event loop answers every request as if it had the rules to itself,
  after at most six of its own steps each, and the registry holds the rules that the requests leave.
\<close>

theorem rules_undisturbed:
  assumes "sh_targets sh = Some r" and "r < length (sh_store sh)"
    and "6 * length ops \<le> count_list sched LoopThread"
  shows "let s = run_schedule sched (start_threads ops jobs sh) in
    lo_pc (th_loop s) = LIdle \<and> lo_todo (th_loop s) = [] \<and>
    lo_answers (th_loop s) = spec_answers (tg_rules (sh_store sh ! r)) ops \<and>
    sh_targets (th_shared s) = Some r \<and>
    tg_rules (sh_store (th_shared s) ! r) = fold rules_after ops (tg_rules (sh_store sh ! r))"
proof -
  let ?start = "start_threads ops jobs sh" and ?s = "run_schedule sched (start_threads ops jobs sh)"
  have "settled r ?start"
    using assms(1,2)
    by (simp add: settled_def start_threads_def shared_settled_def loop_settled_def worker_settled_def)
  note run = run_schedule_settled [OF this, of sched]
  have "loop_rank (th_loop ?start) = 6 * length ops" by (simp add: start_threads_def loop_rank_def)
  with run assms(3) have "loop_rank (th_loop ?s) = 0" by simp
  then have idle: "lo_pc (th_loop ?s) = LIdle" "lo_todo (th_loop ?s) = []"
    by (auto simp: loop_rank_def split: loop_pc.splits if_splits)
  have "run_outcome r ?start = (spec_answers (rules_at r sh) ops, fold rules_after ops (rules_at r sh))"
    by (simp add: run_outcome_def start_threads_def predicted_def pending_def)
  with run idle show ?thesis
    by (simp add: run_outcome_def predicted_def pending_def settled_def shared_settled_def)
qed

section \<open>A thread alone\<close>

text \<open>
  Without the other thread the steps compose to the calls of the service: the shared state stands for the world of
  \<open>Profiler\<close>, in which a call is one function.
\<close>

definition shares :: "profiler_world \<Rightarrow> shared \<Rightarrow> bool" where
  "shares w sh \<longleftrightarrow> sh_disk sh = pw_disk w \<and>
     (case sh_targets sh of
        None \<Rightarrow> pf_targets (pw_service w) = None
      | Some r \<Rightarrow> r < length (sh_store sh) \<and> pf_targets (pw_service w) = Some (sh_store sh ! r))"

fun loop_call :: "loop_op \<Rightarrow> profiler_world \<Rightarrow> (exn + TargetRule list) \<times> profiler_world" where
  "loop_call LList w = list_targets w"
| "loop_call (LAdd ok rule) w = add_target ok rule w"
| "loop_call (LRemove ok kind v) w = remove_target ok kind v w"

lemma save_None: "save ok reg disk = (case save ok reg None of None \<Rightarrow> disk | Some d \<Rightarrow> Some d)"
  by (simp add: save_def)

text \<open>The document of a call whose file is given later.\<close>

lemma ensure_session_None:
  assumes "ensure_session env pid proc rule (reg, None, n) = (sid, reg', doc, n')"
  shows "ensure_session env pid proc rule (reg, disk, n) = (sid, reg', case doc of None \<Rightarrow> disk | Some d \<Rightarrow> Some d, n')"
  using assms by (auto simp: ensure_session_def save_step_def Let_def save_None [of _ _ disk] split: option.splits)

lemma finish_step_None:
  assumes "finish_step env active sid (reg, None, n) = (reg', doc, n')"
  shows "finish_step env active sid (reg, disk, n) = (reg', case doc of None \<Rightarrow> disk | Some d \<Rightarrow> Some d, n')"
  using assms by (auto simp: finish_step_def save_step_def save_None [of _ _ disk] split: option.splits if_splits)

definition worker_runs :: "worker_state \<Rightarrow> shared \<Rightarrow> worker_state \<Rightarrow> shared \<Rightarrow> bool" where
  "worker_runs w sh w' sh' \<longleftrightarrow> (\<lambda>(w, sh) p. worker_step w sh = p)\<^sup>*\<^sup>* (w, sh) (w', sh')"

lemma worker_runs_refl [simp]: "worker_runs w sh w sh"
  by (simp add: worker_runs_def)

lemma worker_runs_step: "worker_step w sh = (w1, sh1) \<Longrightarrow> worker_runs w1 sh1 w' sh' \<Longrightarrow> worker_runs w sh w' sh'"
  unfolding worker_runs_def by (rule converse_rtranclp_into_rtranclp [of _ _ "(w1, sh1)"]) auto

lemma worker_runs_trans: "worker_runs w sh w1 sh1 \<Longrightarrow> worker_runs w1 sh1 w' sh' \<Longrightarrow> worker_runs w sh w' sh'"
  unfolding worker_runs_def by (rule rtranclp_trans)

lemma worker_runs_schedule:
  assumes "worker_runs w sh w' sh'"
  shows "\<exists>n. run_schedule (replicate n WorkerThread) \<lparr>th_loop = l, th_worker = w, th_shared = sh\<rparr> =
    \<lparr>th_loop = l, th_worker = w', th_shared = sh'\<rparr>"
  using assms unfolding worker_runs_def
proof (induction "(w, sh)" arbitrary: w sh rule: converse_rtranclp_induct)
  case base
  show ?case by (rule exI [of _ 0]) (simp add: run_schedule_def)
next
  case (step p)
  then obtain n where "run_schedule (replicate n WorkerThread) \<lparr>th_loop = l, th_worker = fst p, th_shared = snd p\<rparr> =
      \<lparr>th_loop = l, th_worker = w', th_shared = sh'\<rparr>" by fastforce
  with step(1) show ?case by (intro exI [of _ "Suc n"]) (auto simp: run_schedule_def split: prod.splits)
qed

definition at_ref :: "nat \<Rightarrow> TargetRegistry \<Rightarrow> state_doc option \<Rightarrow> shared \<Rightarrow> bool" where
  "at_ref r reg disk sh \<longleftrightarrow> shared_settled r sh \<and> sh_store sh ! r = reg \<and> sh_disk sh = disk"

lemma at_ref_put: "at_ref r reg disk sh \<Longrightarrow> at_ref r reg' disk (put_object r reg' sh)"
  by (simp add: at_ref_def shared_settled_def put_object_def)

lemma at_ref_saved:
  "at_ref r reg disk sh \<Longrightarrow> at_ref r reg' (case doc of None \<Rightarrow> disk | Some d \<Rightarrow> Some d)
     (case doc of None \<Rightarrow> put_object r reg' sh | Some d \<Rightarrow> write_file d (put_object r reg' sh))"
  by (cases doc) (simp_all add: at_ref_def shared_settled_def put_object_def write_file_def)

lemma targets_alone:
  assumes "at_ref (rr_ref run) reg disk sh" "wo_pc w = WTargets run ts"
    and "fold (refresh_target (rr_env run) (rr_procs run) (rr_stats run)) ts ((reg, disk, rr_writes run), rr_active run)
      = ((reg', disk', n'), active')"
  shows "\<exists>sh'. at_ref (rr_ref run) reg' disk' sh' \<and>
    worker_runs w sh (w\<lparr>wo_pc := WTargets (run\<lparr>rr_writes := n', rr_active := active'\<rparr>) []\<rparr>) sh'"
  using assms
proof (induction ts arbitrary: run reg disk sh w)
  case Nil
  then have "w\<lparr>wo_pc := WTargets (run\<lparr>rr_writes := n', rr_active := active'\<rparr>) []\<rparr> = w" by (cases w) simp
  with Nil show ?case by (metis fold_simps(1) prod.inject worker_runs_refl)
next
  case (Cons t ts)
  obtain pid rule where t: "t = (pid, rule)" by (cases t)
  let ?proc = "process_of_pid (rr_procs run) pid"
  let ?upd = "update_session (rr_env run) pid ?proc rule (stats_of_pid (rr_stats run) pid)"
  obtain sid reg1 doc n1 where e: "ensure_session (rr_env run) pid ?proc rule (reg, None, rr_writes run) = (sid, reg1, doc, n1)"
    by (metis prod_cases4)
  let ?disk = "case doc of None \<Rightarrow> disk | Some d \<Rightarrow> Some d"
  let ?run = "run\<lparr>rr_writes := n1\<rparr>" and ?run2 = "run\<lparr>rr_writes := n1, rr_active := rr_active run @ [sid]\<rparr>"
  let ?reg2 = "reg1\<lparr>tg_sessions := AList.map_entry sid ?upd (tg_sessions reg1)\<rparr>"
  let ?shm = "case doc of None \<Rightarrow> put_object (rr_ref run) reg1 sh | Some d \<Rightarrow> write_file d (put_object (rr_ref run) reg1 sh)"
  have mid: "at_ref (rr_ref run) reg1 ?disk ?shm"
    using Cons.prems(1) by (rule at_ref_saved)
  then have after: "at_ref (rr_ref run) ?reg2 ?disk (put_object (rr_ref run) ?reg2 ?shm)" by (rule at_ref_put)
  have "fold (refresh_target (rr_env run) (rr_procs run) (rr_stats run)) ts ((?reg2, ?disk, n1), rr_active run @ [sid])
      = ((reg', disk', n'), active')"
    using Cons.prems(3) ensure_session_None [OF e, of disk] by (simp add: t refresh_target_def)
  with Cons.IH [of ?run2 ?reg2 ?disk "put_object (rr_ref run) ?reg2 ?shm" "w\<lparr>wo_pc := WTargets ?run2 ts\<rparr>"] after
  obtain sh' where sh': "at_ref (rr_ref run) reg' disk' sh'"
    "worker_runs (w\<lparr>wo_pc := WTargets ?run2 ts\<rparr>) (put_object (rr_ref run) ?reg2 ?shm)
       (w\<lparr>wo_pc := WTargets (run\<lparr>rr_writes := n', rr_active := active'\<rparr>) []\<rparr>) sh'"
    by auto
  have store: "sh_store sh ! rr_ref run = reg" "sh_store ?shm ! rr_ref run = reg1"
    using Cons.prems(1) mid by (simp_all add: at_ref_def)
  have upd: "worker_step (w\<lparr>wo_pc := WUpdate sid ?run (t # ts)\<rparr>) ?shm =
      (w\<lparr>wo_pc := WTargets ?run2 ts\<rparr>, put_object (rr_ref run) ?reg2 ?shm)"
    using store(2) by (simp add: worker_step_def refresh_step_def t Let_def)
  have "worker_runs w sh (w\<lparr>wo_pc := WUpdate sid ?run (t # ts)\<rparr>) ?shm"
  proof (cases doc)
    case None
    with e Cons.prems(2) store(1) have "worker_step w sh = (w\<lparr>wo_pc := WUpdate sid ?run (t # ts)\<rparr>, ?shm)"
      by (simp add: worker_step_def refresh_step_def t)
    then show ?thesis by (rule worker_runs_step) simp
  next
    case (Some d)
    with e Cons.prems(2) store(1)
    have "worker_step w sh = (w\<lparr>wo_pc := WTargetWrite d sid ?run (t # ts)\<rparr>, put_object (rr_ref run) reg1 sh)"
      by (simp add: worker_step_def refresh_step_def t)
    moreover have "worker_step (w\<lparr>wo_pc := WTargetWrite d sid ?run (t # ts)\<rparr>) (put_object (rr_ref run) reg1 sh) =
        (w\<lparr>wo_pc := WUpdate sid ?run (t # ts)\<rparr>, ?shm)"
      using Some by (simp add: worker_step_def refresh_step_def)
    ultimately show ?thesis by (meson worker_runs_refl worker_runs_step)
  qed
  from worker_runs_trans [OF this worker_runs_step [OF upd sh'(2)]]
  show ?case using sh'(1) by blast
qed

lemma finishes_alone:
  assumes "at_ref (rr_ref run) reg disk sh" "wo_pc w = WFinish run sids"
    and "fold (finish_step (rr_env run) (rr_active run)) sids (reg, disk, rr_writes run) = (reg', disk', n')"
  shows "\<exists>sh'. at_ref (rr_ref run) reg' disk' sh' \<and> worker_runs w sh (worker_answer (Inr (tg_rules reg')) w) sh'"
  using assms
proof (induction sids arbitrary: run reg disk sh w)
  case Nil
  then have "worker_step w sh = (worker_answer (Inr (tg_rules reg')) w, sh)"
    by (simp add: worker_step_def refresh_step_def at_ref_def)
  with Nil show ?case by (metis fold_simps(1) prod.inject worker_runs_refl worker_runs_step)
next
  case (Cons sid sids)
  obtain reg1 doc n1 where f: "finish_step (rr_env run) (rr_active run) sid (reg, None, rr_writes run) = (reg1, doc, n1)"
    by (metis prod_cases3)
  let ?disk = "case doc of None \<Rightarrow> disk | Some d \<Rightarrow> Some d" and ?run = "run\<lparr>rr_writes := n1\<rparr>"
  let ?shm = "case doc of None \<Rightarrow> put_object (rr_ref run) reg1 sh | Some d \<Rightarrow> write_file d (put_object (rr_ref run) reg1 sh)"
  have mid: "at_ref (rr_ref run) reg1 ?disk ?shm"
    using Cons.prems(1) by (rule at_ref_saved)
  have "fold (finish_step (rr_env run) (rr_active run)) sids (reg1, ?disk, n1) = (reg', disk', n')"
    using Cons.prems(3) finish_step_None [OF f, of disk] by simp
  with Cons.IH [of ?run reg1 ?disk ?shm "w\<lparr>wo_pc := WFinish ?run sids\<rparr>"] mid
  obtain sh' where sh': "at_ref (rr_ref run) reg' disk' sh'"
    "worker_runs (w\<lparr>wo_pc := WFinish ?run sids\<rparr>) ?shm (worker_answer (Inr (tg_rules reg')) w) sh'"
    by (auto simp: worker_answer_def)
  have store: "sh_store sh ! rr_ref run = reg" using Cons.prems(1) by (simp add: at_ref_def)
  have "worker_runs w sh (worker_answer (Inr (tg_rules reg')) w) sh'"
  proof (cases doc)
    case None
    with f Cons.prems(2) store have "worker_step w sh = (w\<lparr>wo_pc := WFinish ?run sids\<rparr>, ?shm)"
      by (simp add: worker_step_def refresh_step_def)
    from worker_runs_step [OF this sh'(2)] show ?thesis .
  next
    case (Some d)
    with f Cons.prems(2) store
    have "worker_step w sh = (w\<lparr>wo_pc := WFinishWrite d ?run sids\<rparr>, put_object (rr_ref run) reg1 sh)"
      by (simp add: worker_step_def refresh_step_def)
    moreover have "worker_step (w\<lparr>wo_pc := WFinishWrite d ?run sids\<rparr>) (put_object (rr_ref run) reg1 sh) =
        (w\<lparr>wo_pc := WFinish ?run sids\<rparr>, ?shm)"
      using Some by (simp add: worker_step_def refresh_step_def)
    ultimately show ?thesis using sh'(2) by (meson worker_runs_step)
  qed
  with sh'(1) show ?case by blast
qed

text \<open>The call of \<open>_registry\<close> and the rest of \<open>get_profile\<close> on the worker.\<close>

definition profile_call ::
  "refresh_env \<Rightarrow> ProcessInfo list \<Rightarrow> ProcessIoStat list \<Rightarrow> profiler_world \<Rightarrow> (exn + TargetRule list) \<times> profiler_world" where
  "profile_call env procs stats w =
     (case registry w of
        (Inl e, w1) \<Rightarrow> (Inl e, w1)
      | (Inr reg, w1) \<Rightarrow>
          (case refresh env procs stats reg (pw_disk w1) of
             (snap, reg', disk) \<Rightarrow> (Inr (sn_rules snap), put_registry reg' disk w1)))"

lemma refresh_alone:
  assumes "at_ref r reg disk sh" "wo_pc w = WResolve (new_run r env procs stats)"
    and "refresh env procs stats reg disk = (snap, reg', disk')"
  shows "\<exists>sh'. at_ref r reg' disk' sh' \<and> worker_runs w sh (worker_answer (Inr (sn_rules snap)) w) sh'"
proof -
  let ?run = "new_run r env procs stats"
  let ?ts = "sort_key fst (resolve (rf_search env) reg procs)"
  obtain reg1 disk1 n1 active where t: "fold (refresh_target env procs stats) ?ts ((reg, disk, 0), []) = ((reg1, disk1, n1), active)"
    by (metis prod.exhaust)
  obtain reg2 disk2 n2 where f: "fold (finish_step env active) (map fst (tg_sessions reg1)) (reg1, disk1, n1) = (reg2, disk2, n2)"
    by (metis prod.exhaust)
  have end_: "reg2 = reg'" "disk2 = disk'" "sn_rules snap = tg_rules reg'"
    using assms(3) t f by (auto simp: refresh_def Let_def)
  let ?run1 = "?run\<lparr>rr_writes := n1, rr_active := active\<rparr>"
  from targets_alone [where run = ?run and w = "w\<lparr>wo_pc := WTargets ?run ?ts\<rparr>" and ts = ?ts and sh = sh
      and reg = reg and disk = disk and reg' = reg1 and disk' = disk1 and n' = n1 and active' = active] assms(1) t
  obtain sh1 where sh1: "at_ref r reg1 disk1 sh1"
    "worker_runs (w\<lparr>wo_pc := WTargets ?run ?ts\<rparr>) sh (w\<lparr>wo_pc := WTargets ?run1 []\<rparr>) sh1"
    by (auto simp: new_run_def)
  from finishes_alone [where run = ?run1 and sids = "map fst (tg_sessions reg1)"
      and w = "w\<lparr>wo_pc := WFinish ?run1 (map fst (tg_sessions reg1))\<rparr>" and sh = sh1
      and reg = reg1 and disk = disk1 and reg' = reg2 and disk' = disk2 and n' = n2] sh1(1) f end_
  obtain sh2 where sh2: "at_ref r reg' disk' sh2"
    "worker_runs (w\<lparr>wo_pc := WFinish ?run1 (map fst (tg_sessions reg1))\<rparr>) sh1 (worker_answer (Inr (sn_rules snap)) w) sh2"
    by (auto simp: new_run_def worker_answer_def)
  have "worker_step w sh = (w\<lparr>wo_pc := WTargets ?run ?ts\<rparr>, sh)"
    "worker_step (w\<lparr>wo_pc := WTargets ?run1 []\<rparr>) sh1 = (w\<lparr>wo_pc := WFinish ?run1 (map fst (tg_sessions reg1))\<rparr>, sh1)"
    using assms(1,2) sh1(1) by (simp_all add: worker_step_def refresh_step_def at_ref_def new_run_def)
  then have "worker_runs w sh (w\<lparr>wo_pc := WTargets ?run1 []\<rparr>) sh1"
    "worker_runs (w\<lparr>wo_pc := WTargets ?run1 []\<rparr>) sh1 (worker_answer (Inr (sn_rules snap)) w) sh2"
    using sh1(2) sh2(2) by (auto intro: worker_runs_step)
  then have "worker_runs w sh (worker_answer (Inr (sn_rules snap)) w) sh2"
    by (rule worker_runs_trans)
  with sh2(1) show ?thesis by blast
qed

lemma at_ref_shares: "at_ref r reg disk sh \<Longrightarrow> shares (put_registry reg disk w) sh"
  by (simp add: shares_def at_ref_def shared_settled_def put_registry_def)

text \<open>\<open>_registry\<close> on the worker.\<close>

lemma registry_worker:
  assumes "shares w sh" "wo_pc v = WReg RCheck job"
  shows "case registry w of
      (Inl e, w') \<Rightarrow> worker_runs v sh (worker_answer (Inl e) v) sh \<and> w' = w
    | (Inr reg, w') \<Rightarrow> \<exists>r sh1. at_ref r reg (pw_disk w') sh1 \<and>
        worker_runs v sh (fst (job_start job r v sh1)) (snd (job_start job r v sh1))"
proof (cases "registry w")
  case (Pair x w')
  show ?thesis
  proof (cases "sh_targets sh")
    case (Some r)
    with assms(1) have reg: "x = Inr (sh_store sh ! r)" "w' = w" "at_ref r (sh_store sh ! r) (pw_disk w) sh"
      using Pair by (auto simp: shares_def registry_def at_ref_def shared_settled_def)
    have "worker_step v sh = (v\<lparr>wo_pc := WReg RReturn job\<rparr>, sh)"
      using Some assms(2) by (simp add: worker_step_def)
    moreover have "worker_step (v\<lparr>wo_pc := WReg RReturn job\<rparr>) sh = job_start job r v sh"
      using Some by (cases job) (auto simp: worker_step_def worker_answer_def split: sum.split)
    ultimately have "worker_runs v sh (fst (job_start job r v sh)) (snd (job_start job r v sh))"
      by (metis prod.collapse worker_runs_refl worker_runs_step)
    with reg Pair show ?thesis by auto
  next
    case None
    have check: "worker_step v sh = (v\<lparr>wo_pc := WReg RLoad job\<rparr>, sh)"
      using None assms(2) by (simp add: worker_step_def)
    show ?thesis
    proof (cases "load MAX_FINISHED (sh_disk sh)")
      case (Inl e)
      then have "worker_step (v\<lparr>wo_pc := WReg RLoad job\<rparr>) sh = (worker_answer (Inl e) v, sh)"
        by (simp add: worker_step_def worker_answer_def)
      from worker_runs_step [OF check worker_runs_step [OF this worker_runs_refl]]
      show ?thesis using Inl assms(1) None by (simp add: registry_def shares_def)
    next
      case (Inr reg)
      let ?sh = "sh\<lparr>sh_store := sh_store sh @ [reg], sh_targets := Some (length (sh_store sh))\<rparr>"
      have "worker_step (v\<lparr>wo_pc := WReg RLoad job\<rparr>) sh = (v\<lparr>wo_pc := WReg (RAssign reg) job\<rparr>, sh)"
        "worker_step (v\<lparr>wo_pc := WReg (RAssign reg) job\<rparr>) sh = (v\<lparr>wo_pc := WReg RReturn job\<rparr>, ?sh)"
        "worker_step (v\<lparr>wo_pc := WReg RReturn job\<rparr>) ?sh = job_start job (length (sh_store sh)) v ?sh"
        using Inr by (cases job; auto simp: worker_step_def worker_answer_def split: sum.split)+
      with check have "worker_runs v sh (fst (job_start job (length (sh_store sh)) v ?sh)) (snd (job_start job (length (sh_store sh)) v ?sh))"
        by (metis prod.collapse worker_runs_refl worker_runs_step)
      moreover have "x = Inr reg" "at_ref (length (sh_store sh)) reg (pw_disk w') ?sh"
        using Pair Inr assms(1) None by (auto simp: registry_def shares_def at_ref_def shared_settled_def)
      ultimately show ?thesis using Pair by auto
    qed
  qed
qed

lemma profile_alone:
  assumes "shares w sh" "wo_pc v = WReg RCheck (WProfile env (Inr procs) stats)"
  shows "\<exists>sh'. worker_runs v sh (worker_answer (fst (profile_call env procs stats w)) v) sh' \<and>
    shares (snd (profile_call env procs stats w)) sh'"
proof (cases "registry w")
  case (Pair x w1)
  note reg = registry_worker [OF assms]
  show ?thesis
  proof (cases x)
    case (Inl e)
    with reg Pair assms(1) show ?thesis by (auto simp: profile_call_def)
  next
    case (Inr g)
    from reg Pair Inr obtain r sh1 where r: "at_ref r g (pw_disk w1) sh1"
      "worker_runs v sh (v\<lparr>wo_pc := WResolve (new_run r env procs stats)\<rparr>) sh1" by auto
    obtain snap g' disk where f: "refresh env procs stats g (pw_disk w1) = (snap, g', disk)" by (metis prod_cases3)
    from refresh_alone [OF r(1) _ f, of "v\<lparr>wo_pc := WResolve (new_run r env procs stats)\<rparr>"] obtain sh2 where
      sh2: "at_ref r g' disk sh2"
      "worker_runs (v\<lparr>wo_pc := WResolve (new_run r env procs stats)\<rparr>) sh1 (worker_answer (Inr (sn_rules snap)) v) sh2"
      by (auto simp: worker_answer_def)
    from worker_runs_trans [OF r(2) sh2(2)] at_ref_shares [OF sh2(1)] show ?thesis
      using Pair Inr f by (auto simp: profile_call_def)
  qed
qed

text \<open>The calls of the event loop.\<close>

lemmas run_loop = numeral_eq_Suc run_schedule_def start_threads_def loop_step_def loop_answer_def Let_def
  registry_def shares_def after_change_def put_object_def write_file_def put_registry_def save_def

lemma loop_from_registry:
  assumes "shared_settled r sh"
  shows "let s = run_schedule (replicate 4 LoopThread)
      \<lparr>th_loop = \<lparr>lo_pc = LReg RReturn op, lo_todo = [], lo_answers = []\<rparr>, th_worker = v, th_shared = sh\<rparr>;
      w = \<lparr>pw_service = \<lparr>pf_log = src, pf_targets = Some (sh_store sh ! r)\<rparr>, pw_cache = c, pw_disk = sh_disk sh\<rparr>
    in lo_answers (th_loop s) = [fst (loop_call op w)] \<and> shares (snd (loop_call op w)) (th_shared s)"
proof -
  from assms have [simp]: "sh_targets sh = Some r" and len: "r < length (sh_store sh)" by (simp_all add: shared_settled_def)
  show ?thesis
  proof (cases op)
    case LList
    with len show ?thesis by (simp add: run_loop list_targets_def)
  next
    case (LAdd ok rule)
    with len show ?thesis
      by (cases "tr_kind rule \<in> set VALID_KINDS"; cases ok) (simp_all add: run_loop add_target_def add_rule_def)
  next
    case (LRemove ok kind v)
    with len show ?thesis
      by (cases "rule_map (tg_rules (sh_store sh ! r)) (kind, v)"; cases ok)
        (simp_all add: run_loop remove_target_def remove_rule_drop)
  qed
qed

lemma run_after:
  "run_schedule (replicate m t) s = s1 \<Longrightarrow> run_schedule (replicate (m + n) t) s = run_schedule (replicate n t) s1"
  by (auto simp: run_schedule_def replicate_add)

lemma loop_alone:
  assumes "shares w sh"
  shows "\<exists>n. let s = run_schedule (replicate n LoopThread) (start_threads [op] jobs sh) in
    lo_answers (th_loop s) = [fst (loop_call op w)] \<and> shares (snd (loop_call op w)) (th_shared s)"
proof -
  let ?v = "\<lparr>wo_pc = WIdle, wo_todo = jobs, wo_rules = []\<rparr>"
  let ?at = "\<lambda>sh. \<lparr>th_loop = \<lparr>lo_pc = LReg RReturn op, lo_todo = [], lo_answers = []\<rparr>, th_worker = ?v, th_shared = sh\<rparr>"
  obtain src t c where w: "w = \<lparr>pw_service = \<lparr>pf_log = src, pf_targets = t\<rparr>, pw_cache = c, pw_disk = sh_disk sh\<rparr>"
    using assms by (cases w, cases "pw_service w") (simp add: shares_def)
  show ?thesis
  proof (cases "sh_targets sh")
    case (Some r)
    then have "run_schedule (replicate 2 LoopThread) (start_threads [op] jobs sh) = ?at sh"
      by (simp add: run_loop)
    from run_after [OF this, of 4] have run: "run_schedule (replicate 6 LoopThread) (start_threads [op] jobs sh) =
        run_schedule (replicate 4 LoopThread) (?at sh)" by simp
    have "shared_settled r sh" "t = Some (sh_store sh ! r)"
      using Some assms w by (simp_all add: shares_def shared_settled_def)
    with run show ?thesis
      using loop_from_registry [of r sh op ?v src c] w by (intro exI [of _ 6]) (simp add: Let_def)
  next
    case None
    show ?thesis
    proof (cases "load MAX_FINISHED (sh_disk sh)")
      case (Inl e)
      then show ?thesis using None assms w
        by (intro exI [of _ 3], cases op)
          (simp_all add: run_loop list_targets_def add_target_def remove_target_def)
    next
      case (Inr reg)
      let ?sh = "sh\<lparr>sh_store := sh_store sh @ [reg], sh_targets := Some (length (sh_store sh))\<rparr>"
      have "run_schedule (replicate 4 LoopThread) (start_threads [op] jobs sh) = ?at ?sh"
        using None Inr by (simp add: run_loop)
      from run_after [OF this, of 4]
      have run: "run_schedule (replicate 8 LoopThread) (start_threads [op] jobs sh) =
          run_schedule (replicate 4 LoopThread) (?at ?sh)" by simp
      have "loop_call op w = loop_call op (w\<lparr>pw_service := (pw_service w)\<lparr>pf_targets := Some reg\<rparr>\<rparr>)"
        using None Inr assms w
        by (cases op) (simp_all add: shares_def registry_def list_targets_def add_target_def remove_target_def)
      with run show ?thesis
        using loop_from_registry [of "length (sh_store sh)" ?sh op ?v src c] w
        by (intro exI [of _ 8]) (simp add: shared_settled_def Let_def)
    qed
  qed
qed


section \<open>Two races\<close>

definition quiet_env :: refresh_env where
  "quiet_env = \<lparr>rf_now_ns = 9, rf_stamp = (\<lambda>_. ''t''), rf_search = (\<lambda>_ _. None), rf_files = (\<lambda>_. None),
     rf_adapter_error = (\<lambda>_. None), rf_save_ok = (\<lambda>_. True)\<rparr>"

definition name_rule :: "pystr \<Rightarrow> TargetRule" where
  "name_rule v = \<lparr>tr_kind = ''name'', tr_value = v, tr_adapter = None\<rparr>"

definition plain_proc :: "int \<Rightarrow> pystr \<Rightarrow> ProcessInfo" where
  "plain_proc pid comm =
     \<lparr>pi_pid = pid, pi_comm = comm, pi_cmdline = comm, pi_exe_path = [], pi_uid = 0, pi_start_time_ns = 5,
      pi_thread_count = 1, pi_threads = [], pi_state = [], pi_error = None\<rparr>"

definition no_registry :: shared where
  "no_registry = \<lparr>sh_targets = None, sh_store = [], sh_disk = None\<rparr>"

definition with_rules :: "TargetRule list \<Rightarrow> shared" where
  "with_rules rules =
     (let reg = (empty_registry MAX_FINISHED)\<lparr>tg_rules := rules\<rparr>
      in \<lparr>sh_targets = Some 0, sh_store = [reg], sh_disk = Some (state_document reg)\<rparr>)"

text \<open>
  C14: before the registry is loaded, a rule can be lost.  In a fresh daemon the worker looks for the registry, finds
  none and reads the file; the event loop does the same, adds a rule to its own registry, writes the file
  and answers; then the worker replaces the registry by the one it has read.  The rule was confirmed, and the next listing
  does not show it.
\<close>

theorem lazy_registry_race:
  "\<exists>sched. let s = run_schedule sched
      (start_threads [LAdd True (name_rule ''fio''), LList] [WProfile quiet_env (Inr []) []] no_registry) in
    idle s \<and> lo_answers (th_loop s) = [Inr [name_rule ''fio''], Inr []]"
proof -
  let ?sched = "replicate 3 WorkerThread @ replicate 8 LoopThread @ replicate 6 WorkerThread @ replicate 3 LoopThread"
  have "let s = run_schedule ?sched
      (start_threads [LAdd True (name_rule ''fio''), LList] [WProfile quiet_env (Inr []) []] no_registry) in
    idle s \<and> lo_answers (th_loop s) = [Inr [name_rule ''fio''], Inr []]"
    by code_simp
  then show ?thesis by blast
qed

text \<open>
  C15: the file can lose a rule that the registry has.  The worker enters a session and makes the document of it; before
  it replaces the file, the event loop adds a rule, writes its own document and answers; then the worker
  replaces the file by the older document.  The registry has the rule, and a restart loses it.
\<close>

theorem stale_document_race:
  "\<exists>sched. let s = run_schedule sched
      (start_threads [LAdd True (name_rule ''dd'')] [WProfile quiet_env (Inr [plain_proc 7 ''fio'']) []]
        (with_rules [name_rule ''fio''])) in
    idle s \<and> lo_answers (th_loop s) = [Inr [name_rule ''fio'', name_rule ''dd'']] \<and>
    map_sum id tg_rules (load MAX_FINISHED (sh_disk (th_shared s))) = Inr [name_rule ''fio'']"
proof -
  let ?sched = "replicate 5 WorkerThread @ replicate 6 LoopThread @ replicate 6 WorkerThread"
  have "let s = run_schedule ?sched
      (start_threads [LAdd True (name_rule ''dd'')] [WProfile quiet_env (Inr [plain_proc 7 ''fio'']) []]
        (with_rules [name_rule ''fio''])) in
    idle s \<and> lo_answers (th_loop s) = [Inr [name_rule ''fio'', name_rule ''dd'']] \<and>
    map_sum id tg_rules (load MAX_FINISHED (sh_disk (th_shared s))) = Inr [name_rule ''fio'']"
    by code_simp
  then show ?thesis by blast
qed

theorem rules_undisturbed_witness:
  "lo_answers (th_loop (run_schedule (concat (replicate 12 [WorkerThread, LoopThread]))
      (start_threads [LAdd True (name_rule ''dd''), LRemove True ''name'' ''fio'']
        [WProfile quiet_env (Inr [plain_proc 7 ''fio'']) []] (with_rules [name_rule ''fio''])))) =
    [Inr [name_rule ''fio'', name_rule ''dd''], Inr [name_rule ''dd'']]"
proof -
  let ?ops = "[LAdd True (name_rule ''dd''), LRemove True ''name'' ''fio'']"
  have "sh_targets (with_rules [name_rule ''fio'']) = Some 0" "0 < length (sh_store (with_rules [name_rule ''fio'']))"
    by (simp_all add: with_rules_def Let_def)
  moreover have "6 * length ?ops \<le> count_list (concat (replicate 12 [WorkerThread, LoopThread])) LoopThread"
    by (simp add: numeral_eq_Suc)
  moreover have "spec_answers (tg_rules (sh_store (with_rules [name_rule ''fio'']) ! 0)) ?ops =
      [Inr [name_rule ''fio'', name_rule ''dd''], Inr [name_rule ''dd'']]"
    by code_simp
  ultimately show ?thesis using rules_undisturbed [where ops = ?ops] by (simp add: Let_def)
qed


end
