(* ===== verification/Executor.thy ===== *)
theory Executor
  imports Server
begin

text \<open>
  The executor of \<open>grpcserver/server.py\<close>: a thread pool with one worker (\<open>__init__\<close>, \<open>_run\<close>), through which the handlers that
  need the kernel call the backend, while the others call it on the event loop.

  A call is its number in the order of submission.  A call that waits can be cancelled, when the client of a
  stream goes away; one that runs cannot.
\<close>

section \<open>The pool\<close>

record executor =
  ex_max_workers :: nat
  ex_next :: nat
  ex_queue :: "nat list"
  ex_running :: "nat list"
  ex_finished :: "nat list"      \<comment> \<open>in the order in which they ended\<close>
  ex_cancelled :: "nat list"

definition new_executor :: executor where
  "new_executor =
     \<lparr>ex_max_workers = 1, ex_next = 0, ex_queue = [], ex_running = [], ex_finished = [], ex_cancelled = []\<rparr>"

text \<open>What the threads of the pool do.\<close>

inductive ex_work :: "executor \<Rightarrow> executor \<Rightarrow> bool" where
  start: "ex_queue x = j # js \<Longrightarrow> length (ex_running x) < ex_max_workers x \<Longrightarrow>
    ex_work x (x\<lparr>ex_queue := js, ex_running := ex_running x @ [j]\<rparr>)"
| finish: "j \<in> set (ex_running x) \<Longrightarrow>
    ex_work x (x\<lparr>ex_running := remove1 j (ex_running x), ex_finished := ex_finished x @ [j]\<rparr>)"

text \<open>What the event loop does: \<open>_run\<close> submits a call; a cancelled handler cancels its waiting call.\<close>

inductive ex_client :: "executor \<Rightarrow> executor \<Rightarrow> bool" where
  submit: "ex_client x (x\<lparr>ex_next := ex_next x + 1, ex_queue := ex_queue x @ [ex_next x]\<rparr>)"
| cancel: "j \<in> set (ex_queue x) \<Longrightarrow>
    ex_client x (x\<lparr>ex_queue := remove1 j (ex_queue x), ex_cancelled := ex_cancelled x @ [j]\<rparr>)"

inductive ex_reachable :: "executor \<Rightarrow> bool" where
  ex_new: "ex_reachable new_executor"
| ex_works: "ex_reachable x \<Longrightarrow> ex_work x y \<Longrightarrow> ex_reachable y"
| ex_clients: "ex_reachable x \<Longrightarrow> ex_client x y \<Longrightarrow> ex_reachable y"

inductive_cases ex_work_cases: "ex_work x y"

definition ex_order :: "executor \<Rightarrow> nat list" where
  "ex_order x = ex_finished x @ ex_running x @ ex_queue x"

definition ex_ok :: "executor \<Rightarrow> bool" where
  "ex_ok x \<longleftrightarrow> ex_max_workers x = 1 \<and> length (ex_running x) \<le> 1 \<and> sorted_wrt (<) (ex_order x) \<and>
     distinct (ex_cancelled x) \<and> set (ex_order x) \<inter> set (ex_cancelled x) = {} \<and>
     set (ex_order x) \<union> set (ex_cancelled x) = {..<ex_next x}"

lemma one_running: "j \<in> set xs \<Longrightarrow> length xs \<le> 1 \<Longrightarrow> xs = [j]"
  by (cases xs) auto

text \<open>With one worker, work only moves the calls forward in their order.\<close>

lemma ex_work_order:
  assumes "ex_work x y" "ex_max_workers x = 1" "length (ex_running x) \<le> 1"
  shows "ex_order y = ex_order x \<and> ex_max_workers y = 1 \<and> length (ex_running y) \<le> 1 \<and> ex_next y = ex_next x \<and>
    ex_cancelled y = ex_cancelled x \<and>
    2 * length (ex_queue y) + length (ex_running y) < 2 * length (ex_queue x) + length (ex_running x)"
  using assms by (auto elim!: ex_work_cases dest!: one_running simp: ex_order_def)

lemma sorted_wrt_remove1: "sorted_wrt P xs \<Longrightarrow> sorted_wrt P (remove1 j xs)"
  by (induction xs) (auto dest: notin_set_remove1)

lemma ex_ok_cancel:
  assumes "ex_ok x" "j \<in> set (ex_queue x)"
  shows "ex_ok (x\<lparr>ex_queue := remove1 j (ex_queue x), ex_cancelled := ex_cancelled x @ [j]\<rparr>)"
proof -
  have sorted: "sorted_wrt (<) (ex_order x)" using assms(1) by (simp add: ex_ok_def)
  then have dist: "distinct (ex_order x)" by (simp add: strict_sorted_iff)
  then have j: "j \<notin> set (ex_finished x @ ex_running x)" using assms(2) by (auto simp: ex_order_def)
  then have rem: "ex_finished x @ ex_running x @ remove1 j (ex_queue x) = remove1 j (ex_order x)"
    by (simp add: ex_order_def remove1_append)
  have "set (remove1 j (ex_order x)) = set (ex_order x) - {j}" using dist by simp
  moreover have "j \<in> set (ex_order x)" using assms(2) by (simp add: ex_order_def)
  ultimately show ?thesis
    using assms(1) sorted_wrt_remove1 [OF sorted, of j] rem unfolding ex_ok_def ex_order_def by auto
qed

lemma ex_reachable_ok: "ex_reachable x \<Longrightarrow> ex_ok x"
proof (induction rule: ex_reachable.induct)
  case ex_new
  show ?case by (simp add: ex_ok_def new_executor_def ex_order_def)
next
  case (ex_works x y)
  with ex_work_order [OF ex_works.hyps(2)] show ?case by (simp add: ex_ok_def)
next
  case (ex_clients x y)
  from ex_clients.hyps(2) ex_clients.IH show ?case
  proof (cases rule: ex_client.cases)
    case submit
    with ex_clients.IH show ?thesis by (auto simp: ex_ok_def ex_order_def sorted_wrt_append lessThan_Suc)
  next
    case (cancel j)
    with ex_ok_cancel [OF ex_clients.IH] show ?thesis by simp
  qed
qed

lemma ex_works_order:
  assumes "(ex_work ^^ n) x y" "ex_max_workers x = 1" "length (ex_running x) \<le> 1"
  shows "ex_order y = ex_order x \<and> ex_max_workers y = 1 \<and> length (ex_running y) \<le> 1 \<and>
    n + 2 * length (ex_queue y) + length (ex_running y) \<le> 2 * length (ex_queue x) + length (ex_running x)"
  using assms
proof (induction n arbitrary: y)
  case (Suc n)
  then obtain z where z: "(ex_work ^^ n) x z" "ex_work z y" by auto
  with Suc.IH [OF z(1)] Suc.prems ex_work_order [OF z(2)] show ?case by auto
qed simp


section \<open>What runs outside the pool\<close>

text \<open>The same moment with another kernel: other memory, other processes, other drgn objects.\<close>

definition other_kernel ::
  "kernel \<Rightarrow> 'o topo_drgn \<Rightarrow> (nvme_dev \<Rightarrow> exn + 'o) \<Rightarrow> (nvme_dev \<times> gendisk \<Rightarrow> exn + 'o \<times> 'o) \<Rightarrow> profiler_env \<Rightarrow>
   'o drgn_env \<Rightarrow> 'o drgn_env" where
  "other_kernel k d deref objects p e =
     e\<lparr>de_kernel := k, de_drgn := d, de_deref := deref, de_objects := objects, de_profiler := p\<rparr>"

text \<open>
  What the event loop calls itself does not look at the kernel.  The handlers of performance, events, error
  counters, event kinds and targets give the same reply and leave the same state whatever the kernel, its processes
  and the drgn objects are: only the files decide.
\<close>

theorem loop_handlers_ignore_kernel:
  "let e' = other_kernel k d deref objects p e in
    GetPerformance new drgn_backend device e' w = GetPerformance new drgn_backend device e w \<and>
    GetEvents new drgn_backend device e' w = GetEvents new drgn_backend device e w \<and>
    GetErrorStats new drgn_backend device e' w = GetErrorStats new drgn_backend device e w \<and>
    ListEventKinds new drgn_backend e' w = ListEventKinds new drgn_backend e w \<and>
    ListTargets new drgn_backend e' w = ListTargets new drgn_backend e w \<and>
    AddTarget new drgn_backend kind v a e' w = AddTarget new drgn_backend kind v a e w \<and>
    RemoveTarget new drgn_backend kind v e' w = RemoveTarget new drgn_backend kind v e w"
  by (simp add: Let_def other_kernel_def drgn_backend_def GetPerformance_def GetEvents_def GetErrorStats_def
      ListEventKinds_def ListTargets_def AddTarget_def RemoveTarget_def)

section \<open>A concrete run\<close>

definition busy_executor :: executor where
  "busy_executor = new_executor\<lparr>ex_next := 2, ex_queue := [1], ex_running := [0]\<rparr>"

lemma busy_reachable: "ex_reachable busy_executor"
proof -
  have "ex_reachable (new_executor\<lparr>ex_next := 1, ex_queue := [0]\<rparr>)"
    using ex_clients [OF ex_new submit] by (simp add: new_executor_def)
  from ex_clients [OF this submit] have "ex_reachable (new_executor\<lparr>ex_next := 2, ex_queue := [0, 1]\<rparr>)"
    by (simp add: new_executor_def numeral_2_eq_2)
  from ex_works [OF this start] show ?thesis by (simp add: new_executor_def busy_executor_def)
qed


end
