(* ===== verification/Spec2Isabelle.thy ===== *)
theory Spec2Isabelle
  imports WebStreams Ffi CliReportLaws SharedFile Composition ProfilerThreads Executor
begin

text \<open>
  Verification of telemetryd, a daemon that shows the state of NVMe controllers: the queues in kernel
  memory (read through drgn), performance and events (read from the log that a bpftrace collector
  writes), and the processes that cause the I/O.

  \<^bold>\<open>The program.\<close>  Under \<open>src/src/telemetryd\<close> a backend is a facade over services.  Each service stands on a
  platform: the queue and topology services on a kernel session, the performance and event services on
  the collector's log, the profiler on both.  gRPC, web and command line adapters call the backend.  The
  collector is \<open>src/ebpf/nvme_perf.bt\<close>.

  \<^bold>\<open>The theories.\<close>

  \<^item> \<open>Prelude\<close>: results with exceptions (\<open>bindE\<close>), insertion-ordered dictionaries, the last \<open>n\<close> elements, folds
    with an invariant.  \<open>PyText\<close>: the string operations of Python that the parsers use, decimal numbers,
    the fragment of regular expressions the patterns need with the law that a printed line is matched,
    UTF-8 decoding with replacement.  \<open>Models\<close>: the dataclasses of \<open>models.py\<close> as records, exceptions and
    messages as data.

  \<^item> \<open>NvmeConst\<close> (\<open>nvme_const.py\<close>): opcode and status tables, the decoder of a status word, lossless on the
    fields it reports.

  \<^item> \<open>EbpfLog\<close> (\<open>platform/ebpf/logfile.py\<close>): a log source and its cursor over an explicit view of the file.  On
    an append-only log a cursor delivers every complete line once, in order; the locale \<open>log_cursor\<close> is what
    the readers rely on.

  \<^item> \<open>EventReader\<close>, \<open>TimeoutEvents\<close>, \<open>ErrorEvents\<close>, \<open>EventService\<close> (\<open>backend/ebpf_timeout_events.py\<close>,
    \<open>backend/ebpf_error_events.py\<close>, \<open>backend/event_registry.py\<close>, \<open>services/events\<close>): the two parsers with round trips
    for the lines the collector prints, the bounded buffer (locale \<open>event_source\<close>), the counters, and the
    service as a state machine: what it returns after any sequence of calls is the tail of the parsed log.

  \<^item> \<open>EbpfPerf\<close> (\<open>backend/ebpf_perf.py\<close>, \<open>services/perf\<close>): the map dump of the last complete tick, merged
    histograms, percentiles as least covering bucket bounds, sums over queues.

  \<^item> \<open>TtlCache\<close> (\<open>platform/cache.py\<close>): the cache whose lifetimes follow the cost of a computation, with the bound
    on the share of time that computations take.

  \<^item> \<open>QueueDecode\<close>, \<open>QueueService\<close> (\<open>services/queues\<close>): ring windows against the history of writes, PRP payloads
    against the transfer they describe, device lookup, snapshots, dumps, payloads and the IOMMU guard, over
    a record of what the kernel answers.

  \<^item> \<open>TreeWalk\<close> (\<open>treewalk.py\<close>): description and expansion of kernel objects; a listed child can be expanded.

  \<^item> \<open>ProcStats\<close> (\<open>backend/proc_stats.py\<close>), \<open>Adapters\<close> (\<open>backend/adapters\<close>), \<open>ProcInfo\<close> (\<open>backend/procinfo.py\<close>):
    per-process statistics, the fio and the generic adapter with the comparison of expected and measured
    workloads, the page-table walk and the process inventory.

  \<^item> \<open>Targets\<close> with \<open>TargetSessions\<close>, \<open>TargetAttribution\<close>, \<open>TargetStore\<close> (\<open>backend/targets.py\<close>): the registry of rules
    and sessions.  Sessions follow process identities, the rates of a device are split without loss, the rule
    list behaves as a map (locale \<open>rule_store\<close>), and a saved registry is restored after a restart.

  \<^item> \<open>Profiler\<close> (\<open>services/profiler\<close>): the service over registry, cache and state file; \<open>profiler_step\<close> is its step
    relation, restarts and failing writes included, and every reachable state is consistent.

  \<^item> \<open>TopologyTree\<close>, \<open>TopologyBuild\<close>, \<open>TopologyLaws\<close> (\<open>backend/topology.py\<close>, \<open>services/topology\<close>): the tree under
    construction as a store of shared cells, its builder over drgn objects, and that it shows every device once
    below its PCI ancestors.

  \<^item> \<open>MockBackend\<close>, \<open>MockTopology\<close> (\<open>backend/mock_backend.py\<close>, \<open>services/topology/mock.py\<close>): the synthetic backend, with its
    windows, pages and trees compared to the real ones.

  \<^item> \<open>Backend\<close> (\<open>backend/base.py\<close>, \<open>backend/drgn_backend.py\<close>, \<open>backend/__init__.py\<close>): the protocol as a record of methods, with the
    mock and the drgn backend as its two values.

  \<^item> \<open>KernelSession\<close>, \<open>Composition\<close> (\<open>platform/kernel\<close>, \<open>services/registry.py\<close>, \<open>composition.py\<close>): the drgn program is connected
    to once; the registry answers for what was registered; the services of the daemon share their platforms.

  \<^item> \<open>SharedFile\<close>: the daemon and the command line on one targets file, each through its own registry: never corrupt, but one
    undoes what the other wrote.

  \<^item> \<open>Wire\<close>, \<open>Convert\<close>, \<open>ConvertLaws\<close> (\<open>proto/telemetryd.proto\<close>, \<open>grpcserver/convert.py\<close>): messages with typed fields, every
    conversion, which dataclasses convert and that nothing is lost.  The generated classes are a parameter with
    the hypothesis \<open>runtime\<close>, satisfied by \<open>checked_new\<close>.

  \<^item> \<open>Server\<close>, \<open>ServerLaws\<close> (\<open>grpcserver/server.py\<close>): every handler and stream.  The locale \<open>device_lookup\<close> is what the queue
    handlers rely on; it is interpreted on both backends.

  \<^item> \<open>Web\<close>, \<open>WebLaws\<close>, \<open>WebRelay\<close> (\<open>grpcserver/client.py\<close>, \<open>web/app.py\<close>): client and REST handlers with the HTTP status of every
    outcome, the bytes of a page in JSON, and the WebSocket relay as a step relation over its tasks.  The framework's
    delivery of an outcome is a parameter with the hypothesis \<open>delivers\<close>.

  \<^item> \<open>WebStreams\<close>: the WebSocket routes over the streams of the client, with the code and reason of their end.

  \<^item> \<open>Executor\<close> (\<open>grpcserver/server.py\<close>): the pool with one worker as a transition system with waiting, running, ended and cancelled
    calls; calls are serial and in order, and what the handlers call outside the pool does not look at the kernel.

  \<^item> \<open>ProfilerThreads\<close>: the profiler under the two threads that reach it, the worker and the event loop, cut at the places where they
    meet; registries are objects in a store.  A thread alone refines the calls of \<open>Profiler\<close>; with a loaded registry the
    rules are undisturbed under every schedule; two schedules lose a rule, one while the registry is created, one while
    the file is written.

  \<^item> \<open>Cli\<close>, \<open>CliLaws\<close> (\<open>cli/main.py\<close>): the commands for devices, queues, payloads, tree, topology, watching and targets;
    what they print can be read back.  \<open>CliFormat\<close>, \<open>CliReport\<close>, \<open>CliReportLaws\<close>: numbers as text with their error, the commands for
    performance, events, error counters, processes and profile, the loop of \<open>--watch\<close> (locale \<open>watched\<close>: a round that ends
    normally), and \<open>doctor\<close>, which cannot succeed.

  \<^item> \<open>Ffi\<close> (\<open>ffi.py\<close>): the JSON documents for an embedding program; nothing is lost in them.

  \<^bold>\<open>Conventions.\<close>  Python's integers are \<open>int\<close>; a register that the code masks is masked in the model.  Floating
  point numbers are rationals: rounding is not modelled.  Strings are lists of bytes in UTF-8.  A dictionary is
  an association list in insertion order.  A raised exception is a value \<open>Inl\<close>; user-visible messages are
  constructors of \<open>message\<close>.  Everything outside the program is a parameter: the file at each access, the clock,
  the kernel behind drgn, regular expressions of the user, the digest of the mock.  All definitions are
  total; the loops end by structural recursion or by a measure (\<open>read_loop\<close>: the bytes left, \<open>first_free\<close>: the
  taken names left), so there is no fuel.

  \<^bold>\<open>Not modelled.\<close>  Parsing of options, colours and terminal width, which are click's; Korean phrases are named, not spelt.
  Starting the servers, the logging set-up, static files and the routing of FastAPI.  The text of JSON documents and of protobuf
  messages: their structure is modelled.  In \<open>ProfilerThreads\<close> the replacement of the file is one step, although both threads use the
  same name for the temporary file.  \<open>get_progress\<close> of the adapters always answers \<open>None\<close>.  Docstrings, protocol classes without
  behaviour and package initialisers have nothing to model.
\<close>

end
